(* ===== verification/Go_Prelude.thy ===== *)
theory Go_Prelude
  imports Main "HOL-Library.Word" "HOL-Library.Char_ord" "HOL-Library.List_Lexorder"
    "HOL-Library.AList" "HOL-Library.Sublist"
begin

text \<open>
  Shared ground of the development: how the Go values the four modules exchange are
  represented, and the part of the Go standard library their code calls.

  \<^item> A Go \<open>string\<close> is a sequence of bytes, here a \<^typ>\<open>string\<close> (a list of 8-bit characters).
    The binary protocols (\<open>torrent/peer\<close>, \<open>sftp\<close>) use \<open>[]byte\<close>, here \<open>8 word list\<close>.
  \<^item> A Go \<open>int\<close> is 64 bits wide: an \<^typ>\<open>int\<close>, with \<open>wrap64\<close> applied where the code adds
    values an outside party chose.
  \<^item> An \<open>error\<close> is a value of the type \<open>error\<close>, and a panic is the value \<open>Panic\<close> of the same
    type: every early return and every panic of the source is a branch of the model.
  \<^item> A \<open>bufio.Reader\<close> is the list of the bytes still to be read.
  \<^item> A Go map is an association list. Its order is the order in which the runtime happens to
    iterate, so a theorem about all association lists covers every iteration order.

  \<open>ToUpper\<close>, \<open>ToLower\<close>, \<open>EqualFold\<close>, \<open>TrimSpace\<close> and \<open>Fields\<close> follow the ASCII path of the Go
  functions; bytes from 0x80 on are left alone, so the model is exact for ASCII text.
\<close>

unbundle bit_operations_syntax

section \<open>Collections of the development\<close>

named_theorems go_str \<open>rewrite rules of the string functions\<close>
named_theorems go_num \<open>rewrite rules of the number parsing and printing functions\<close>
named_theorems go_bin \<open>rewrite rules of the big-endian encodings\<close>

section \<open>Errors\<close>

datatype error =
    IO_EOF
  | IO_ErrUnexpectedEOF
  | Errorf string
  | Wrapped string error
  | Panic string

type_synonym 'a result = "error + 'a"

type_synonym bytes = "8 word list"

text \<open>\<open>Wrapped\<close> is \<open>fmt.Errorf\<close> with \<open>%w\<close>; a panic is never caught, so it is not wrapped.\<close>

fun is_panic :: "error \<Rightarrow> bool" where
  "is_panic (Panic _) = True"
| "is_panic _ = False"

definition wrap_err :: "string \<Rightarrow> error \<Rightarrow> error" where
  "wrap_err msg e = (if is_panic e then e else Wrapped msg e)"

text \<open>The text of \<open>err.Error()\<close>, as far as the models keep it.\<close>

fun err_text :: "error \<Rightarrow> string" where
  "err_text IO_EOF = ''EOF''"
| "err_text IO_ErrUnexpectedEOF = ''unexpected EOF''"
| "err_text (Errorf s) = s"
| "err_text (Wrapped s e) = s @ '': '' @ err_text e"
| "err_text (Panic s) = s"

section \<open>Integers\<close>

definition wrap64 :: "int \<Rightarrow> int" where
  "wrap64 x = (x + 2 ^ 63) mod 2 ^ 64 - 2 ^ 63"

definition int64 :: "int \<Rightarrow> bool" where
  "int64 x \<longleftrightarrow> - (2 ^ 63) \<le> x \<and> x < 2 ^ 63"

text \<open>The largest allocation of the Go runtime on 64-bit platforms: \<open>make([]byte, n)\<close>
  panics on a negative length and above it.\<close>

definition maxAlloc :: int where
  "maxAlloc = 2 ^ 48"

definition make_ok :: "int \<Rightarrow> bool" where
  "make_ok n \<longleftrightarrow> 0 \<le> n \<and> n \<le> maxAlloc"

text \<open>Integer division of Go truncates towards zero.\<close>

definition quot_int :: "int \<Rightarrow> int \<Rightarrow> int" where
  "quot_int a b = sgn a * sgn b * (\<bar>a\<bar> div \<bar>b\<bar>)"

definition rem_int :: "int \<Rightarrow> int \<Rightarrow> int" where
  "rem_int a b = a - quot_int a b * b"

section \<open>Package strings\<close>

definition HasPrefix :: "string \<Rightarrow> string \<Rightarrow> bool" where
  "HasPrefix s p \<longleftrightarrow> take (length p) s = p"

definition HasSuffix :: "string \<Rightarrow> string \<Rightarrow> bool" where
  "HasSuffix s p \<longleftrightarrow> HasPrefix (rev s) (rev p)"

definition TrimPrefix :: "string \<Rightarrow> string \<Rightarrow> string" where
  "TrimPrefix s p = (if HasPrefix s p then drop (length p) s else s)"

text \<open>\<open>IndexByte\<close>: the first position of a byte; \<open>None\<close> where Go returns \<open>-1\<close>.\<close>

fun IndexByte :: "'a list \<Rightarrow> 'a \<Rightarrow> nat option" where
  "IndexByte [] c = None"
| "IndexByte (x # xs) c = (if x = c then Some 0 else map_option Suc (IndexByte xs c))"

definition LastIndexByte :: "'a list \<Rightarrow> 'a \<Rightarrow> nat option" where
  "LastIndexByte s c =
     (case IndexByte (rev s) c of None \<Rightarrow> None | Some i \<Rightarrow> Some (length s - 1 - i))"

definition ContainsAny :: "string \<Rightarrow> string \<Rightarrow> bool" where
  "ContainsAny s cs \<longleftrightarrow> list_ex (\<lambda>c. List.member cs c) s"

text \<open>\<open>Split\<close> at a one-byte separator, and \<open>Join\<close>.\<close>

fun Split :: "string \<Rightarrow> char \<Rightarrow> string list" where
  "Split [] sep = [[]]"
| "Split (c # cs) sep =
     (if c = sep then [] # Split cs sep
      else (case Split cs sep of [] \<Rightarrow> [[c]] | w # ws \<Rightarrow> (c # w) # ws))"

fun Join :: "string list \<Rightarrow> string \<Rightarrow> string" where
  "Join [] sep = []"
| "Join [w] sep = w"
| "Join (w # v # ws) sep = w @ sep @ Join (v # ws) sep"

definition TrimLeft :: "string \<Rightarrow> string \<Rightarrow> string" where
  "TrimLeft s cutset = dropWhile (\<lambda>c. List.member cutset c) s"

definition TrimRight :: "string \<Rightarrow> string \<Rightarrow> string" where
  "TrimRight s cutset = rev (dropWhile (\<lambda>c. List.member cutset c) (rev s))"

text \<open>The control characters the sources write as escapes.\<close>

abbreviation "CR \<equiv> CHR 0x0D"
abbreviation "LF \<equiv> CHR 0x0A"
abbreviation "NUL \<equiv> CHR 0x00"
abbreviation "CRLF \<equiv> [CR, LF]"

definition isSpace :: "char \<Rightarrow> bool" where
  "isSpace c \<longleftrightarrow> List.member [CHR 0x09, CHR 0x0A, CHR 0x0B, CHR 0x0C, CHR 0x0D, CHR '' ''] c"

definition TrimSpace :: "string \<Rightarrow> string" where
  "TrimSpace s = rev (dropWhile isSpace (rev (dropWhile isSpace s)))"

text \<open>\<open>Fields\<close>: the maximal runs of non-space bytes.\<close>

function Fields :: "string \<Rightarrow> string list" where
  "Fields s =
     (let t = dropWhile isSpace s
      in if t = [] then []
         else takeWhile (\<lambda>c. \<not> isSpace c) t # Fields (dropWhile (\<lambda>c. \<not> isSpace c) t))"
  by pat_completeness auto
termination
proof (relation "measure length", goal_cases)
  case (2 s t)
  then have "t \<noteq> []" and "\<not> isSpace (hd t)" and "length t \<le> length s"
    by (auto simp: hd_dropWhile length_dropWhile_le)
  then obtain c u where t: "t = c # u" and "\<not> isSpace c" and "length t \<le> length s"
    by (cases t) auto
  moreover have "length (dropWhile (\<lambda>c. \<not> isSpace c) u) \<le> length u"
    by (rule length_dropWhile_le)
  ultimately show ?case by simp
qed simp

declare Fields.simps [simp del]

definition upper :: "char \<Rightarrow> char" where
  "upper c = (let n = (of_char c :: nat) in if 97 \<le> n \<and> n \<le> 122 then char_of (n - 32) else c)"

definition lower :: "char \<Rightarrow> char" where
  "lower c = (let n = (of_char c :: nat) in if 65 \<le> n \<and> n \<le> 90 then char_of (n + 32) else c)"

definition ToUpper :: "string \<Rightarrow> string" where
  "ToUpper s = map upper s"

definition ToLower :: "string \<Rightarrow> string" where
  "ToLower s = map lower s"

definition EqualFold :: "string \<Rightarrow> string \<Rightarrow> bool" where
  "EqualFold s t \<longleftrightarrow> ToLower s = ToLower t"

text \<open>The conversions \<open>[]byte(s)\<close> and \<open>string(b)\<close>.\<close>

definition bytes_of :: "string \<Rightarrow> bytes" where
  "bytes_of s = map (\<lambda>c. word_of_nat (of_char c)) s"

definition string_of :: "bytes \<Rightarrow> string" where
  "string_of b = map (\<lambda>w. char_of (unat w)) b"

text \<open>\<open>copy(dst[begin:], src)\<close> for a \<open>begin\<close> within \<open>dst\<close>: the rest of \<open>dst\<close> bounds the copy.\<close>

definition copy_at :: "nat \<Rightarrow> 'a list \<Rightarrow> 'a list \<Rightarrow> 'a list" where
  "copy_at begin src dst =
     take begin dst @ take (length dst - begin) src @ drop (begin + length src) dst"

section \<open>Package strconv\<close>

definition isDigitB :: "char \<Rightarrow> bool" where
  "isDigitB c \<longleftrightarrow> (48::nat) \<le> of_char c \<and> (of_char c :: nat) \<le> 57"

definition digit_char :: "nat \<Rightarrow> char" where
  "digit_char d = char_of (48 + d)"

fun show_nat :: "nat \<Rightarrow> string" where
  "show_nat n =
     (if n < 10 then [digit_char n] else show_nat (n div 10) @ [digit_char (n mod 10)])"

declare show_nat.simps [simp del]

text \<open>\<open>FormatInt(x, 10)\<close>, \<open>Itoa\<close> and the verb \<open>%d\<close>.\<close>

definition show_int :: "int \<Rightarrow> string" where
  "show_int x = (if x < 0 then CHR ''-'' # show_nat (nat (- x)) else show_nat (nat x))"

fun parse_digits :: "nat \<Rightarrow> string \<Rightarrow> nat option" where
  "parse_digits acc [] = Some acc"
| "parse_digits acc (c # cs) =
     (if isDigitB c then parse_digits (acc * 10 + (of_char c - 48)) cs else None)"

definition parse_nat :: "string \<Rightarrow> nat option" where
  "parse_nat s = (if s = [] then None else parse_digits 0 s)"

text \<open>\<open>ParseInt(s, 10, 64)\<close> and \<open>Atoi\<close>: an optional sign, decimal digits, and the range of
  a 64-bit integer; \<open>None\<close> for the syntax and the range error.\<close>

definition ParseInt64 :: "string \<Rightarrow> int option" where
  "ParseInt64 s =
     (case s of
        [] \<Rightarrow> None
      | c # cs \<Rightarrow>
          (let neg = (c = CHR ''-''); ds = (if c = CHR ''-'' \<or> c = CHR ''+'' then cs else s)
           in case parse_nat ds of
                None \<Rightarrow> None
              | Some n \<Rightarrow>
                  (let v = (if neg then - int n else int n)
                   in if int64 v then Some v else None)))"

text \<open>The value of \<open>Atoi\<close> when its error is ignored: zero for a syntax error, the nearest bound for a range
  error.\<close>

definition atoi_val :: "string \<Rightarrow> int" where
  "atoi_val s =
     (case ParseInt64 s of
        Some x \<Rightarrow> x
      | None \<Rightarrow>
          (case parse_nat (if s \<noteq> [] \<and> (hd s = CHR ''-'' \<or> hd s = CHR ''+'') then tl s else s) of
             None \<Rightarrow> 0
           | Some _ \<Rightarrow> if hd s = CHR ''-'' then - (2 ^ 63) else 2 ^ 63 - 1))"

text \<open>\<open>ParseUint(s, 10, w)\<close>: no sign is accepted.\<close>

definition ParseUint :: "nat \<Rightarrow> string \<Rightarrow> nat option" where
  "ParseUint w s =
     (case parse_nat s of None \<Rightarrow> None | Some n \<Rightarrow> if n < 2 ^ w then Some n else None)"

section \<open>Package encoding/binary: big-endian words\<close>

definition PutUint16 :: "16 word \<Rightarrow> bytes" where
  "PutUint16 w = [ucast (drop_bit 8 w), ucast w]"

definition PutUint32 :: "32 word \<Rightarrow> bytes" where
  "PutUint32 w = [ucast (drop_bit 24 w), ucast (drop_bit 16 w), ucast (drop_bit 8 w), ucast w]"

definition PutUint64 :: "64 word \<Rightarrow> bytes" where
  "PutUint64 w = PutUint32 (ucast (drop_bit 32 w)) @ PutUint32 (ucast w)"

text \<open>Reading asks for enough bytes; a shorter slice panics in Go, and every caller checks
  the length first, so the models below call these on slices of the right length.\<close>

fun Uint16 :: "bytes \<Rightarrow> 16 word" where
  "Uint16 (a # b # _) = push_bit 8 (ucast a) OR ucast b"
| "Uint16 _ = 0"

fun Uint32 :: "bytes \<Rightarrow> 32 word" where
  "Uint32 (a # b # c # d # _) =
     push_bit 24 (ucast a) OR push_bit 16 (ucast b) OR push_bit 8 (ucast c) OR ucast d"
| "Uint32 _ = 0"

fun Uint64 :: "bytes \<Rightarrow> 64 word" where
  "Uint64 bs = push_bit 32 (ucast (Uint32 (take 4 bs))) OR ucast (Uint32 (drop 4 bs))"

section \<open>Packages io and bufio\<close>

text \<open>A reader is the list of bytes not yet consumed. \<open>ReadFull\<close> reports \<open>EOF\<close> when nothing
  was read and \<open>ErrUnexpectedEOF\<close> after a partial read.\<close>

definition ReadFull :: "nat \<Rightarrow> 'a list \<Rightarrow> ('a list \<times> 'a list) result" where
  "ReadFull n r =
     (if n \<le> length r then Inr (take n r, drop n r)
      else Inl (if r = [] then IO_EOF else IO_ErrUnexpectedEOF))"

text \<open>\<open>ReadString(delim)\<close> returns the text up to and including the delimiter.\<close>

definition ReadString :: "'a \<Rightarrow> 'a list \<Rightarrow> ('a list \<times> 'a list) result" where
  "ReadString delim r =
     (case IndexByte r delim of
        None \<Rightarrow> Inl IO_EOF
      | Some i \<Rightarrow> Inr (take (Suc i) r, drop (Suc i) r))"


section \<open>Library lemmas\<close>

lemma string_of_bytes_of [simp]: "string_of (bytes_of s) = s"
  by (induction s) (simp_all add: string_of_def bytes_of_def unat_of_nat)

lemma bytes_of_string_of [simp]: "bytes_of (string_of b) = b"
proof (induction b)
  case (Cons w b)
  have "unat w < 2 ^ LENGTH(8)" by (rule unsigned_less)
  then have "word_of_nat (of_char (char_of (unat w) :: char)) = w" by simp
  with Cons show ?case by (simp add: string_of_def bytes_of_def)
qed (simp add: string_of_def bytes_of_def)

lemma length_bytes_of [simp]: "length (bytes_of s) = length s"
  and length_string_of [simp]: "length (string_of b) = length b"
  by (simp_all add: bytes_of_def string_of_def)

lemma bytes_of_inject [simp]: "bytes_of s = bytes_of t \<longleftrightarrow> s = t"
  by (metis string_of_bytes_of)

lemma bytes_of_append [simp]: "bytes_of (s @ t) = bytes_of s @ bytes_of t"
  and string_of_append [simp]: "string_of (a @ b) = string_of a @ string_of b"
  and bytes_of_Nil [simp]: "bytes_of [] = []"
  and string_of_Nil [simp]: "string_of [] = []"
  by (simp_all add: bytes_of_def string_of_def)

lemma length_copy_at [simp]: "begin \<le> length dst \<Longrightarrow> length (copy_at begin src dst) = length dst"
  by (simp add: copy_at_def)

lemma nth_copy_at:
  "begin + length src \<le> length dst \<Longrightarrow> i < length dst \<Longrightarrow>
   copy_at begin src dst ! i = (if begin \<le> i \<and> i < begin + length src then src ! (i - begin) else dst ! i)"
  by (auto simp: copy_at_def nth_append min_def)

lemma copy_at_append:
  "length pre = n \<Longrightarrow> length old = length src \<Longrightarrow> copy_at n src (pre @ old @ post) = pre @ src @ post"
  by (simp add: copy_at_def)

lemma wrap64_id [simp]: "int64 x \<Longrightarrow> wrap64 x = x"
  by (simp add: wrap64_def int64_def)

lemma int64_wrap64 [simp]: "int64 (wrap64 x)"
  by (auto simp: wrap64_def int64_def)

subsection \<open>Searching and trimming\<close>

lemma HasPrefix_iff: "HasPrefix s p \<longleftrightarrow> (\<exists>t. s = p @ t)"
  unfolding HasPrefix_def by (metis append_eq_conv_conj append_take_drop_id)

lemma HasPrefix_append [simp, go_str]: "HasPrefix (p @ s) p"
  by (simp add: HasPrefix_def)

lemma HasPrefix_Nil [simp, go_str]: "HasPrefix s []"
  by (simp add: HasPrefix_def)

lemma HasPrefix_Cons [simp, go_str]: "HasPrefix s (c # p) \<longleftrightarrow> (\<exists>t. s = c # t \<and> HasPrefix t p)"
  by (cases s) (auto simp: HasPrefix_def)

lemma TrimPrefix_append [simp, go_str]: "TrimPrefix (p @ s) p = s"
  by (simp add: TrimPrefix_def)

lemma IndexByte_None [simp]: "IndexByte s c = None \<longleftrightarrow> c \<notin> set s"
  by (induction s) auto

lemma IndexByte_notin [simp]: "c \<notin> set s \<Longrightarrow> IndexByte s c = None"
  by simp

lemma IndexByte_eq_takeWhile:
  "c \<in> set s \<Longrightarrow> IndexByte s c = Some (length (takeWhile (\<lambda>x. x \<noteq> c) s))"
  by (induction s) auto

lemma IndexByte_append [simp]: "c \<notin> set s \<Longrightarrow> IndexByte (s @ c # t) c = Some (length s)"
  by (induction s) auto

lemma IndexByte_SomeD:
  "IndexByte s c = Some i \<Longrightarrow>
     i < length s \<and> s ! i = c \<and> c \<notin> set (take i s) \<and> s = take i s @ c # drop (Suc i) s"
  by (induction s arbitrary: i) (auto split: if_splits)

lemma ReadString_append [simp]: "c \<notin> set s \<Longrightarrow> ReadString c (s @ c # t) = Inr (s @ [c], t)"
  by (simp add: ReadString_def)

lemma ReadString_shrinks: "ReadString c r = Inr (s, r') \<Longrightarrow> length r' < length r"
  by (auto simp: ReadString_def split: option.splits dest: IndexByte_SomeD)

lemma ReadFull_append [simp]: "length s = n \<Longrightarrow> ReadFull n (s @ t) = Inr (s, t)"
  by (simp add: ReadFull_def)

lemma ReadFull_shrinks: "ReadFull n r = Inr (s, r') \<Longrightarrow> length s = n \<and> r = s @ r'"
  by (auto simp: ReadFull_def split: if_splits)

lemma TrimRight_Nil [simp]: "TrimRight [] cs = []"
  by (simp add: TrimRight_def)

lemma TrimRight_snoc_out: "c \<notin> set cs \<Longrightarrow> TrimRight (s @ [c]) cs = s @ [c]"
  by (simp add: TrimRight_def)

lemma TrimRight_snoc_in [simp]: "c \<in> set cs \<Longrightarrow> TrimRight (s @ [c]) cs = TrimRight s cs"
  by (simp add: TrimRight_def)

lemma TrimRight_id: "s = [] \<or> last s \<notin> set cs \<Longrightarrow> TrimRight s cs = s"
  by (cases s rule: rev_cases) (auto simp: TrimRight_snoc_out)

lemma TrimRight_append_set: "set t \<subseteq> set cs \<Longrightarrow> TrimRight (s @ t) cs = TrimRight s cs"
  by (induction t rule: rev_induct) (auto simp flip: append_assoc)

lemma TrimLeft_id: "s = [] \<or> hd s \<notin> set cs \<Longrightarrow> TrimLeft s cs = s"
  by (cases s) (auto simp: TrimLeft_def)

subsection \<open>Splitting and joining\<close>

lemma Split_not_Nil [simp]: "Split s c \<noteq> []"
  by (induction s) (auto split: list.splits)

lemma Split_no_sep: "c \<notin> set s \<Longrightarrow> Split s c = [s]"
  by (induction s) auto

lemma Split_append_sep: "c \<notin> set s \<Longrightarrow> Split (s @ c # t) c = s # Split t c"
  by (induction s) auto

lemma Join_Cons: "ws \<noteq> [] \<Longrightarrow> Join (w # ws) sep = w @ sep @ Join ws sep"
  by (cases ws) auto

lemma Split_Join:
  "ws \<noteq> [] \<Longrightarrow> \<forall>w \<in> set ws. c \<notin> set w \<Longrightarrow> Split (Join ws [c]) c = ws"
  by (induction ws rule: induct_list012) (auto simp: Split_no_sep Split_append_sep)

lemma Join_Split: "Join (Split s c) [c] = s"
proof (induction s)
  case (Cons a s)
  then show ?case by (cases "Split s c") (auto simp: Join_Cons, cases "tl (Split s c)", auto)
qed simp

lemma Split_no_sep_in: "w \<in> set (Split s c) \<Longrightarrow> c \<notin> set w"
proof (induction s arbitrary: w)
  case (Cons a s)
  show ?case
  proof (cases "Split s c")
    case Nil
    then show ?thesis by simp
  next
    case (Cons v vs)
    then show ?thesis using Cons.IH Cons.prems by (auto split: if_splits)
  qed
qed simp

subsection \<open>Case mapping\<close>

lemma upper_upper [simp]: "upper (upper c) = upper c"
  by (auto simp: upper_def Let_def)

lemma lower_lower [simp]: "lower (lower c) = lower c"
  by (auto simp: lower_def Let_def)

lemma ToUpper_idem [simp, go_str]: "ToUpper (ToUpper s) = ToUpper s"
  by (simp add: ToUpper_def)

lemma ToLower_idem [simp, go_str]: "ToLower (ToLower s) = ToLower s"
  by (simp add: ToLower_def)

lemma ToLower_Nil_iff [simp]: "ToLower s = [] \<longleftrightarrow> s = []"
  by (simp add: ToLower_def)

lemma EqualFold_refl [simp]: "EqualFold s s"
  by (simp add: EqualFold_def)

subsection \<open>Numbers\<close>

lemma of_char_digit [simp]: "d < 10 \<Longrightarrow> of_char (digit_char d) = 48 + d"
  by (simp add: digit_char_def)

lemma isDigitB_digit [simp]: "d < 10 \<Longrightarrow> isDigitB (digit_char d)"
  by (simp add: isDigitB_def)

lemma isDigitB_digit_of: "isDigitB c \<Longrightarrow> digit_char (of_char c - 48) = c"
  by (simp add: isDigitB_def digit_char_def)

lemma show_nat_not_Nil [simp]: "show_nat n \<noteq> []"
  by (subst show_nat.simps) simp

lemma show_nat_digits: "c \<in> set (show_nat n) \<Longrightarrow> isDigitB c"
proof (induction n rule: show_nat.induct)
  case (1 n)
  then show ?case by (subst (asm) (2) show_nat.simps) (auto split: if_splits)
qed

lemma parse_digits_append:
  "parse_digits acc (s @ t) =
     (case parse_digits acc s of None \<Rightarrow> None | Some a \<Rightarrow> parse_digits a t)"
  by (induction s arbitrary: acc) auto

lemma parse_digits_show_nat: "parse_digits 0 (show_nat n) = Some n"
proof (induction n rule: show_nat.induct)
  case (1 n)
  show ?case
    by (subst show_nat.simps) (simp add: parse_digits_append "1.IH")
qed

lemma parse_nat_show_nat [simp, go_num]: "parse_nat (show_nat n) = Some n"
  by (simp add: parse_nat_def parse_digits_show_nat)

lemma ParseUint_show_nat [simp, go_num]: "n < 2 ^ w \<Longrightarrow> ParseUint w (show_nat n) = Some n"
  by (simp add: ParseUint_def)

lemma hd_show_nat_digit: "isDigitB (hd (show_nat n))"
  by (rule show_nat_digits [of _ n]) simp

lemma ParseInt64_show_int [simp, go_num]: "int64 x \<Longrightarrow> ParseInt64 (show_int x) = Some x"
proof -
  assume x: "int64 x"
  obtain c cs where s: "show_nat (nat x) = c # cs" by (cases "show_nat (nat x)") auto
  then have "isDigitB c" using hd_show_nat_digit [of "nat x"] by simp
  then have "c \<noteq> CHR ''-''" and "c \<noteq> CHR ''+''" by (auto simp: isDigitB_def)
  then show ?thesis using x s parse_nat_show_nat [of "nat x"]
    by (auto simp: ParseInt64_def show_int_def Let_def)
qed

lemma ParseInt64_range: "ParseInt64 s = Some x \<Longrightarrow> int64 x"
  by (auto simp: ParseInt64_def Let_def split: list.splits option.splits if_splits)

lemma show_int_chars: "c \<in> set (show_int x) \<Longrightarrow> c = CHR ''-'' \<or> isDigitB c"
  by (auto simp: show_int_def dest: show_nat_digits split: if_splits)

subsection \<open>Big-endian words\<close>

lemma length_PutUint [simp, go_bin]:
  "length (PutUint16 v) = 2" "length (PutUint32 w) = 4" "length (PutUint64 u) = 8"
  by (simp_all add: PutUint16_def PutUint32_def PutUint64_def)

lemma Uint16_PutUint16 [simp, go_bin]: "Uint16 (PutUint16 w @ r) = w"
  by (simp add: PutUint16_def) (rule bit_word_eqI, auto simp: bit_simps)

lemma Uint32_PutUint32 [simp, go_bin]: "Uint32 (PutUint32 w @ r) = w"
proof (simp add: PutUint32_def, rule bit_word_eqI, goal_cases)
  case (1 n)
  consider "n < 8" | "8 \<le> n" "n < 16" | "16 \<le> n" "n < 24" | "24 \<le> n" by linarith
  then show ?case using 1 by cases (auto simp: bit_simps)
qed

lemma Uint32_PutUint32_only [simp, go_bin]: "Uint32 (PutUint32 w) = w"
  using Uint32_PutUint32 [of w "[]"] by simp

lemma Uint16_PutUint16_only [simp, go_bin]: "Uint16 (PutUint16 w) = w"
  using Uint16_PutUint16 [of w "[]"] by simp

lemma Uint64_PutUint64 [simp, go_bin]: "Uint64 (PutUint64 w @ r) = w"
proof -
  have "push_bit 32 (ucast (ucast (drop_bit 32 w) :: 32 word)) OR ucast (ucast w :: 32 word) = w"
    by (rule bit_word_eqI) (auto simp: bit_simps)
  then show ?thesis by (simp add: PutUint64_def)
qed

lemma PutUint32_inject [simp]: "PutUint32 v = PutUint32 w \<longleftrightarrow> v = w"
  by (metis Uint32_PutUint32_only)

lemma PutUint32_Uint32 [go_bin]: "length bs = 4 \<Longrightarrow> PutUint32 (Uint32 bs) = bs"
proof -
  assume "length bs = 4"
  then obtain a b c d where bs: "bs = [a, b, c, d]"
    by (auto simp: length_Suc_conv numeral_eq_Suc)
  have "ucast (drop_bit 24 (Uint32 [a, b, c, d])) = a"
    by (rule bit_word_eqI) (auto simp: bit_simps dest: bit_imp_le_length)
  moreover have "ucast (drop_bit 16 (Uint32 [a, b, c, d])) = b"
    by (rule bit_word_eqI) (auto simp: bit_simps dest: bit_imp_le_length)
  moreover have "ucast (drop_bit 8 (Uint32 [a, b, c, d])) = c"
    by (rule bit_word_eqI) (auto simp: bit_simps dest: bit_imp_le_length)
  moreover have "ucast (Uint32 [a, b, c, d]) = d"
    by (rule bit_word_eqI) (auto simp: bit_simps dest: bit_imp_le_length)
  ultimately show ?thesis by (simp only: PutUint32_def bs)
qed

subsection \<open>Association lists as Go maps\<close>

lemma alist_map_of_update [simp]: "map_of (AList.update k v m) = (map_of m)(k \<mapsto> v)"
  by (rule AList.update_conv')

lemma alist_map_of_delete [simp]: "map_of (AList.delete k m) = (map_of m)(k := None)"
  by (rule AList.delete_conv')

lemma alist_update_new: "k \<notin> fst ` set m \<Longrightarrow> AList.update k v m = m @ [(k, v)]"
  by (induction m) auto

subsection \<open>Prefix codecs\<close>

text \<open>
  The interface between a message format and the streams it travels in: a decoder that,
  from an encoded value followed by anything, returns the value and exactly what followed.
  Every wire format of the four modules provides it, and the consequences are proved once:
  decoding is unambiguous, no encoding is a proper prefix of another, and a stream of
  messages is read back message by message.
\<close>

locale prefix_codec =
  fixes enc :: "'a \<Rightarrow> 'b list"
    and dec :: "'b list \<Rightarrow> ('a \<times> 'b list) result"
    and ok :: "'a \<Rightarrow> bool"
  assumes dec_enc: "ok x \<Longrightarrow> dec (enc x @ rest) = Inr (x, rest)"
begin

lemma enc_inject: "ok x \<Longrightarrow> ok y \<Longrightarrow> enc x @ r = enc y @ s \<Longrightarrow> x = y \<and> r = s"
  by (drule dec_enc [of x r, symmetric], drule dec_enc [of y s]) simp

lemma enc_prefix_free: "ok x \<Longrightarrow> ok y \<Longrightarrow> prefix (enc x) (enc y) \<Longrightarrow> x = y"
proof -
  assume "ok x" "ok y" "prefix (enc x) (enc y)"
  then obtain z where "enc x @ z = enc y @ []" by (auto simp: prefix_def)
  with \<open>ok x\<close> \<open>ok y\<close> show "x = y" using enc_inject by blast
qed

text \<open>Reading a stream: decode until the input is used up; \<open>n\<close> bounds the messages read.\<close>

fun read_all :: "nat \<Rightarrow> 'b list \<Rightarrow> 'a list result" where
  "read_all 0 s = (if s = [] then Inr [] else Inl IO_EOF)"
| "read_all (Suc n) s =
     (if s = [] then Inr []
      else case dec s of
             Inl e \<Rightarrow> Inl e
           | Inr (x, s') \<Rightarrow> (case read_all n s' of Inl e \<Rightarrow> Inl e | Inr xs \<Rightarrow> Inr (x # xs)))"

lemma read_all_concat:
  "\<forall>x \<in> set xs. ok x \<and> enc x \<noteq> [] \<Longrightarrow> length xs \<le> n \<Longrightarrow> read_all n (concat (map enc xs)) = Inr xs"
proof (induction n arbitrary: xs)
  case (Suc n)
  then show ?case by (cases xs) (auto simp: dec_enc)
qed auto

end

section \<open>State machines\<close>

text \<open>Servers are state machines that read an input, write an output and change their state. The
  interface gives reachability and the rule for invariants; an interpretation supplies the steps.\<close>

locale state_machine =
  fixes initial :: "'s \<Rightarrow> bool" and step :: "'s \<Rightarrow> 'i \<Rightarrow> 'o \<Rightarrow> 's \<Rightarrow> bool"
begin

inductive run :: "'s \<Rightarrow> ('i \<times> 'o) list \<Rightarrow> 's \<Rightarrow> bool" where
  run_Nil: "run s [] s"
| run_Cons: "step s i out s' \<Longrightarrow> run s' tr s'' \<Longrightarrow> run s ((i, out) # tr) s''"

inductive_cases run_NilE: "run s [] s'"
inductive_cases run_ConsE: "run s ((i, out) # tr) s'"

lemma run_single: "step s i out s' \<Longrightarrow> run s [(i, out)] s'"
  by (rule run_Cons [OF _ run_Nil])

definition reachable :: "'s \<Rightarrow> bool" where
  "reachable s \<longleftrightarrow> (\<exists>s0 tr. initial s0 \<and> run s0 tr s)"

lemma run_invariant:
  assumes "\<And>s i out s'. I s \<Longrightarrow> step s i out s' \<Longrightarrow> I s'" and "run s tr s'" and "I s"
  shows "I s'"
  using assms(2,3) by (induction rule: run.induct) (auto intro: assms(1))

lemma reachable_invariant:
  assumes "\<And>s. initial s \<Longrightarrow> I s" and "\<And>s i out s'. I s \<Longrightarrow> step s i out s' \<Longrightarrow> I s'" and "reachable s"
  shows "I s"
  using assms run_invariant [of I] unfolding reachable_def by blast

text \<open>An invariant that holds while a budget lasts: every step may use up one unit of it.\<close>

lemma run_budget:
  assumes "\<And>n s i out s'. I n s \<Longrightarrow> n < bound \<Longrightarrow> ok i \<Longrightarrow> step s i out s' \<Longrightarrow> I (Suc n) s'"
    and "run s tr s'" and "I n s" and "n + length tr \<le> bound" and "\<forall>(i, out) \<in> set tr. ok i"
  shows "I (n + length tr) s'"
  using assms(2-)
proof (induction arbitrary: n rule: run.induct)
  case (run_Cons s i out s' tr s'')
  then have "I (Suc n) s'" using assms(1) [of n s i out s'] by simp
  with run_Cons show ?case using run_Cons.IH [of "Suc n"] by simp
qed simp

end

end
