(* ===== verification/Bencode.thy ===== *)
theory Bencode
  imports Go_Prelude
begin

text \<open>
  Package \<open>torrent/bencode\<close>: the decoder \<open>Decode\<close> with \<open>decodeInt\<close>, \<open>decodeString\<close>,
  \<open>decodeList\<close> and \<open>decodeDict\<close>, and the encoder \<open>Encode\<close>/\<open>EncodeToString\<close>.

  A value of Go's \<open>any\<close> is the datatype \<open>any\<close> with one constructor per case of the type
  switch of \<open>Encode\<close> and \<open>Unsupported\<close> for its default. A \<open>map[string]any\<close> is an association
  list; the decoder builds it with \<open>map_put\<close>, which keeps the keys in ascending order, so that
  equal Go maps are equal lists. The reader is the remaining input, and each function returns
  what is left of it. The recursion of the decoder spends fuel; \<open>decode_enough\<close> shows that
  \<open>2 * length r + 1\<close> units are enough for every input, so \<open>bencode_Decode\<close> always returns.
  Not modelled: a writer that fails, and Go's stack limit on deeply nested input.
\<close>

section \<open>Definitions\<close>

datatype any =
    Int64 int
  | GoInt int
  | String string
  | Bytes string
  | Slice "any list"
  | Map "(string \<times> any) list"
  | Unsupported

text \<open>\<open>m[k] = v\<close> on a map held in ascending key order.\<close>

fun map_put :: "string \<Rightarrow> 'v \<Rightarrow> (string \<times> 'v) list \<Rightarrow> (string \<times> 'v) list" where
  "map_put k v [] = [(k, v)]"
| "map_put k v ((k', v') # m) =
     (if k < k' then (k, v) # (k', v') # m
      else if k = k' then (k, v) # m
      else (k', v') # map_put k v m)"

definition decodeInt :: "string \<Rightarrow> (int \<times> string) result" where
  "decodeInt r =
     (case ReadString (CHR ''e'') r of
        Inl e \<Rightarrow> Inl (wrap_err ''bencode: read integer'' e)
      | Inr (line, r') \<Rightarrow>
          (let s = butlast line
           in if s = ''-0'' then Inl (Errorf ''bencode: negative zero is invalid'')
              else case ParseInt64 s of
                     None \<Rightarrow> Inl (Errorf ''bencode: invalid integer'')
                   | Some n \<Rightarrow> Inr (n, r')))"

definition decodeString :: "string \<Rightarrow> (string \<times> string) result" where
  "decodeString r =
     (case ReadString (CHR '':'') r of
        Inl e \<Rightarrow> Inl (wrap_err ''bencode: read string length'' e)
      | Inr (line, r') \<Rightarrow>
          (case ParseInt64 (butlast line) of
             None \<Rightarrow> Inl (Errorf ''bencode: invalid string length'')
           | Some n \<Rightarrow>
               if \<not> make_ok n then Inl (Panic ''makeslice: len out of range'')
               else case ReadFull (nat n) r' of
                      Inl e \<Rightarrow> Inl (wrap_err ''bencode: read string data'' e)
                    | Inr (buf, r'') \<Rightarrow> Inr (buf, r'')))"

fun decode :: "nat \<Rightarrow> string \<Rightarrow> (any \<times> string) result option"
  and decodeList :: "nat \<Rightarrow> any list \<Rightarrow> string \<Rightarrow> (any list \<times> string) result option"
  and decodeDict ::
    "nat \<Rightarrow> (string \<times> any) list \<Rightarrow> string \<Rightarrow> ((string \<times> any) list \<times> string) result option"
where
  "decode 0 r = None"
| "decode (Suc fuel) r =
     (case r of
        [] \<Rightarrow> Some (Inl IO_EOF)
      | b # r' \<Rightarrow>
          if b = CHR ''i'' then
            Some (case decodeInt r' of Inl e \<Rightarrow> Inl e | Inr (n, r'') \<Rightarrow> Inr (Int64 n, r''))
          else if b = CHR ''l'' then
            (case decodeList fuel [] r' of
               None \<Rightarrow> None
             | Some (Inl e) \<Rightarrow> Some (Inl e)
             | Some (Inr (xs, r'')) \<Rightarrow> Some (Inr (Slice xs, r'')))
          else if b = CHR ''d'' then
            (case decodeDict fuel [] r' of
               None \<Rightarrow> None
             | Some (Inl e) \<Rightarrow> Some (Inl e)
             | Some (Inr (m, r'')) \<Rightarrow> Some (Inr (Map m, r'')))
          else if isDigitB b then
            Some (case decodeString r of Inl e \<Rightarrow> Inl e | Inr (s, r'') \<Rightarrow> Inr (String s, r''))
          else Some (Inl (Errorf ''bencode: unexpected byte'')))"
| "decodeList 0 acc r = None"
| "decodeList (Suc fuel) acc r =
     (case r of
        [] \<Rightarrow> Some (Inl (Wrapped ''bencode: read list'' IO_EOF))
      | b # r' \<Rightarrow>
          if b = CHR ''e'' then Some (Inr (acc, r'))
          else case decode fuel r of
                 None \<Rightarrow> None
               | Some (Inl e) \<Rightarrow> Some (Inl e)
               | Some (Inr (v, r'')) \<Rightarrow> decodeList fuel (acc @ [v]) r'')"
| "decodeDict 0 m r = None"
| "decodeDict (Suc fuel) m r =
     (case r of
        [] \<Rightarrow> Some (Inl (Wrapped ''bencode: read dict'' IO_EOF))
      | b # r' \<Rightarrow>
          if b = CHR ''e'' then Some (Inr (m, r'))
          else case decodeString r of
                 Inl e \<Rightarrow> Some (Inl (wrap_err ''bencode: dict key'' e))
               | Inr (key, r'') \<Rightarrow>
                   (case decode fuel r'' of
                      None \<Rightarrow> None
                    | Some (Inl e) \<Rightarrow> Some (Inl (wrap_err ''bencode: dict value'' e))
                    | Some (Inr (v, r3)) \<Rightarrow> decodeDict fuel (map_put key v m) r3))"

definition bencode_Decode :: "string \<Rightarrow> (any \<times> string) result" where
  "bencode_Decode r = the (decode (2 * length r + 1) r)"

text \<open>The encoder. The items of a list are written in order and the first error stops it;
  the keys of a map are collected, sorted and written each with its value.\<close>

definition encodeStr :: "string \<Rightarrow> string" where
  "encodeStr s = show_nat (length s) @ '':'' @ s"

fun encodeSeq :: "string result list \<Rightarrow> string result" where
  "encodeSeq [] = Inr []"
| "encodeSeq (Inl e # rs) = Inl e"
| "encodeSeq (Inr s # rs) =
     (case encodeSeq rs of Inl e \<Rightarrow> Inl e | Inr t \<Rightarrow> Inr (s @ t))"

fun encodeKeys :: "(string \<times> string result) list \<Rightarrow> string list \<Rightarrow> string result" where
  "encodeKeys vals [] = Inr []"
| "encodeKeys vals (k # ks) =
     (case map_of vals k of
        None \<Rightarrow> Inl (Errorf ''bencode: unsupported type'')
      | Some (Inl e) \<Rightarrow> Inl e
      | Some (Inr s) \<Rightarrow>
          (case encodeKeys vals ks of
             Inl e \<Rightarrow> Inl e
           | Inr t \<Rightarrow> Inr (encodeStr k @ s @ t)))"

fun Encode :: "any \<Rightarrow> string result" where
  "Encode (Int64 n) = Inr (''i'' @ show_int n @ ''e'')"
| "Encode (GoInt n) = Inr (''i'' @ show_int n @ ''e'')"
| "Encode (String s) = Inr (encodeStr s)"
| "Encode (Bytes s) = Inr (encodeStr s)"
| "Encode (Slice xs) =
     (case encodeSeq (map Encode xs) of
        Inl e \<Rightarrow> Inl e | Inr t \<Rightarrow> Inr (''l'' @ t @ ''e''))"
| "Encode (Map m) =
     (case encodeKeys (map (\<lambda>(k, v). (k, Encode v)) m) (sort (map fst m)) of
        Inl e \<Rightarrow> Inl e | Inr t \<Rightarrow> Inr (''d'' @ t @ ''e''))"
| "Encode Unsupported = Inl (Errorf ''bencode: unsupported type'')"

definition EncodeToString :: "any \<Rightarrow> string result" where
  "EncodeToString v = Encode v"

text \<open>The values a decoder can return: 64-bit integers, strings no longer than an allocation,
  maps with strictly ascending keys.\<close>

definition str_ok :: "string \<Rightarrow> bool" where
  "str_ok s \<longleftrightarrow> int (length s) \<le> maxAlloc"

fun wf_any :: "any \<Rightarrow> bool" where
  "wf_any (Int64 n) = int64 n"
| "wf_any (String s) = str_ok s"
| "wf_any (Slice xs) = (\<forall>x \<in> set xs. wf_any x)"
| "wf_any (Map m) = (sorted_wrt (<) (map fst m) \<and> (\<forall>(k, v) \<in> set m. str_ok k \<and> wf_any v))"
| "wf_any _ = False"


declare decode.simps [simp del] decodeList.simps [simp del] decodeDict.simps [simp del]

section \<open>Library lemmas\<close>

subsection \<open>Consumption and enough fuel\<close>

lemma decodeInt_shrinks: "decodeInt r = Inr (n, r') \<Longrightarrow> length r' < length r"
  by (auto simp: decodeInt_def Let_def split: sum.splits prod.splits if_splits option.splits
      dest: ReadString_shrinks)

lemma decodeString_shrinks: "decodeString r = Inr (s, r') \<Longrightarrow> length r' < length r"
  by (fastforce simp: decodeString_def split: sum.splits prod.splits if_splits option.splits
      dest: ReadString_shrinks ReadFull_shrinks)

lemma decode_shrinks:
  "decode fuel r = Some (Inr (v, r')) \<Longrightarrow> length r' < length r"
  "decodeList fuel acc r = Some (Inr (xs, r')) \<Longrightarrow> length r' < length r"
  "decodeDict fuel m r = Some (Inr (m', r')) \<Longrightarrow> length r' < length r"
proof (induction fuel r and fuel acc r and fuel m r arbitrary: v r' and xs r' and m' r' rule: decode_decodeList_decodeDict.induct)
  case (2 fuel r)
  then show ?case
    by (fastforce simp: decode.simps split: list.splits if_splits sum.splits option.splits prod.splits
        dest: decodeInt_shrinks decodeString_shrinks)
next
  case (4 fuel acc r)
  then show ?case
    by (fastforce simp: decodeList.simps split: list.splits if_splits sum.splits option.splits prod.splits)
next
  case (6 fuel m r)
  then show ?case
    by (fastforce simp: decodeDict.simps split: list.splits if_splits sum.splits option.splits prod.splits
        dest: decodeString_shrinks)
qed (simp_all add: decode.simps decodeList.simps decodeDict.simps)


lemma decode_enough:
  "2 * length r + 1 \<le> fuel \<Longrightarrow> decode fuel r \<noteq> None"
  "2 * length r + 2 \<le> fuel \<Longrightarrow> decodeList fuel acc r \<noteq> None"
  "2 * length r + 2 \<le> fuel \<Longrightarrow> decodeDict fuel m r \<noteq> None"
proof (induction fuel r and fuel acc r and fuel m r rule: decode_decodeList_decodeDict.induct)
  case (2 fuel r)
  show ?case
  proof (cases r)
    case (Cons b r0)
    have "decodeList fuel [] r0 \<noteq> None" if "b = CHR ''l''"
      using 2(1) [OF Cons] 2(3) that Cons by simp
    moreover have "decodeDict fuel [] r0 \<noteq> None" if "b = CHR ''d''"
      using 2(2) [OF Cons] 2(3) that Cons by simp
    ultimately show ?thesis
      using Cons by (auto simp: decode.simps split: sum.split option.split)
  qed (simp add: decode.simps)
next
  case (4 fuel acc r)
  show ?case
  proof (cases r)
    case (Cons b r0)
    show ?thesis
    proof (cases "b = CHR ''e''")
      case False
      with 4 Cons have "decode fuel r \<noteq> None" by simp
      then obtain d where d: "decode fuel r = Some d" by blast
      show ?thesis
      proof (cases d)
        case (Inr p)
        obtain v r1 where p: "p = (v, r1)" by (cases p)
        with d Inr have "length r1 < length r" by (auto dest: decode_shrinks(1))
        then have "decodeList fuel (acc @ [v]) r1 \<noteq> None"
          using 4 Cons False Inr p d by simp
        then show ?thesis using Cons False Inr p d by (simp add: decodeList.simps)
      qed (use d False Cons in \<open>simp add: decodeList.simps\<close>)
    qed (simp add: decodeList.simps Cons)
  qed (simp add: decodeList.simps)
next
  case (6 fuel m r)
  show ?case
  proof (cases r)
    case (Cons b r0)
    show ?thesis
    proof (cases "b = CHR ''e'' \<or> (\<exists>e. decodeString r = Inl e)")
      case False
      then obtain key r1 where key: "decodeString r = Inr (key, r1)" by (cases "decodeString r") auto
      then have len: "length r1 < length r" by (auto dest: decodeString_shrinks)
      with 6 Cons False key have "decode fuel r1 \<noteq> None" by auto
      then obtain d where d: "decode fuel r1 = Some d" by blast
      show ?thesis
      proof (cases d)
        case (Inr p)
        obtain v r2 where p: "p = (v, r2)" by (cases p)
        with d Inr have "length r2 < length r1" by (auto dest: decode_shrinks(1))
        then have "decodeDict fuel (map_put key v m) r2 \<noteq> None"
          using 6 Cons False Inr p d key len by simp
        then show ?thesis using Cons False Inr p d key by (simp add: decodeDict.simps)
      qed (use d False Cons key in \<open>simp add: decodeDict.simps\<close>)
    qed (auto simp add: decodeDict.simps Cons)
  qed (simp add: decodeDict.simps)
qed simp_all

lemma bencode_Decode_eq: "decode (2 * length r + 1) r = Some (bencode_Decode r)"
  using decode_enough(1) [of r "2 * length r + 1"] by (auto simp: bencode_Decode_def)

subsection \<open>What the decoder returns\<close>

lemma set_map_put: "set (map_put k v m) \<subseteq> insert (k, v) (set m)"
  by (induction k v m rule: map_put.induct) auto

lemma fst_map_put: "set (map fst (map_put k v m)) = insert k (set (map fst m))"
  by (induction k v m rule: map_put.induct) auto

lemma sorted_map_put:
  "sorted_wrt (<) (map fst m) \<Longrightarrow> sorted_wrt (<) (map fst (map_put k v m))"
proof (induction k v m rule: map_put.induct)
  case (2 k v k' v' m)
  then show ?case using fst_map_put [of k v m] by (auto)
qed simp

lemma decodeString_ok: "decodeString r = Inr (s, r') \<Longrightarrow> str_ok s"
  by (auto simp: decodeString_def str_ok_def make_ok_def split: sum.splits prod.splits if_splits
      option.splits dest!: ReadFull_shrinks)

lemma decodeInt_ok: "decodeInt r = Inr (n, r') \<Longrightarrow> int64 n"
  by (auto simp: decodeInt_def Let_def split: sum.splits prod.splits if_splits option.splits
      dest: ParseInt64_range)

lemma decodeDict_SomeE:
  assumes "decodeDict (Suc fuel) m r = Some (Inr (m', r'))"
  obtains (end_) "r = CHR ''e'' # r'" "m' = m"
    | (more) b r0 key r1 v r2 where "r = b # r0" "b \<noteq> CHR ''e''" "decodeString r = Inr (key, r1)"
      "decode fuel r1 = Some (Inr (v, r2))" "decodeDict fuel (map_put key v m) r2 = Some (Inr (m', r'))"
  using assms
  by (auto simp: decodeDict.simps split: list.splits if_splits sum.splits option.splits prod.splits)

lemma decode_wf:
  "decode fuel r = Some (Inr (v, r')) \<Longrightarrow> wf_any v"
  "decodeList fuel acc r = Some (Inr (xs, r')) \<Longrightarrow> \<forall>x \<in> set acc. wf_any x \<Longrightarrow> \<forall>x \<in> set xs. wf_any x"
  "decodeDict fuel m r = Some (Inr (m', r')) \<Longrightarrow> wf_any (Map m) \<Longrightarrow> wf_any (Map m')"
proof (induction fuel r and fuel acc r and fuel m r arbitrary: v r' and xs r' and m' r' rule: decode_decodeList_decodeDict.induct)
  case (2 fuel r)
  then show ?case
    by (fastforce simp: decode.simps split: list.splits if_splits sum.splits option.splits prod.splits
        dest: decodeInt_ok decodeString_ok)
next
  case (4 fuel acc r)
  then show ?case
    by (fastforce simp: decodeList.simps split: list.splits if_splits sum.splits option.splits prod.splits)
next
  case (6 fuel m r)
  have put: "wf_any (Map (map_put k v m))" if "str_ok k" "wf_any v" for k v
    using 6(4) that set_map_put [of k v m] by (auto simp: sorted_map_put)
  from 6(3) show ?case
  proof (cases rule: decodeDict_SomeE)
    case end_
    then show ?thesis using 6(4) by simp
  next
    case (more b r0 key r1 v r2)
    then have "wf_any v" using 6(1) by blast
    moreover have "str_ok key" using more by (auto dest: decodeString_ok)
    ultimately show ?thesis using put 6(2) more by blast
  qed
qed (simp_all add: decode.simps decodeList.simps decodeDict.simps)


subsection \<open>Round trip\<close>

definition enc_of :: "any \<Rightarrow> string" where
  "enc_of v = (case Encode v of Inl _ \<Rightarrow> [] | Inr s \<Rightarrow> s)"

definition round_trips :: "any \<Rightarrow> bool" where
  "round_trips v \<longleftrightarrow>
     Encode v = Inr (enc_of v) \<and> enc_of v \<noteq> [] \<and> hd (enc_of v) \<noteq> CHR ''e'' \<and>
     (\<forall>fuel rest. 2 * length (enc_of v) + 1 \<le> fuel \<longrightarrow>
        decode fuel (enc_of v @ rest) = Some (Inr (v, rest)))"

lemma isDigitB_neq:
  "isDigitB c \<Longrightarrow> c \<noteq> CHR ''e'' \<and> c \<noteq> CHR ''i'' \<and> c \<noteq> CHR ''l'' \<and> c \<noteq> CHR ''d'' \<and> c \<noteq> CHR '':''"
  by (auto simp: isDigitB_def)

lemma colon_notin_show_nat [simp]: "CHR '':'' \<notin> set (show_nat n)"
  using isDigitB_neq show_nat_digits by blast

lemma e_notin_show_int [simp]: "CHR ''e'' \<notin> set (show_int n)"
  using isDigitB_neq show_int_chars by fastforce

lemma show_int_not_neg_zero: "show_int n \<noteq> ''-0''"
proof
  assume eq: "show_int n = ''-0''"
  have "parse_nat (show_nat (nat (- n))) = Some (nat (- n))" by simp
  moreover have "n < 0"
  proof (rule ccontr)
    assume "\<not> n < 0"
    then have "hd (show_nat (nat n)) = CHR ''-''" using eq by (simp add: show_int_def)
    then show False using hd_show_nat_digit [of "nat n"] by (simp add: isDigitB_def)
  qed
  ultimately show False using eq by (simp add: show_int_def parse_nat_def isDigitB_def)
qed

lemma ParseInt64_show_nat: "int n < 2 ^ 63 \<Longrightarrow> ParseInt64 (show_nat n) = Some (int n)"
  using ParseInt64_show_int [of "int n"] by (simp add: int64_def show_int_def)

lemma decodeString_encodeStr [simp]: "str_ok s \<Longrightarrow> decodeString (encodeStr s @ rest) = Inr (s, rest)"
  by (simp add: decodeString_def encodeStr_def str_ok_def make_ok_def maxAlloc_def
      ParseInt64_show_nat)

lemma decodeInt_show_int [simp]: "int64 n \<Longrightarrow> decodeInt (show_int n @ CHR ''e'' # rest) = Inr (n, rest)"
  by (simp add: decodeInt_def show_int_not_neg_zero)

lemma decodeList_concat:
  "\<forall>x \<in> set xs. round_trips x \<Longrightarrow> 2 * length (concat (map enc_of xs)) + 2 \<le> fuel \<Longrightarrow>
     decodeList fuel acc (concat (map enc_of xs) @ CHR ''e'' # rest) = Some (Inr (acc @ xs, rest))"
proof (induction xs arbitrary: fuel acc)
  case Nil
  then obtain f where "fuel = Suc f" by (cases fuel) auto
  then show ?case by (simp add: decodeList.simps)
next
  case (Cons x xs)
  then obtain f where f: "fuel = Suc f" by (cases fuel) auto
  obtain c cs where c: "enc_of x = c # cs" "c \<noteq> CHR ''e''"
    using Cons.prems by (cases "enc_of x") (auto simp: round_trips_def)
  have "decode f (enc_of x @ concat (map enc_of xs) @ CHR ''e'' # rest) =
      Some (Inr (x, concat (map enc_of xs) @ CHR ''e'' # rest))"
    using Cons.prems f by (simp add: round_trips_def)
  moreover have "decodeList f (acc @ [x]) (concat (map enc_of xs) @ CHR ''e'' # rest) =
      Some (Inr ((acc @ [x]) @ xs, rest))"
    by (rule Cons.IH) (use Cons.prems f c in auto)
  ultimately show ?case using c by (simp add: decodeList.simps f)
qed

lemma map_put_snoc: "\<forall>p \<in> set m. fst p < k \<Longrightarrow> map_put k v m = m @ [(k, v)]"
  by (induction m) (auto simp: less_not_sym)

lemma encodeStr_Cons: "\<exists>c cs. encodeStr k = c # cs \<and> isDigitB c"
  using hd_show_nat_digit [of "length k"]
  by (cases "show_nat (length k)") (auto simp: encodeStr_def)

lemma decodeDict_concat:
  "\<forall>(k, v) \<in> set m. str_ok k \<and> round_trips v \<Longrightarrow> sorted_wrt (<) (map fst (m0 @ m)) \<Longrightarrow>
     2 * length (concat (map (\<lambda>(k, v). encodeStr k @ enc_of v) m)) + 2 \<le> fuel \<Longrightarrow>
     decodeDict fuel m0 (concat (map (\<lambda>(k, v). encodeStr k @ enc_of v) m) @ CHR ''e'' # rest) =
       Some (Inr (m0 @ m, rest))"
proof (induction m arbitrary: fuel m0)
  case Nil
  then obtain f where "fuel = Suc f" by (cases fuel) auto
  then show ?case by (simp add: decodeDict.simps)
next
  case (Cons p m)
  obtain k v where p: "p = (k, v)" by (cases p)
  let ?t = "concat (map (\<lambda>(k, v). encodeStr k @ enc_of v) m) @ CHR ''e'' # rest"
  obtain f where f: "fuel = Suc f" using Cons.prems by (cases fuel) auto
  obtain c cs where c: "encodeStr k = c # cs" "isDigitB c" using encodeStr_Cons by blast
  have key: "decodeString (encodeStr k @ enc_of v @ ?t) = Inr (k, enc_of v @ ?t)"
    using Cons.prems(1) p by simp
  have val: "decode f (enc_of v @ ?t) = Some (Inr (v, ?t))"
    using Cons.prems p f by (simp add: round_trips_def)
  have "map_put k v m0 = m0 @ [(k, v)]"
    using Cons.prems(2) p by (intro map_put_snoc) (auto simp: sorted_wrt_append)
  moreover have "decodeDict f (m0 @ [(k, v)]) ?t = Some (Inr ((m0 @ [(k, v)]) @ m, rest))"
    by (rule Cons.IH) (use Cons.prems p f c in auto)
  ultimately show ?case using key val c isDigitB_neq [OF c(2)]
    by (simp add: decodeDict.simps f p)
qed

lemma encodeSeq_enc: "\<forall>x \<in> set xs. Encode x = Inr (enc_of x) \<Longrightarrow>
  encodeSeq (map Encode xs) = Inr (concat (map enc_of xs))"
  by (induction xs) auto

lemma encodeKeys_enc:
  "\<forall>(k, v) \<in> set m. map_of vals k = Some (Inr (enc_of v)) \<Longrightarrow>
     encodeKeys vals (map fst m) = Inr (concat (map (\<lambda>(k, v). encodeStr k @ enc_of v) m))"
  by (induction m) auto

lemma sort_sorted_keys: "sorted_wrt (<) (ks :: string list) \<Longrightarrow> sort ks = ks"
  by (simp add: sorted_sort_id strict_sorted_imp_sorted)

lemma Encode_Map_sorted:
  assumes "sorted_wrt (<) (map fst m)" and "\<forall>(k, v) \<in> set m. Encode v = Inr (enc_of v)"
  shows "Encode (Map m) = Inr (''d'' @ concat (map (\<lambda>(k, v). encodeStr k @ enc_of v) m) @ ''e'')"
proof -
  have "distinct (map fst m)" using assms(1) by (simp add: strict_sorted_iff)
  then have "\<forall>(k, v) \<in> set m. map_of (map (\<lambda>(k, v). (k, Encode v)) m) k = Some (Inr (enc_of v))"
    using assms(2) by (fastforce simp: map_of_map)
  from encodeKeys_enc [OF this] show ?thesis
    by (simp add: sort_sorted_keys [OF assms(1)])
qed

lemma round_tripsI:
  assumes "Encode v = Inr (c # t)" and "c \<noteq> CHR ''e''"
    and "\<And>f rest. 2 * length t + 2 \<le> f \<Longrightarrow> decode (Suc f) (c # t @ rest) = Some (Inr (v, rest))"
  shows "round_trips v"
proof -
  have eq: "enc_of v = c # t" by (simp add: enc_of_def assms(1))
  have "decode fuel (c # t @ rest) = Some (Inr (v, rest))" if "2 * length (c # t) + 1 \<le> fuel" for fuel rest
    using that assms(3) by (cases fuel) auto
  then show ?thesis using assms(1,2) by (simp add: round_trips_def eq)
qed

lemma wf_round_trips: "wf_any v \<Longrightarrow> round_trips v"
proof (induction v rule: wf_any.induct)
  case (1 n)
  show ?case
    by (rule round_tripsI [of _ "CHR ''i''" "show_int n @ ''e''"]) (use 1 in \<open>simp_all add: decode.simps\<close>)
next
  case (2 s)
  obtain c cs where c: "encodeStr s = c # cs" "isDigitB c" using encodeStr_Cons by blast
  show ?case
  proof (rule round_tripsI [of _ c cs])
    fix f rest
    have "decodeString (c # cs @ rest) = Inr (s, rest)"
      using decodeString_encodeStr [of s rest] 2 c by simp
    then show "decode (Suc f) (c # cs @ rest) = Some (Inr (String s, rest))"
      using isDigitB_neq [OF c(2)] c(2) by (simp add: decode.simps)
  qed (use c isDigitB_neq in auto)
next
  case (3 xs)
  then have xs: "\<forall>x \<in> set xs. round_trips x" by auto
  then have "encodeSeq (map Encode xs) = Inr (concat (map enc_of xs))"
    by (simp add: encodeSeq_enc round_trips_def)
  then show ?case
    using decodeList_concat [OF xs]
    by (intro round_tripsI [of _ "CHR ''l''" "concat (map enc_of xs) @ ''e''"]) (simp_all add: decode.simps)
next
  case (4 m)
  then have m: "\<forall>(k, v) \<in> set m. str_ok k \<and> round_trips v" by auto
  then have "Encode (Map m) = Inr (''d'' @ concat (map (\<lambda>(k, v). encodeStr k @ enc_of v) m) @ ''e'')"
    using 4 by (intro Encode_Map_sorted) (auto simp: round_trips_def)
  then show ?case
    using decodeDict_concat [OF m, of "[]"] 4(2)
    by (intro round_tripsI [of _ "CHR ''d''" "concat (map (\<lambda>(k, v). encodeStr k @ enc_of v) m) @ ''e''"])
      (simp_all add: decode.simps)
qed simp_all

lemma bencode_Decode_enc: "wf_any v \<Longrightarrow> bencode_Decode (enc_of v @ rest) = Inr (v, rest)"
  using wf_round_trips [of v] bencode_Decode_eq [of "enc_of v @ rest"]
  by (simp add: round_trips_def)

interpretation bencode_codec: prefix_codec enc_of bencode_Decode wf_any
  by unfold_locales (rule bencode_Decode_enc)

subsection \<open>More fuel changes nothing\<close>

lemma decode_mono:
  "decode fuel r = Some x \<Longrightarrow> fuel \<le> fuel' \<Longrightarrow> decode fuel' r = Some x"
  "decodeList fuel acc r = Some xs \<Longrightarrow> fuel \<le> fuel' \<Longrightarrow> decodeList fuel' acc r = Some xs"
  "decodeDict fuel m r = Some m' \<Longrightarrow> fuel \<le> fuel' \<Longrightarrow> decodeDict fuel' m r = Some m'"
proof (induction fuel r and fuel acc r and fuel m r arbitrary: x fuel' and xs fuel' and m' fuel'
    rule: decode_decodeList_decodeDict.induct)
  case (2 fuel r)
  from 2(4) obtain f where f: "fuel' = Suc f" "fuel \<le> f" by (cases fuel') auto
  show ?case
  proof (cases r)
    case (Cons b r0)
    consider "b = CHR ''l''" | "b = CHR ''d''" | "b \<noteq> CHR ''l''" "b \<noteq> CHR ''d''" by blast
    then show ?thesis
    proof cases
      case 1
      with 2(3) Cons obtain d where d: "decodeList fuel [] r0 = Some d"
        by (auto simp: decode.simps split: option.splits)
      have "decodeList f [] r0 = Some d" by (rule 2(1) [OF Cons _ 1 d f(2)]) (simp add: 1)
      with d 2(3) Cons 1 f show ?thesis by (simp add: decode.simps)
    next
      case 2
      with "2.prems"(1) Cons obtain d where d: "decodeDict fuel [] r0 = Some d"
        by (auto simp: decode.simps split: option.splits)
      have "decodeDict f [] r0 = Some d" by (rule "2.IH"(2) [OF Cons _ _ 2 d f(2)]) (simp_all add: 2)
      with d "2.prems"(1) Cons 2 f show ?thesis by (simp add: decode.simps)
    next
      case 3
      then show ?thesis
        using 2(3) Cons f(1) by (cases "b = CHR ''i''"; cases "isDigitB b"; simp add: decode.simps)
    qed
  qed (use 2(3) f in \<open>simp add: decode.simps\<close>)
next
  case (4 fuel acc r)
  from 4(4) obtain f where f: "fuel' = Suc f" "fuel \<le> f" by (cases fuel') auto
  show ?case
  proof (cases "r = [] \<or> hd r = CHR ''e''")
    case False
    then obtain b r0 where Cons: "r = b # r0" "b \<noteq> CHR ''e''" by (cases r) auto
    with 4(3) obtain d where d: "decode fuel r = Some d"
      by (auto simp: decodeList.simps split: option.splits)
    have d': "decode f r = Some d" by (rule 4(1) [OF Cons d f(2)])
    show ?thesis
    proof (cases d)
      case (Inr p)
      obtain v r1 where p: "p = (v, r1)" by (cases p)
      have "decodeList f (acc @ [v]) r1 = Some xs"
        by (rule 4(2) [OF Cons d Inr p [symmetric]]) (use 4(3) Cons d Inr p f in \<open>simp_all add: decodeList.simps\<close>)
      then show ?thesis using Cons d' Inr p f by (simp add: decodeList.simps)
    qed (use 4(3) Cons d d' f in \<open>simp add: decodeList.simps\<close>)
  qed (use 4(3) f in \<open>cases r; simp add: decodeList.simps\<close>)
next
  case (6 fuel m r)
  from 6(4) obtain f where f: "fuel' = Suc f" "fuel \<le> f" by (cases fuel') auto
  show ?case
  proof (cases "r = [] \<or> hd r = CHR ''e'' \<or> (\<exists>e. decodeString r = Inl e)")
    case False
    then obtain b r0 key r1 where Cons: "r = b # r0" "b \<noteq> CHR ''e''"
      and key: "decodeString r = Inr (key, r1)" by (cases r; cases "decodeString r") auto
    with 6(3) obtain d where d: "decode fuel r1 = Some d"
      by (auto simp: decodeDict.simps split: option.splits)
    have d': "decode f r1 = Some d" by (rule 6(1) [OF Cons key refl d f(2)])
    show ?thesis
    proof (cases d)
      case (Inr p)
      obtain v r2 where p: "p = (v, r2)" by (cases p)
      have "decodeDict f (map_put key v m) r2 = Some m'"
        by (rule 6(2) [OF Cons key refl d Inr p [symmetric]])
          (use 6(3) Cons key d Inr p f in \<open>simp_all add: decodeDict.simps\<close>)
      then show ?thesis using Cons key d' Inr p f by (simp add: decodeDict.simps)
    qed (use 6(3) Cons key d d' f in \<open>simp add: decodeDict.simps\<close>)
  qed (use 6(3) f in \<open>cases r; auto simp add: decodeDict.simps\<close>)
qed (simp_all add: decode.simps decodeList.simps decodeDict.simps)

subsection \<open>The order of a map does not matter\<close>

lemma encodeKeys_cong:
  "\<forall>k \<in> set ks. map_of vals k = map_of vals' k \<Longrightarrow> encodeKeys vals ks = encodeKeys vals' ks"
  by (induction ks) (auto split: option.split sum.split)

lemma sort_set_eq:
  "distinct (ks :: string list) \<Longrightarrow> distinct ks' \<Longrightarrow> set ks = set ks' \<Longrightarrow> sort ks = sort ks'"
  by (rule sorted_distinct_set_unique) auto

subsection \<open>What clients of the package use\<close>

lemma bencode_Decode_wf: "bencode_Decode r = Inr (v, r') \<Longrightarrow> wf_any v"
  using decode_wf(1) [of "2 * length r + 1" r v r'] bencode_Decode_eq [of r] by simp

lemma wf_any_Encode:
  "wf_any v \<Longrightarrow> EncodeToString v = Inr (enc_of v) \<and> bencode_Decode (enc_of v @ rest) = Inr (v, rest)"
  using wf_round_trips [of v] bencode_Decode_enc [of v rest]
  by (auto simp: EncodeToString_def round_trips_def)

lemma wf_any_lookup: "wf_any (Map m) \<Longrightarrow> map_of m k = Some v \<Longrightarrow> wf_any v"
  by (auto dest: map_of_SomeD)

section \<open>Properties\<close>

text \<open>C17: decoding inverts encoding. Every value the decoder can produce (64-bit integers,
  strings, lists, maps with their keys in order, nested in any way) is encoded without error,
  and decoding the encoded bytes, whatever follows them, gives back the value and leaves
  exactly what followed.\<close>

theorem bencode_roundtrip:
  assumes "wf_any v"
  shows "\<exists>s. EncodeToString v = Inr s \<and> bencode_Decode (s @ rest) = Inr (v, rest)"
  using assms wf_round_trips [of v] bencode_Decode_enc [of v rest]
  by (auto simp: EncodeToString_def round_trips_def)

theorem bencode_roundtrip_witness:
  "\<exists>s. EncodeToString (Map [(''a'', Int64 (- 7)), (''b'', Slice [String ''xy''])]) = Inr s \<and>
       bencode_Decode (s @ ''tail'') = Inr (Map [(''a'', Int64 (- 7)), (''b'', Slice [String ''xy''])], ''tail'')"
  by (rule bencode_roundtrip) (simp add: int64_def str_ok_def maxAlloc_def)

text \<open>whatever the decoder accepts, canonical or not (unsorted or repeated keys, leading
  zeros), is a well-formed value, consumes input, and re-encodes without error to a canonical
  form that decodes to the same value. This is what the info hash of \<open>torrent/metainfo\<close>
  relies on.\<close>

theorem bencode_reencode:
  assumes "bencode_Decode r = Inr (v, r')"
  shows "wf_any v \<and> length r' < length r \<and>
    (\<exists>s. EncodeToString v = Inr s \<and> bencode_Decode s = Inr (v, []))"
proof -
  have d: "decode (2 * length r + 1) r = Some (Inr (v, r'))"
    using assms bencode_Decode_eq [of r] by simp
  have "wf_any v" by (rule decode_wf(1) [OF d])
  moreover have "length r' < length r" by (rule decode_shrinks(1) [OF d])
  moreover obtain s where "EncodeToString v = Inr s" "bencode_Decode s = Inr (v, [])"
    using \<open>wf_any v\<close> wf_round_trips [of v] bencode_Decode_enc [of v "[]"]
    by (auto simp: EncodeToString_def round_trips_def)
  ultimately show ?thesis by blast
qed

theorem bencode_reencode_witness:
  "bencode_Decode ''d1:b2:xy1:ai007ee!'' = Inr (Map [(''a'', Int64 7), (''b'', String ''xy'')], ''!'') \<and>
   (\<exists>s. EncodeToString (Map [(''a'', Int64 7), (''b'', String ''xy'')]) = Inr s \<and>
        bencode_Decode s = Inr (Map [(''a'', Int64 7), (''b'', String ''xy'')], []))"
proof -
  have h: "bencode_Decode ''d1:b2:xy1:ai007ee!'' = Inr (Map [(''a'', Int64 7), (''b'', String ''xy'')], ''!'')"
    by code_simp
  show ?thesis using h bencode_reencode [OF h] by blast
qed

text \<open>C25: the decoder always returns: for every input, \<open>2 * length r + 1\<close> nested calls are
  enough, and any larger bound gives the same result.\<close>

theorem bencode_decode_total:
  assumes "2 * length r + 1 \<le> fuel"
  shows "decode fuel r = Some (bencode_Decode r)"
  by (rule decode_mono(1) [OF bencode_Decode_eq assms])

theorem bencode_decode_total_witness:
  "decode 100 ''lli1eee'' = Some (bencode_Decode ''lli1eee'')"
  by (rule bencode_decode_total) simp

text \<open>the encoding of a map does not depend on the order in which the runtime iterates
  over it: two lists of the same entries encode to the same bytes.\<close>

theorem bencode_encode_map_order:
  assumes "distinct (map fst m)" and "distinct (map fst m')" and "set m = set m'"
  shows "Encode (Map m) = Encode (Map m')"
proof -
  have keys: "sort (map fst m) = sort (map fst m')"
    using assms by (intro sort_set_eq) auto
  have "map_of (map (\<lambda>(k, v). (k, Encode v)) m) k = map_of (map (\<lambda>(k, v). (k, Encode v)) m') k" for k
    using map_of_inject_set [OF assms(1,2)] assms(3) by (simp add: map_of_map)
  then have "encodeKeys (map (\<lambda>(k, v). (k, Encode v)) m) ks = encodeKeys (map (\<lambda>(k, v). (k, Encode v)) m') ks" for ks
    by (intro encodeKeys_cong) blast
  then show ?thesis using keys by simp
qed

theorem bencode_encode_map_order_witness:
  "Encode (Map [(''b'', Int64 1), (''a'', GoInt 2)]) = Encode (Map [(''a'', GoInt 2), (''b'', Int64 1)])"
  by (rule bencode_encode_map_order) auto

text \<open>\<open>decodeDict\<close> reads a key with \<open>decodeString\<close> without checking that it starts with a
  digit, so a key with a negative length prefix reaches \<open>make\<close> with a negative length: the
  four-byte input \<open>d-1:\<close> makes the decoder panic instead of returning an error.\<close>

theorem bencode_negative_key_length:
  "bencode_Decode ''d-1:'' = Inl (Panic ''makeslice: len out of range'')"
  by code_simp

end
