(* ===== verification/Bitfield.thy ===== *)
theory Bitfield
  imports Go_Prelude
begin

text \<open>
  Package \<open>torrent/bitfield\<close>: \<open>New\<close>, \<open>Has\<close>, \<open>Set\<close>, \<open>Count\<close> and \<open>Validate\<close> on a slice of bytes in
  network order, the most significant bit of byte 0 being piece 0. Pieces are numbered by Go
  \<open>int\<close>s, so negative and out-of-range numbers are inputs like any other.
\<close>

section \<open>Definitions\<close>

type_synonym Bitfield = bytes

definition bitfield_New :: "int \<Rightarrow> Bitfield result" where
  "bitfield_New n =
     (let k = quot_int (wrap64 (n + 7)) 8
      in if make_ok k then Inr (replicate (nat k) 0) else Inl (Panic ''makeslice: len out of range''))"

definition bitfield_Has :: "Bitfield \<Rightarrow> int \<Rightarrow> bool" where
  "bitfield_Has b i =
     (if i < 0 \<or> i \<ge> int (length b) * 8 then False
      else drop_bit (7 - nat i mod 8) (b ! (nat i div 8)) AND 1 = 1)"

definition bitfield_Set :: "Bitfield \<Rightarrow> int \<Rightarrow> Bitfield" where
  "bitfield_Set b i =
     (if i < 0 \<or> i \<ge> int (length b) * 8 then b
      else b[nat i div 8 := (b ! (nat i div 8)) OR push_bit (7 - nat i mod 8) 1])"

text \<open>The inner loop of \<open>Count\<close> clears the lowest set bit until the byte is zero.\<close>

function count_octet :: "8 word \<Rightarrow> nat \<Rightarrow> nat" where
  "count_octet octet n = (if octet \<noteq> 0 then count_octet (octet AND (octet - 1)) (Suc n) else n)"
  by pat_completeness auto
termination
proof (relation "measure (\<lambda>(octet, n). unat octet)", goal_cases)
  case (2 octet n)
  have "octet AND (octet - 1) \<le> octet - 1" by (rule word_and_le1)
  also have "octet - 1 < octet"
    using 2 by (simp add: word_less_nat_alt unat_minus_one unat_gt_0)
  finally show ?case by (simp add: word_less_nat_alt)
qed simp

declare count_octet.simps [simp del]

definition bitfield_Count :: "Bitfield \<Rightarrow> nat" where
  "bitfield_Count b = fold count_octet b 0"

definition bitfield_Validate :: "Bitfield \<Rightarrow> int \<Rightarrow> unit result" where
  "bitfield_Validate b n =
     (let expected = quot_int (wrap64 (n + 7)) 8
      in if int (length b) \<noteq> expected then Inl (Errorf ''bitfield: length'')
         else let spare = rem_int n 8
              in if spare \<noteq> 0 \<and> length b > 0 \<and> last b AND drop_bit (nat spare) 255 \<noteq> 0
                 then Inl (Errorf ''bitfield: spare bits in last byte are non-zero'')
                 else Inr ())"

section \<open>Library lemmas\<close>

lemma bitfield_Has_iff:
  "bitfield_Has b i \<longleftrightarrow> 0 \<le> i \<and> i < int (length b) * 8 \<and> bit (b ! (nat i div 8)) (7 - nat i mod 8)"
  by (auto simp: bitfield_Has_def bit_iff_and_drop_bit_eq_1)

lemma bitfield_Has_int:
  "bitfield_Has b (int m) \<longleftrightarrow> m < length b * 8 \<and> bit (b ! (m div 8)) (7 - m mod 8)"
  by (auto simp: bitfield_Has_iff)

lemma length_bitfield_Set [simp]: "length (bitfield_Set b i) = length b"
  by (simp add: bitfield_Set_def)

definition octet_bits :: "8 word \<Rightarrow> nat" where
  "octet_bits w = length (filter (bit w) [0..<8])"

text \<open>Clearing the lowest set bit, on natural numbers by induction on the binary digits.\<close>

lemma bits_double: "{k. bit (2 * n) k} = Suc ` {k. bit (n :: nat) k}"
  and bits_double_plus1: "{k. bit (Suc (2 * n)) k} = insert 0 (Suc ` {k. bit n k})"
proof -
  have "bit (2 * n) k \<longleftrightarrow> k \<in> Suc ` {k. bit n k}" for k
    by (cases k) (auto simp: bit_0 bit_Suc)
  then show "{k. bit (2 * n) k} = Suc ` {k. bit n k}" by blast
  have "bit (Suc (2 * n)) k \<longleftrightarrow> k \<in> insert 0 (Suc ` {k. bit n k})" for k
    by (cases k) (auto simp: bit_0 bit_Suc)
  then show "{k. bit (Suc (2 * n)) k} = insert 0 (Suc ` {k. bit n k})" by blast
qed

lemma finite_bits_nat: "finite {k. bit (n :: nat) k}"
  by (induction n rule: nat_bit_induct) (simp_all add: bits_double bits_double_plus1)

lemma card_bits_clear:
  "0 < n \<Longrightarrow> card {k. bit (n :: nat) k} = Suc (card {k. bit (n AND (n - 1)) k})"
proof (induction n rule: nat_bit_induct)
  case (even n)
  have "(2 * n - 1) div 2 = n - 1" by presburger
  then have "(2 * n) AND (2 * n - 1) = 2 * (n AND (n - 1))"
    by (subst and_rec) simp
  then show ?case using even by (simp add: bits_double card_image)
next
  case (odd n)
  have "Suc (2 * n) AND (2 * n) = 2 * n" by (subst and_rec) simp
  then show ?case
    by (simp add: bits_double bits_double_plus1 card_image finite_bits_nat)
qed simp

lemma octet_bits_unat: "octet_bits w = card {k. bit (unat w) k}"
proof -
  have "i < 8 \<and> bit w ([0..<8] ! i) \<longleftrightarrow> bit (unat w) i" for i
    using bit_imp_le_length [of w i] by (auto simp: bit_unsigned_iff)
  then show ?thesis by (simp add: octet_bits_def length_filter_conv_card)
qed

lemma octet_bits_clear: "w \<noteq> 0 \<Longrightarrow> octet_bits w = Suc (octet_bits (w AND (w - 1)))"
  using card_bits_clear [of "unat w"]
  by (simp add: octet_bits_unat unsigned_and_eq unat_minus_one unat_gt_0)

lemma count_octet_eq: "count_octet w n = n + octet_bits w"
proof (induction w n rule: count_octet.induct)
  case (1 octet n)
  show ?case
  proof (cases "octet = 0")
    case True
    then show ?thesis by (simp add: count_octet.simps octet_bits_def)
  next
    case False
    then show ?thesis
      using 1 octet_bits_clear [OF False] by (subst count_octet.simps) simp
  qed
qed

lemma bitfield_Count_eq: "bitfield_Count b = sum_list (map octet_bits b)"
proof -
  have "fold count_octet b n = n + sum_list (map octet_bits b)" for n
    by (induction b arbitrary: n) (simp_all add: count_octet_eq)
  then show ?thesis by (simp add: bitfield_Count_def)
qed

lemma octet_bits_card: "octet_bits w = card {k. k < 8 \<and> bit w (7 - k)}"
proof -
  have "octet_bits w = card {k. k < 8 \<and> bit w k}"
    unfolding octet_bits_def length_filter_conv_card by (rule arg_cong [of _ _ card]) auto
  also have "\<dots> = card {k. k < 8 \<and> bit w (7 - k)}"
    by (rule bij_betw_same_card [of "\<lambda>k. 7 - k"], rule bij_betw_byWitness [where f' = "\<lambda>k. 7 - k"])
       auto
  finally show ?thesis .
qed

lemma card_Has_Cons:
  "card {i. bitfield_Has (w # b) i} = octet_bits w + card {i. bitfield_Has b i}"
proof -
  let ?A = "int ` {k. k < 8 \<and> bit w (7 - k)}" and ?B = "(\<lambda>i. i + 8) ` {i. bitfield_Has b i}"
  have "bitfield_Has (w # b) i \<longleftrightarrow> i \<in> ?A \<union> ?B" for i
  proof (cases "i < 8")
    case True
    then have "i \<notin> ?B" by (auto simp: bitfield_Has_iff)
    moreover have "i \<in> ?A \<longleftrightarrow> 0 \<le> i \<and> bit w (7 - nat i)"
      using True by (force simp: image_iff intro: exI [of _ "nat i"])
    ultimately show ?thesis using True by (auto simp: bitfield_Has_iff)
  next
    case False
    then have "nat i div 8 = Suc (nat (i - 8) div 8)" "nat i mod 8 = nat (i - 8) mod 8"
      by (simp_all add: nat_diff_distrib le_div_geq le_mod_geq)
    then have "bitfield_Has (w # b) i \<longleftrightarrow> bitfield_Has b (i - 8)"
      using False by (auto simp: bitfield_Has_iff)
    moreover have "i \<in> ?B \<longleftrightarrow> bitfield_Has b (i - 8)"
      by (force simp: image_iff intro: exI [of _ "i - 8"])
    moreover have "i \<notin> ?A" using False by auto
    ultimately show ?thesis by blast
  qed
  then have eq: "{i. bitfield_Has (w # b) i} = ?A \<union> ?B" by blast
  have fin: "finite {i. bitfield_Has b i}"
    by (rule finite_subset [of _ "{0..<int (length b) * 8}"]) (auto simp: bitfield_Has_iff)
  have "card (?A \<union> ?B) = card ?A + card ?B"
    using fin by (intro card_Un_disjoint) (auto simp: bitfield_Has_iff)
  then show ?thesis
    by (simp add: eq octet_bits_card card_image inj_on_def)
qed

lemma quot_int_ceil:
  "0 \<le> n \<Longrightarrow> n < 2 ^ 63 - 7 \<Longrightarrow> quot_int (wrap64 (n + 7)) 8 = (n + 7) div 8"
  by (simp add: quot_int_def wrap64_def)

lemma rem_int_nonneg: "0 \<le> n \<Longrightarrow> rem_int n 8 = n mod 8"
  by (cases "n = 0") (simp_all add: rem_int_def quot_int_def sgn_if minus_div_mult_eq_mod)

lemma spare_mask_zero:
  "(w :: 8 word) AND drop_bit r 255 = 0 \<longleftrightarrow> (\<forall>k. k + r < 8 \<longrightarrow> \<not> bit w k)"
proof -
  have m: "(255 :: 8 word) = mask 8" by (simp add: mask_eq_exp_minus_1)
  have "w AND drop_bit r 255 = 0 \<longleftrightarrow> (\<forall>k. \<not> bit (w AND drop_bit r 255) k)"
    by (auto intro!: bit_eqI)
  also have "\<dots> \<longleftrightarrow> (\<forall>k. k + r < 8 \<longrightarrow> \<not> bit w k)"
    unfolding m by (auto simp: bit_simps add.commute dest: bit_imp_le_length)
  finally show ?thesis .
qed

text \<open>The spare bits of the last byte are the pieces from \<open>n\<close> to the end of the byte.\<close>

lemma spare_bits_iff:
  assumes len: "length b = Suc q" and n: "n = q * 8 + r" and r: "0 < r" "r < 8"
  shows "last b AND drop_bit r 255 = 0 \<longleftrightarrow> (\<forall>i. bitfield_Has b i \<longrightarrow> i < int n)"
proof -
  have last: "last b = b ! q" using len by (subst last_conv_nth) auto
  show ?thesis unfolding last spare_mask_zero
  proof safe
    fix i assume k: "\<forall>k. k + r < 8 \<longrightarrow> \<not> bit (b ! q) k" and h: "bitfield_Has b i"
    show "i < int n"
    proof (rule ccontr)
      assume "\<not> i < int n"
      then obtain j where j: "i = int (q * 8 + j)" "r \<le> j" "j < 8"
        using h len n by (intro that [of "nat i - q * 8"]) (auto simp: bitfield_Has_iff)
      then have "bit (b ! q) (7 - j)"
        using h bitfield_Has_int [of b "q * 8 + j"] by simp
      with k j r show False by auto
    qed
  next
    fix k assume h: "\<forall>i. bitfield_Has b i \<longrightarrow> i < int n" and k: "k + r < 8" "bit (b ! q) k"
    define j where "j = 7 - k"
    then have j: "j < 8" "7 - j = k" "r \<le> j" using k by auto
    then have "bitfield_Has b (int (q * 8 + j))"
      unfolding bitfield_Has_int using k len by simp
    with h have "int (q * 8 + j) < int n" by blast
    with j n show False by simp
  qed
qed

section \<open>Properties\<close>

text \<open>marking a piece is a faithful set insertion: after \<open>Set b i\<close> exactly the pieces that
  were present before and, if it is in range, piece \<open>i\<close> are present; the length is unchanged, and
  an out-of-range or negative \<open>i\<close> changes nothing.\<close>

theorem bitfield_Has_Set:
  "bitfield_Has (bitfield_Set b i) j = (bitfield_Has b j \<or> (j = i \<and> 0 \<le> i \<and> i < int (length b) * 8))
   \<and> length (bitfield_Set b i) = length b"
proof (cases "0 \<le> i \<and> i < int (length b) * 8 \<and> 0 \<le> j \<and> j < int (length b) * 8")
  case True
  then have l: "nat i div 8 < length b" "nat j div 8 < length b" by auto
  show ?thesis
  proof (cases "nat i div 8 = nat j div 8")
    case False
    then have "i \<noteq> j" by auto
    with False True show ?thesis by (auto simp: bitfield_Has_iff bitfield_Set_def)
  next
    case same: True
    have "i = j \<longleftrightarrow> nat i mod 8 = nat j mod 8"
      using same True by (metis div_mult_mod_eq nat_eq_iff2 nat_0_le)
    also have "\<dots> \<longleftrightarrow> 7 - nat i mod 8 = 7 - nat j mod 8"
      using pos_mod_bound [of 8] by (metis diff_diff_cancel less_Suc_eq_le mod_less_divisor numeral_eq_Suc pred_numeral_simps(3) zero_less_Suc numeral_nat)
    finally have eq: "i = j \<longleftrightarrow> 7 - nat i mod 8 = 7 - nat j mod 8" .
    show ?thesis
      using True l same eq by (auto simp: bitfield_Has_iff bitfield_Set_def bit_simps)
  qed
qed (auto simp: bitfield_Has_iff bitfield_Set_def)

text \<open>\<open>Count\<close>, which clears the lowest set bit of each byte until none is left, returns the
  number of pieces that \<open>Has\<close> reports.\<close>

theorem bitfield_Count_card:
  "bitfield_Count b = card {i. bitfield_Has b i}"
proof (induction b)
  case Nil
  have "{i. bitfield_Has [] i} = {}" by (simp add: bitfield_Has_iff)
  then show ?case by (simp add: bitfield_Count_def)
next
  case (Cons w b)
  then show ?case by (simp add: card_Has_Cons) (simp add: bitfield_Count_eq)
qed

text \<open>\<open>Validate\<close> accepts exactly the bitfields of a torrent with \<open>n\<close> pieces: as many bytes as
  \<open>New n\<close> makes, and no piece with a number of \<open>n\<close> or more.\<close>

theorem bitfield_Validate_iff:
  assumes "0 \<le> n" and "n < 2 ^ 63 - 7"
  shows "bitfield_Validate b n = Inr () \<longleftrightarrow>
    int (length b) = (n + 7) div 8 \<and> (\<forall>i. bitfield_Has b i \<longrightarrow> i < n)"
proof -
  define q r where "q = nat n div 8" and "r = nat n mod 8"
  have n: "n = int (q * 8 + r)" "r < 8" using assms by (simp_all add: q_def r_def)
  have spare: "rem_int n 8 = int r" using assms n by (simp add: rem_int_nonneg)
  show ?thesis
  proof (cases "int (length b) = (n + 7) div 8 \<and> r \<noteq> 0")
    case True
    then have "length b = Suc q" using n by auto
    then show ?thesis
      using spare_bits_iff [of b q "q * 8 + r" r] True n assms spare
      by (auto simp: bitfield_Validate_def quot_int_ceil)
  next
    case False
    then show ?thesis
      using n assms spare by (auto simp: bitfield_Validate_def quot_int_ceil bitfield_Has_iff)
  qed
qed

theorem bitfield_Validate_iff_witness:
  "bitfield_Validate [255, 224] 11 = Inr () \<longleftrightarrow>
   int (length [255 :: 8 word, 224]) = (11 + 7) div 8 \<and> (\<forall>i. bitfield_Has [255, 224] i \<longrightarrow> i < 11)"
  by (rule bitfield_Validate_iff) simp_all

end
