(* ===== verification/Peer.thy ===== *)
theory Peer
  imports Go_Prelude
begin

text \<open>
  Package \<open>torrent/peer\<close>: the BEP 3 handshake and the length-prefixed messages of the peer wire
  protocol. A connection is the bytes the remote side sends (\<open>r\<close>) and the bytes written; a write
  or a deadline call that fails is an argument (\<open>Some e\<close>), so that every error return is a branch.
\<close>

section \<open>Definitions\<close>

definition protocolStr :: bytes where
  "protocolStr = bytes_of ''BitTorrent protocol''"

definition protocolStrLen :: "8 word" where
  "protocolStrLen = 19"

definition handshakeLen :: nat where
  "handshakeLen = 68"

type_synonym MessageID = "8 word"

definition MsgChoke :: MessageID where "MsgChoke = 0"
definition MsgUnchoke :: MessageID where "MsgUnchoke = 1"
definition MsgInterested :: MessageID where "MsgInterested = 2"
definition MsgNotInterested :: MessageID where "MsgNotInterested = 3"
definition MsgHave :: MessageID where "MsgHave = 4"
definition MsgBitfield :: MessageID where "MsgBitfield = 5"
definition MsgRequest :: MessageID where "MsgRequest = 6"
definition MsgPiece :: MessageID where "MsgPiece = 7"
definition MsgCancel :: MessageID where "MsgCancel = 8"

record peer_Message =
  Payload :: bytes
  ID :: MessageID

text \<open>\<open>sendHandshake\<close> fills a zeroed 68-byte buffer and writes it.\<close>

definition sendHandshake :: "bytes \<Rightarrow> bytes \<Rightarrow> bytes" where
  "sendHandshake infoHash peerID =
     (let buf = replicate handshakeLen 0;
          buf = buf[0 := protocolStrLen];
          buf = copy_at 1 (take 19 protocolStr) buf;
          buf = copy_at 28 (take 20 infoHash) buf
      in copy_at 48 (take 20 peerID) buf)"

definition recvHandshake :: "bytes \<Rightarrow> bytes \<Rightarrow> (bytes \<times> bytes) result" where
  "recvHandshake r expectedHash =
     (case ReadFull handshakeLen r of
        Inl e \<Rightarrow> Inl (wrap_err ''peer: read handshake'' e)
      | Inr (buf, r') \<Rightarrow>
          if buf ! 0 \<noteq> protocolStrLen then Inl (Errorf ''peer: unexpected protocol name length'')
          else if take 19 (drop 1 buf) \<noteq> protocolStr then Inl (Errorf ''peer: unexpected protocol'')
          else if take 20 (drop 28 buf) \<noteq> expectedHash then Inl (Errorf ''peer: info hash mismatch'')
          else Inr (take 20 (drop 48 buf), r'))"

text \<open>\<open>Handshake\<close>: the send runs in its own goroutine, so it is made whatever the receive does,
  and its error is reported before the one of the receive. The result is the bytes written and
  the outcome (the remote peer ID and the input that is left).\<close>

definition Handshake ::
  "error option \<Rightarrow> error option \<Rightarrow> bytes \<Rightarrow> bytes \<Rightarrow> bytes \<Rightarrow> bytes \<times> (bytes \<times> bytes) result" where
  "Handshake deadlineErr sendErr r infoHash peerID =
     (case deadlineErr of
        Some e \<Rightarrow> ([], Inl (wrap_err ''peer: set handshake deadline'' e))
      | None \<Rightarrow>
          let recv = recvHandshake r infoHash
          in case sendErr of
               Some se \<Rightarrow> ([], Inl (wrap_err ''peer: send handshake'' se))
             | None \<Rightarrow> (sendHandshake infoHash peerID, recv))"

text \<open>\<open>ReadMessage\<close> returns \<open>None\<close> (nil) for a keepalive.\<close>

definition ReadMessage :: "bytes \<Rightarrow> (peer_Message option \<times> bytes) result" where
  "ReadMessage r =
     (case ReadFull 4 r of
        Inl e \<Rightarrow> Inl (wrap_err ''peer: read message length'' e)
      | Inr (lenBuf, r) \<Rightarrow>
          let len = Uint32 lenBuf
          in if len = 0 then Inr (None, r)
             else case ReadFull (unat len) r of
                    Inl e \<Rightarrow> Inl (wrap_err ''peer: read message payload'' e)
                  | Inr (raw, r) \<Rightarrow> Inr (Some \<lparr>Payload = drop 1 raw, ID = raw ! 0\<rparr>, r))"

definition WriteMessage :: "peer_Message \<Rightarrow> bytes" where
  "WriteMessage msg = PutUint32 (word_of_nat (1 + length (Payload msg))) @ [ID msg] @ Payload msg"

definition FormatRequest :: "32 word \<Rightarrow> 32 word \<Rightarrow> 32 word \<Rightarrow> bytes" where
  "FormatRequest index begin len = PutUint32 index @ PutUint32 begin @ PutUint32 len"

definition ParsePiece :: "bytes \<Rightarrow> (32 word \<times> 32 word \<times> bytes) result" where
  "ParsePiece payload =
     (if length payload < 8 then Inl (Errorf ''peer: piece payload too short'')
      else Inr (Uint32 (take 4 payload), Uint32 (take 4 (drop 4 payload)), drop 8 payload))"

definition ParseHave :: "bytes \<Rightarrow> (32 word) result" where
  "ParseHave payload =
     (if length payload \<noteq> 4 then Inl (Errorf ''peer: have payload must be 4 bytes'')
      else Inr (Uint32 payload))"

text \<open>What travels on the wire after the handshake: keepalives and messages.\<close>

definition frame :: "peer_Message option \<Rightarrow> bytes" where
  "frame m = (case m of None \<Rightarrow> PutUint32 0 | Some msg \<Rightarrow> WriteMessage msg)"

definition frame_ok :: "peer_Message option \<Rightarrow> bool" where
  "frame_ok m = (case m of None \<Rightarrow> True | Some msg \<Rightarrow> length (Payload msg) + 1 < 2 ^ 32)"

section \<open>Library lemmas\<close>

lemma length_protocolStr [simp]: "length protocolStr = 19"
  by (simp add: protocolStr_def)

lemma sendHandshake_layout:
  assumes "length infoHash = 20" and "length peerID = 20"
  shows "sendHandshake infoHash peerID =
    [protocolStrLen] @ protocolStr @ replicate 8 0 @ infoHash @ peerID"
proof -
  have "replicate handshakeLen (0 :: 8 word) =
      [0] @ replicate 19 0 @ replicate 8 0 @ replicate 20 0 @ replicate 20 0"
    by (simp add: handshakeLen_def flip: replicate_add replicate_Suc)
  moreover have "copy_at 1 (take 19 protocolStr) ([protocolStrLen] @ replicate 19 0 @ post) =
      [protocolStrLen] @ protocolStr @ post" for post
    by (subst copy_at_append) simp_all
  moreover have "copy_at 28 infoHash (([protocolStrLen] @ protocolStr @ replicate 8 0) @ replicate 20 0 @ post) =
      ([protocolStrLen] @ protocolStr @ replicate 8 0) @ infoHash @ post" for post
    using assms by (intro copy_at_append) simp_all
  moreover have "copy_at 48 peerID (([protocolStrLen] @ protocolStr @ replicate 8 0 @ infoHash) @ replicate 20 0 @ []) =
      ([protocolStrLen] @ protocolStr @ replicate 8 0 @ infoHash) @ peerID @ []"
    using assms by (intro copy_at_append) simp_all
  ultimately show ?thesis using assms by (simp add: sendHandshake_def Let_def)
qed

lemma recvHandshake_send:
  assumes "length h = 20" and "length p = 20"
  shows "recvHandshake (sendHandshake h p @ rest) h' =
    (if h = h' then Inr (p, rest) else Inl (Errorf ''peer: info hash mismatch''))"
proof -
  have "ReadFull handshakeLen (sendHandshake h p @ rest) = Inr (sendHandshake h p, rest)"
    using assms by (intro ReadFull_append) (simp add: sendHandshake_layout handshakeLen_def)
  then show ?thesis
    using assms by (cases "h = h'") (simp_all add: recvHandshake_def sendHandshake_layout)
qed

lemma ReadMessage_frame: "frame_ok m \<Longrightarrow> ReadMessage (frame m @ rest) = Inr (m, rest)"
proof (cases m)
  case None
  then show ?thesis by (simp add: frame_def ReadMessage_def)
next
  case (Some msg)
  assume "frame_ok m"
  with Some have len: "length (Payload msg) + 1 < 2 ^ LENGTH(32)" by (simp add: frame_ok_def)
  then have u: "unat (word_of_nat (1 + length (Payload msg)) :: 32 word) = Suc (length (Payload msg))"
    by (subst unat_of_nat) simp
  then have "(word_of_nat (1 + length (Payload msg)) :: 32 word) \<noteq> 0"
    by (metis nat.distinct(1) unsigned_0)
  moreover have "ReadFull (Suc (length (Payload msg))) ((ID msg # Payload msg) @ rest) =
      Inr (ID msg # Payload msg, rest)"
    by (rule ReadFull_append) simp
  ultimately show ?thesis
    using Some u by (simp add: frame_def WriteMessage_def ReadMessage_def)
qed

interpretation peer_codec: prefix_codec frame ReadMessage frame_ok
  by unfold_locales (rule ReadMessage_frame)

section \<open>Properties\<close>

text \<open>C28: two peers that run \<open>Handshake\<close> against each other, each reading what the other wrote,
  both succeed with the other's peer ID when their info hashes are equal, and both report the
  mismatch when they are not.\<close>

theorem Handshake_mutual:
  assumes "length h1 = 20" and "length h2 = 20" and "length id1 = 20" and "length id2 = 20"
  shows "snd (Handshake None None (fst (Handshake None None r2 h2 id2)) h1 id1) =
      (if h1 = h2 then Inr (id2, []) else Inl (Errorf ''peer: info hash mismatch''))"
  using assms recvHandshake_send [of h2 id2 "[]" h1] by (simp add: Handshake_def Let_def)

theorem Handshake_mutual_witness:
  "snd (Handshake None None (fst (Handshake None None [] (replicate 20 1) (replicate 20 2)))
         (replicate 20 1) (replicate 20 3)) = Inr (replicate 20 2, [])"
  using Handshake_mutual [of "replicate 20 1" "replicate 20 1" "replicate 20 3" "replicate 20 2" "[]"]
  by simp

text \<open>C29: the message stream is read back exactly: any sequence of keepalives and messages, each
  shorter than 2^32 bytes, written one after the other is read as that sequence, whatever bytes
  follow, and the bytes that follow are left unread.\<close>

theorem peer_stream_roundtrip:
  assumes "\<forall>m \<in> set ms. frame_ok m"
  shows "peer_codec.read_all (length ms) (concat (map frame ms)) = Inr ms \<and>
    (ms \<noteq> [] \<longrightarrow> ReadMessage (concat (map frame ms) @ rest) =
       Inr (hd ms, concat (map frame (tl ms)) @ rest))"
proof
  have "frame m \<noteq> []" for m
    by (auto simp: frame_def WriteMessage_def PutUint32_def split: option.splits)
  with assms show "peer_codec.read_all (length ms) (concat (map frame ms)) = Inr ms"
    by (intro peer_codec.read_all_concat) auto
  show "ms \<noteq> [] \<longrightarrow> ReadMessage (concat (map frame ms) @ rest) =
      Inr (hd ms, concat (map frame (tl ms)) @ rest)"
    using assms by (cases ms) (auto simp: ReadMessage_frame)
qed

theorem peer_stream_roundtrip_witness:
  "peer_codec.read_all (Suc (Suc 0)) (concat (map frame [None, Some \<lparr>Payload = [1, 2], ID = MsgHave\<rparr>])) =
     Inr [None, Some \<lparr>Payload = [1, 2], ID = MsgHave\<rparr>]"
  using peer_stream_roundtrip [of "[None, Some \<lparr>Payload = [1, 2], ID = MsgHave\<rparr>]" "[]"]
  by (simp add: frame_ok_def del: peer_codec.read_all.simps)

text \<open>the payload formats agree: \<open>ParseHave\<close> reads what a 4-byte big-endian index is, and
  \<open>ParsePiece\<close> recovers index, offset and block from a payload laid out as \<open>FormatRequest\<close> lays
  out its first two words; every payload of 8 bytes or more is accepted and nothing is lost.\<close>

theorem peer_payload_roundtrip:
  "ParseHave (PutUint32 i) = Inr i \<and>
   ParsePiece (PutUint32 i @ PutUint32 b @ blk) = Inr (i, b, blk) \<and>
   ParsePiece (FormatRequest i b n) = Inr (i, b, PutUint32 n) \<and>
   (ParsePiece p = Inr (i, b, blk) \<longleftrightarrow> p = PutUint32 i @ PutUint32 b @ blk)"
proof -
  have "ParsePiece (PutUint32 i @ PutUint32 b @ x) = Inr (i, b, x)" for x
    by (simp add: ParsePiece_def)
  moreover have "p = PutUint32 i @ PutUint32 b @ blk" if "ParsePiece p = Inr (i, b, blk)"
  proof -
    have l: "8 \<le> length p" and i: "i = Uint32 (take 4 p)" and b: "b = Uint32 (take 4 (drop 4 p))"
      and blk: "blk = drop 8 p"
      using that by (auto simp: ParsePiece_def split: if_splits)
    have "PutUint32 i @ PutUint32 b = take 4 p @ take 4 (drop 4 p)"
      using l i b by (simp add: PutUint32_Uint32)
    also have "\<dots> = take 8 p" by (simp flip: take_add)
    finally show ?thesis using blk by (metis append.assoc append_take_drop_id)
  qed
  ultimately show ?thesis by (auto simp: ParseHave_def FormatRequest_def)
qed

text \<open>the length prefix of \<open>WriteMessage\<close> is the payload length plus one truncated to 32 bits,
  so a payload of 2^32 - 1 bytes is announced with length 0 and is read back as a keepalive
  followed by stray bytes.\<close>

theorem WriteMessage_length_wraps:
  assumes "length (Payload msg) = 2 ^ 32 - 1"
  shows "ReadMessage (WriteMessage msg) = Inr (None, ID msg # Payload msg)"
proof -
  have "(word_of_nat (1 + length (Payload msg)) :: 32 word) = 0"
    using assms by simp
  then show ?thesis by (simp add: WriteMessage_def ReadMessage_def)
qed

theorem WriteMessage_length_wraps_witness:
  "ReadMessage (WriteMessage \<lparr>Payload = replicate (2 ^ 32 - 1) 0, ID = MsgPiece\<rparr>) =
     Inr (None, MsgPiece # replicate (2 ^ 32 - 1) 0)"
  using WriteMessage_length_wraps [of "\<lparr>Payload = replicate (2 ^ 32 - 1) 0, ID = MsgPiece\<rparr>"]
  by (simp only: length_replicate peer_Message.simps simp_thms)

end
