(* ===== verification/Piece.thy ===== *)
theory Piece
  imports Go_Prelude "HOL-Library.Multiset"
begin

text \<open>
  Package \<open>torrent/piece\<close>: the download state of one piece. \<open>sha1\<close> is a parameter of \<open>Verify\<close>:
  nothing below depends on which hash function it is.
\<close>

section \<open>Definitions\<close>

definition BlockSize :: int where
  "BlockSize = 2 ^ 14"

record piece_State =
  st_data :: bytes
  st_index :: int
  st_length :: int
  st_downloaded :: int
  st_requested :: int
  st_hash :: bytes

definition piece_New :: "int \<Rightarrow> bytes \<Rightarrow> int \<Rightarrow> piece_State result" where
  "piece_New index hash len =
     (if make_ok len
      then Inr \<lparr>st_data = replicate (nat len) 0, st_index = index, st_length = len,
                st_downloaded = 0, st_requested = 0, st_hash = hash\<rparr>
      else Inl (Panic ''makeslice: len out of range''))"

definition piece_Index :: "piece_State \<Rightarrow> int" where
  "piece_Index s = st_index s"

definition piece_Length :: "piece_State \<Rightarrow> int" where
  "piece_Length s = st_length s"

definition piece_Complete :: "piece_State \<Rightarrow> bool" where
  "piece_Complete s \<longleftrightarrow> st_downloaded s \<ge> st_length s"

text \<open>\<open>NextRequest\<close>: the new state with \<open>begin\<close>, \<open>blockLen\<close> and \<open>ok\<close>.\<close>

definition NextRequest :: "piece_State \<Rightarrow> piece_State \<times> int \<times> int \<times> bool" where
  "NextRequest s =
     (if st_requested s \<ge> st_length s then (s, 0, 0, False)
      else let begin = st_requested s;
               blockLen = (if wrap64 (begin + BlockSize) > st_length s then st_length s - begin
                           else BlockSize)
           in (s\<lparr>st_requested := wrap64 (st_requested s + blockLen)\<rparr>, begin, blockLen, True))"

text \<open>\<open>Store\<close>: an error leaves the state as it is; slicing the buffer at a negative offset, or at
  one beyond its end, panics.\<close>

definition piece_Store :: "piece_State \<Rightarrow> int \<Rightarrow> bytes \<Rightarrow> piece_State result" where
  "piece_Store s begin d =
     (if wrap64 (begin + int (length d)) > st_length s then Inl (Errorf ''piece: block overflows piece'')
      else if begin < 0 \<or> begin > int (length (st_data s)) then Inl (Panic ''slice bounds out of range'')
      else Inr (s\<lparr>st_data := copy_at (nat begin) d (st_data s),
                 st_downloaded := wrap64 (st_downloaded s + int (length d))\<rparr>))"

definition piece_Verify :: "(bytes \<Rightarrow> bytes) \<Rightarrow> piece_State \<Rightarrow> unit result" where
  "piece_Verify sha1 s =
     (if sha1 (st_data s) \<noteq> st_hash s then Inl (Errorf ''piece: hash mismatch'') else Inr ())"

definition piece_Data :: "piece_State \<Rightarrow> bytes" where
  "piece_Data s = st_data s"

subsection \<open>The use the package documents: request until done, store what arrives\<close>

text \<open>The state kept by every operation: sizes are real and the cursor is inside the piece.\<close>

definition piece_inv :: "piece_State \<Rightarrow> bool" where
  "piece_inv s \<longleftrightarrow> int (length (st_data s)) = st_length s \<and> st_length s \<le> maxAlloc \<and>
     0 \<le> st_requested s \<and> st_requested s \<le> st_length s"

text \<open>All requests from a state on; \<open>n\<close> bounds the calls.\<close>

fun requests :: "nat \<Rightarrow> piece_State \<Rightarrow> (int \<times> int) list" where
  "requests 0 s = []"
| "requests (Suc n) s =
     (case NextRequest s of (s', begin, len, ok) \<Rightarrow> if ok then (begin, len) # requests n s' else [])"

text \<open>The reply to a request for a piece with the given content, and the stores of a list of
  replies in the order they arrive.\<close>

definition block :: "bytes \<Rightarrow> int \<times> int \<Rightarrow> bytes" where
  "block content r = take (nat (snd r)) (drop (nat (fst r)) content)"

fun store_all :: "bytes \<Rightarrow> piece_State \<Rightarrow> (int \<times> int) list \<Rightarrow> piece_State result" where
  "store_all content s [] = Inr s"
| "store_all content s (r # rs) =
     (case piece_Store s (fst r) (block content r) of
        Inl e \<Rightarrow> Inl e
      | Inr s' \<Rightarrow> store_all content s' rs)"

text \<open>The offsets a request covers.\<close>

definition covers :: "int \<times> int \<Rightarrow> nat \<Rightarrow> bool" where
  "covers r i \<longleftrightarrow> fst r \<le> int i \<and> int i < fst r + snd r"

section \<open>Library lemmas\<close>

lemma maxAlloc_lt: "x \<le> maxAlloc + maxAlloc \<Longrightarrow> 0 \<le> x \<Longrightarrow> int64 x"
  by (simp add: maxAlloc_def int64_def)

lemma NextRequest_spec:
  assumes "piece_inv s"
  shows "NextRequest s =
    (if st_requested s = st_length s then (s, 0, 0, False)
     else let len = min BlockSize (st_length s - st_requested s)
          in (s\<lparr>st_requested := st_requested s + len\<rparr>, st_requested s, len, True))"
proof -
  have "wrap64 (st_requested s + BlockSize) = st_requested s + BlockSize"
    using assms by (intro wrap64_id maxAlloc_lt) (auto simp: piece_inv_def BlockSize_def maxAlloc_def)
  moreover have "wrap64 (st_requested s + x) = st_requested s + x"
    if "0 \<le> x" "st_requested s + x \<le> st_length s" for x
    using assms that by (intro wrap64_id maxAlloc_lt) (auto simp: piece_inv_def maxAlloc_def)
  ultimately show ?thesis
    using assms by (auto simp: NextRequest_def piece_inv_def Let_def min_def BlockSize_def)
qed

lemma piece_New_inv: "piece_New index hash len = Inr s \<Longrightarrow>
    piece_inv s \<and> st_length s = len \<and> st_requested s = 0 \<and> st_downloaded s = 0 \<and>
    st_data s = replicate (nat len) 0 \<and> st_hash s = hash \<and> 0 \<le> len"
  by (auto simp: piece_New_def piece_inv_def make_ok_def split: if_splits)

lemma NextRequest_inv:
  "piece_inv s \<Longrightarrow> NextRequest s = (s', b, l, ok) \<Longrightarrow>
     piece_inv s' \<and> st_data s' = st_data s \<and> st_length s' = st_length s \<and> st_downloaded s' = st_downloaded s"
  by (auto simp: NextRequest_spec Let_def piece_inv_def BlockSize_def split: if_splits)

lemma piece_Store_inv: "piece_inv s \<Longrightarrow> piece_Store s b d = Inr s' \<Longrightarrow> piece_inv s'"
  by (auto simp: piece_Store_def piece_inv_def split: if_splits)

lemma requests_tile:
  assumes "piece_inv s" and "nat (st_length s - st_requested s) \<le> n"
  shows "concat (map (\<lambda>(b, l). [b..b + l - 1]) (requests n s)) = [st_requested s..st_length s - 1] \<and>
    (\<forall>(b, l) \<in> set (requests n s). 0 \<le> b \<and> 0 < l \<and> l \<le> BlockSize \<and> b + l \<le> st_length s) \<and>
    sum_list (map snd (requests n s)) = st_length s - st_requested s"
  using assms
proof (induction n arbitrary: s)
  case 0
  then show ?case by (simp add: piece_inv_def)
next
  case (Suc n)
  show ?case
  proof (cases "st_requested s = st_length s")
    case True
    then show ?thesis using Suc.prems by (simp add: NextRequest_spec)
  next
    case False
    define l where "l = min BlockSize (st_length s - st_requested s)"
    define s' where "s' = s\<lparr>st_requested := st_requested s + l\<rparr>"
    have l: "0 < l" "l \<le> BlockSize" "st_requested s + l \<le> st_length s"
      using False Suc.prems by (auto simp: l_def piece_inv_def BlockSize_def)
    have eq: "requests (Suc n) s = (st_requested s, l) # requests n s'"
      using False Suc.prems by (simp add: NextRequest_spec l_def s'_def Let_def)
    have s': "st_length s' = st_length s" "st_requested s' = st_requested s + l"
      by (simp_all add: s'_def)
    have "piece_inv s'" "nat (st_length s' - st_requested s') \<le> n"
      using Suc.prems l by (auto simp: s'_def piece_inv_def)
    note IH = Suc.IH [OF this, unfolded s']
    have split: "[st_requested s..st_length s - 1] =
        [st_requested s..st_requested s + l - 1] @ [st_requested s + l..st_length s - 1]"
      using upto_split2 [of "st_requested s" "st_requested s + l - 1" "st_length s - 1"] l by simp
    have "0 \<le> st_requested s" using Suc.prems by (simp add: piece_inv_def)
    then show ?thesis
      unfolding eq using IH l by (simp add: split)
  qed
qed

lemma sum_list_mset_split:
  "mset xs = mset ys + mset zs \<Longrightarrow>
     sum_list (map f xs) = sum_list (map f ys) + (sum_list (map f zs) :: int)"
  by (metis mset_append mset_map map_append sum_list_append sum_mset_sum_list)

lemma sum_list_snd_pos:
  "\<forall>(b, l) \<in> set rs. (0 :: int) < l \<Longrightarrow>
     0 \<le> sum_list (map snd rs) \<and> (sum_list (map snd rs) = 0 \<longleftrightarrow> rs = [])"
  by (induction rs) auto

lemma covers_upto: "(\<exists>r \<in> set rs. covers r i) \<longleftrightarrow> int i \<in> set (concat (map (\<lambda>(b, l). [b..b + l - 1]) rs))"
  by (force simp: covers_def)

lemma piece_Store_block:
  assumes "piece_inv s" and "int (length content) = st_length s"
    and "0 \<le> b" and "0 < l" and "b + l \<le> st_length s"
    and "0 \<le> st_downloaded s" and "st_downloaded s + l \<le> maxAlloc"
  shows "\<exists>s'. piece_Store s b (block content (b, l)) = Inr s' \<and> piece_inv s' \<and>
    st_length s' = st_length s \<and> st_hash s' = st_hash s \<and> st_downloaded s' = st_downloaded s + l \<and>
    (\<forall>i < length content. st_data s' ! i = (if covers (b, l) i then content ! i else st_data s ! i))"
proof -
  have len: "length (block content (b, l)) = nat l"
    using assms by (simp add: block_def)
  have w: "wrap64 (b + l) = b + l" "wrap64 (st_downloaded s + l) = st_downloaded s + l"
    using assms by (auto intro!: wrap64_id maxAlloc_lt simp: piece_inv_def maxAlloc_def)
  have "copy_at (nat b) (block content (b, l)) (st_data s) ! i =
      (if covers (b, l) i then content ! i else st_data s ! i)" if "i < length content" for i
    using assms that len
    by (subst nth_copy_at) (auto simp: piece_inv_def covers_def block_def nat_le_iff)
  then show ?thesis
    using assms len w by (auto simp: piece_Store_def piece_inv_def)
qed

lemma store_all_blocks:
  assumes "piece_inv s" and "int (length content) = st_length s"
    and "\<forall>(b, l) \<in> set rs. 0 \<le> b \<and> 0 < l \<and> b + l \<le> st_length s"
    and "0 \<le> st_downloaded s" and "st_downloaded s + sum_list (map snd rs) \<le> maxAlloc"
  shows "\<exists>s'. store_all content s rs = Inr s' \<and> piece_inv s' \<and>
    st_length s' = st_length s \<and> st_hash s' = st_hash s \<and>
    st_downloaded s' = st_downloaded s + sum_list (map snd rs) \<and>
    (\<forall>i < length content. st_data s' ! i =
       (if \<exists>r \<in> set rs. covers r i then content ! i else st_data s ! i))"
  using assms
proof (induction rs arbitrary: s)
  case (Cons r rs)
  obtain b l where r: "r = (b, l)" by force
  have "0 \<le> sum_list (map snd rs)"
    using Cons.prems by (intro sum_list_nonneg) force
  then obtain s' where s': "piece_Store s b (block content (b, l)) = Inr s'" "piece_inv s'"
      "st_length s' = st_length s" "st_hash s' = st_hash s" "st_downloaded s' = st_downloaded s + l"
      "\<forall>i < length content. st_data s' ! i = (if covers (b, l) i then content ! i else st_data s ! i)"
    using piece_Store_block [of s content b l] Cons.prems r by auto
  have "\<exists>s''. store_all content s' rs = Inr s'' \<and> piece_inv s'' \<and>
      st_length s'' = st_length s' \<and> st_hash s'' = st_hash s' \<and>
      st_downloaded s'' = st_downloaded s' + sum_list (map snd rs) \<and>
      (\<forall>i < length content. st_data s'' ! i =
         (if \<exists>r \<in> set rs. covers r i then content ! i else st_data s' ! i))"
    using Cons.prems s' r by (intro Cons.IH) auto
  then show ?case using s' r by auto
qed simp

section \<open>Properties\<close>

text \<open>the requests of a fresh piece tile it: taken in order, the offsets they ask for are
  0, 1, ..., length - 1, each once, and each block is not empty and not longer than
  \<open>BlockSize\<close>.\<close>

theorem piece_requests_tile:
  assumes "piece_New index hash len = Inr s" and "nat len \<le> n"
  shows "concat (map (\<lambda>(b, l). [b..b + l - 1]) (requests n s)) = [0..len - 1] \<and>
    (\<forall>(b, l) \<in> set (requests n s). 0 < l \<and> l \<le> BlockSize)"
  using requests_tile [of s n] piece_New_inv [OF assms(1)] assms(2) by fastforce

theorem piece_requests_tile_witness:
  "\<exists>s. piece_New 0 [] 20000 = Inr s \<and>
     concat (map (\<lambda>(b, l). [b..b + l - 1]) (requests 20000 s)) = [0..20000 - 1]"
proof -
  obtain s where s: "piece_New 0 [] 20000 = Inr s" by (simp add: piece_New_def make_ok_def maxAlloc_def)
  show ?thesis using piece_requests_tile [OF s, of 20000] s by auto
qed

text \<open>C18: storing the replies to the requests of a piece, each at most once and in any order,
  never fails, and the piece is \<open>Complete\<close> exactly when every reply has been stored; then the
  buffer is the content and \<open>Verify\<close> accepts it.\<close>

theorem piece_download_any_order:
  assumes new: "piece_New index (sha1 content) (int (length content)) = Inr s"
    and n: "length content \<le> n" and rs: "mset rs \<subseteq># mset (requests n s)"
  shows "\<exists>s'. store_all content s rs = Inr s' \<and>
    (piece_Complete s' \<longleftrightarrow> mset rs = mset (requests n s)) \<and>
    (piece_Complete s' \<longrightarrow> piece_Data s' = content \<and> piece_Verify sha1 s' = Inr ())"
proof -
  note s = piece_New_inv [OF new]
  have tile: "concat (map (\<lambda>(b, l). [b..b + l - 1]) (requests n s)) = [0..int (length content) - 1]"
    and blocks: "\<forall>(b, l) \<in> set (requests n s). 0 \<le> b \<and> 0 < l \<and> l \<le> BlockSize \<and> b + l \<le> int (length content)"
    and total: "sum_list (map snd (requests n s)) = int (length content)"
    using requests_tile [of s n] s n by auto
  obtain M where M: "mset (requests n s) = mset rs + M"
    using rs by (auto simp: mset_subset_eq_exists_conv)
  obtain more where "mset more = M" using ex_mset by blast
  with M have more: "mset (requests n s) = mset rs + mset more" by simp
  have sets: "set (requests n s) = set rs \<union> set more"
    using arg_cong [OF more, of set_mset] by simp
  have sums: "sum_list (map snd rs) + sum_list (map snd more) = int (length content)"
    using total sum_list_mset_split [OF more, of snd] by simp
  have pos: "0 \<le> sum_list (map snd more)" "sum_list (map snd more) = 0 \<longleftrightarrow> more = []"
    using blocks sets sum_list_snd_pos [of more] by auto
  obtain s' where s': "store_all content s rs = Inr s'" "piece_inv s'" "st_length s' = int (length content)"
      "st_hash s' = sha1 content" "st_downloaded s' = sum_list (map snd rs)"
      "\<forall>i < length content. (\<exists>r \<in> set rs. covers r i) \<longrightarrow> st_data s' ! i = content ! i"
  proof -
    have "\<forall>(b, l) \<in> set rs. 0 \<le> b \<and> 0 < l \<and> b + l \<le> st_length s"
      using blocks sets s by auto
    moreover have "st_downloaded s + sum_list (map snd rs) \<le> maxAlloc"
      using s sums pos(1) by (simp add: piece_inv_def)
    ultimately show ?thesis
      using store_all_blocks [of s content rs] s that by auto
  qed
  have complete: "piece_Complete s' \<longleftrightarrow> more = []"
    using s' sums pos by (auto simp: piece_Complete_def)
  moreover have "piece_Data s' = content" if "more = []"
  proof -
    have "\<exists>r \<in> set rs. covers r i" if "i < length content" for i
      using \<open>more = []\<close> sets tile that covers_upto [of "requests n s" i] by auto
    then show ?thesis
      using s' by (auto simp: piece_Data_def piece_inv_def intro!: nth_equalityI)
  qed
  ultimately show ?thesis
    using s' more by (auto simp: piece_Verify_def piece_Data_def)
qed

theorem piece_download_any_order_witness:
  "\<exists>s s'. piece_New 0 (id [7, 8, 9]) 3 = Inr s \<and> store_all [7, 8, 9] s [(0, 3)] = Inr s' \<and>
     piece_Complete s' \<and> piece_Verify id s' = Inr ()"
proof -
  define s where "s = \<lparr>st_data = [0, 0, 0 :: 8 word], st_index = 0, st_length = 3, st_downloaded = 0,
    st_requested = 0, st_hash = [7, 8, 9]\<rparr>"
  have new: "piece_New 0 (id [7, 8, 9]) (int (length [7, 8, 9 :: 8 word])) = Inr s"
    by (simp add: piece_New_def make_ok_def maxAlloc_def s_def numeral_eq_Suc)
  have "requests 3 s = [(0, 3)]"
    by (simp add: s_def NextRequest_def wrap64_def BlockSize_def numeral_3_eq_3)
  then show ?thesis
    using piece_download_any_order [of 0 id "[7, 8, 9]" s 3 "[(0, 3)]", OF new] new
    by (auto simp: numeral_3_eq_3)
qed

text \<open>\<open>Store\<close> counts bytes, not blocks: storing the first half of a piece twice makes it
  \<open>Complete\<close> although the second half never arrived.\<close>

theorem piece_duplicate_block_completes:
  assumes "length d = n" and "0 < n" and "2 * int n \<le> maxAlloc"
  shows "\<exists>s s1 s2. piece_New index hash (2 * int n) = Inr s \<and>
    piece_Store s 0 d = Inr s1 \<and> \<not> piece_Complete s1 \<and>
    piece_Store s1 0 d = Inr s2 \<and> piece_Complete s2 \<and> piece_Data s2 = d @ replicate n 0"
proof -
  define st where "st = (\<lambda>buf k. \<lparr>st_data = buf, st_index = index, st_length = 2 * int n,
    st_downloaded = k, st_requested = 0, st_hash = hash\<rparr>)"
  have w: "wrap64 (0 + int n) = int n" "wrap64 (int n + int n) = 2 * int n"
    using assms by (simp_all add: maxAlloc_lt)
  have "replicate (2 * n) (0 :: 8 word) = replicate n 0 @ replicate n 0"
    by (simp only: mult_2 replicate_add)
  then have "copy_at 0 d (replicate (2 * n) 0) = d @ replicate n 0" "copy_at 0 d (d @ replicate n 0) = d @ replicate n 0"
    using assms by (auto simp: copy_at_def)
  then have "piece_Store (st (replicate (2 * n) 0) 0) 0 d = Inr (st (d @ replicate n 0) (int n))"
    "piece_Store (st (d @ replicate n 0) (int n)) 0 d = Inr (st (d @ replicate n 0) (2 * int n))"
    unfolding piece_Store_def using assms w by (simp_all add: st_def)
  moreover have "piece_New index hash (2 * int n) = Inr (st (replicate (2 * n) 0) 0)"
    using assms by (simp add: piece_New_def make_ok_def st_def nat_mult_distrib)
  moreover have "\<not> piece_Complete (st (d @ replicate n 0) (int n))" "piece_Complete (st (d @ replicate n 0) (2 * int n))"
    "piece_Data (st (d @ replicate n 0) (2 * int n)) = d @ replicate n 0"
    using assms by (simp_all add: piece_Complete_def piece_Data_def st_def)
  ultimately show ?thesis by blast
qed

theorem piece_duplicate_block_completes_witness:
  "\<exists>s s1 s2. piece_New 0 [] (2 * int 2) = Inr s \<and>
    piece_Store s 0 [1, 2] = Inr s1 \<and> \<not> piece_Complete s1 \<and>
    piece_Store s1 0 [1, 2] = Inr s2 \<and> piece_Complete s2 \<and> piece_Data s2 = [1, 2] @ replicate 2 0"
  by (rule piece_duplicate_block_completes) (simp_all add: maxAlloc_def)

end
