(* ===== verification/Metainfo.thy ===== *)
theory Metainfo
  imports Bencode
begin

text \<open>
  Packages \<open>torrent/metainfo\<close> and \<open>torrent/tracker\<close>: what is read from a decoded .torrent file and
  from a tracker's answer. The bytes of a file are an argument (\<open>Inl e\<close> when \<open>io.ReadAll\<close> fails);
  SHA-1, \<open>net.ParseIP\<close>, URL parsing and the HTTP request are parameters.
\<close>

section \<open>Definitions\<close>

type_synonym Hash = bytes

definition hexDigit :: "nat \<Rightarrow> char" where
  "hexDigit d = (if d < 10 then char_of (48 + d) else char_of (87 + d))"

definition Hash_String :: "Hash \<Rightarrow> string" where
  "Hash_String h = concat (map (\<lambda>w. [hexDigit (unat w div 16), hexDigit (unat w mod 16)]) h)"

record FileInfo =
  Path :: "string list"
  file_Length :: int

record Info =
  Name :: string
  Pieces :: "Hash list"
  Files :: "FileInfo list"
  PieceLength :: int
  info_Length :: int

record MetaInfo =
  mi_Announce :: string
  Comment :: string
  CreatedBy :: string
  AnnounceList :: "string list list"
  mi_Info :: Info
  CreationDate :: int
  InfoHash :: Hash

definition TotalLength :: "Info \<Rightarrow> int" where
  "TotalLength info =
     (if info_Length info > 0 then info_Length info
      else fold (\<lambda>f total. wrap64 (total + file_Length f)) (Files info) 0)"

definition PieceCount :: "Info \<Rightarrow> nat" where
  "PieceCount info = length (Pieces info)"

text \<open>The closure \<open>add\<close> of \<open>Trackers\<close> on the captured variables \<open>seen\<close> and \<open>result\<close>.\<close>

definition trackers_add :: "string \<Rightarrow> string list \<times> string list \<Rightarrow> string list \<times> string list" where
  "trackers_add u st =
     (let u = TrimSpace u
      in if u = [] then st
         else if List.member (fst st) u then st
         else (u # fst st, snd st @ [u]))"

definition Trackers :: "MetaInfo \<Rightarrow> string list" where
  "Trackers m =
     snd (fold (\<lambda>tier st. fold trackers_add tier st) (AnnounceList m)
            (trackers_add (mi_Announce m) ([], [])))"

text \<open>\<open>x, _ = v.(string)\<close> and \<open>if n, ok := v.(int64)\<close>: a field of another type leaves the zero
  value.\<close>

definition string_field :: "(string \<times> any) list \<Rightarrow> string \<Rightarrow> string" where
  "string_field d k = (case map_of d k of Some (String s) \<Rightarrow> s | _ \<Rightarrow> [])"

definition int_field :: "(string \<times> any) list \<Rightarrow> string \<Rightarrow> int" where
  "int_field d k = (case map_of d k of Some (Int64 n) \<Rightarrow> n | _ \<Rightarrow> 0)"

text \<open>The strings among the values of a list, in order.\<close>

definition strings_of :: "any list \<Rightarrow> string list" where
  "strings_of vs = concat (map (\<lambda>v. case v of String s \<Rightarrow> [s] | _ \<Rightarrow> []) vs)"

definition parseFileInfo :: "(string \<times> any) list \<Rightarrow> FileInfo" where
  "parseFileInfo d =
     \<lparr>Path = (case map_of d ''path'' of Some (Slice ps) \<Rightarrow> strings_of ps | _ \<Rightarrow> []),
      file_Length = int_field d ''length''\<rparr>"

fun parseFiles :: "any list \<Rightarrow> FileInfo list result" where
  "parseFiles [] = Inr []"
| "parseFiles (f # fs) =
     (case f of
        Map fd \<Rightarrow> (case parseFiles fs of Inl e \<Rightarrow> Inl e | Inr fis \<Rightarrow> Inr (parseFileInfo fd # fis))
      | _ \<Rightarrow> Inl (Errorf ''metainfo: file entry is not a dictionary''))"

definition splitPieces :: "string \<Rightarrow> Hash list" where
  "splitPieces s = map (\<lambda>i. bytes_of (take 20 (drop (i * 20) s))) [0..<length s div 20]"

definition parseInfo :: "(string \<times> any) list \<Rightarrow> Info result" where
  "parseInfo d =
     (case map_of d ''pieces'' of
        None \<Rightarrow> Inl (Errorf ''metainfo: missing 'pieces' key'')
      | Some (String piecesStr) \<Rightarrow>
          if length piecesStr mod 20 \<noteq> 0
          then Inl (Errorf ''metainfo: 'pieces' length is not a multiple of 20'')
          else
            let info = (\<lambda>files. \<lparr>Name = string_field d ''name'', Pieces = splitPieces piecesStr,
                          Files = files, PieceLength = int_field d ''piece length'',
                          info_Length = int_field d ''length''\<rparr>)
            in (case map_of d ''files'' of
                  None \<Rightarrow> Inr (info [])
                | Some (Slice fileList) \<Rightarrow>
                    (case parseFiles fileList of Inl e \<Rightarrow> Inl e | Inr files \<Rightarrow> Inr (info files))
                | Some _ \<Rightarrow> Inl (Errorf ''metainfo: 'files' is not a list''))
      | Some _ \<Rightarrow> Inl (Errorf ''metainfo: 'pieces' is not a string''))"

definition announceList :: "(string \<times> any) list \<Rightarrow> string list list" where
  "announceList dict =
     (case map_of dict ''announce-list'' of
        Some (Slice tiers) \<Rightarrow> concat (map (\<lambda>t. case t of Slice us \<Rightarrow> [strings_of us] | _ \<Rightarrow> []) tiers)
      | _ \<Rightarrow> [])"

definition metainfo_Decode :: "(bytes \<Rightarrow> Hash) \<Rightarrow> string result \<Rightarrow> MetaInfo result" where
  "metainfo_Decode sha1 r =
     (case r of
        Inl e \<Rightarrow> Inl (wrap_err ''metainfo: read'' e)
      | Inr bs \<Rightarrow>
     (case bencode_Decode bs of
        Inl e \<Rightarrow> Inl (wrap_err ''metainfo: decode bencode'' e)
      | Inr (Map dict, _) \<Rightarrow>
     (case map_of dict ''info'' of
        None \<Rightarrow> Inl (Errorf ''metainfo: missing 'info' key'')
      | Some (Map infoDict) \<Rightarrow>
     (case EncodeToString (Map infoDict) of
        Inl e \<Rightarrow> Inl (wrap_err ''metainfo: re-encode info dict'' e)
      | Inr infoEncoded \<Rightarrow>
     (case parseInfo infoDict of
        Inl e \<Rightarrow> Inl e
      | Inr info \<Rightarrow>
          Inr \<lparr>mi_Announce = string_field dict ''announce'', Comment = string_field dict ''comment'',
               CreatedBy = string_field dict ''created by'', AnnounceList = announceList dict,
               mi_Info = info, CreationDate = int_field dict ''creation date'',
               InfoHash = sha1 (bytes_of infoEncoded)\<rparr>))
      | Some _ \<Rightarrow> Inl (Errorf ''metainfo: 'info' is not a dictionary''))
      | Inr _ \<Rightarrow> Inl (Errorf ''metainfo: top-level value is not a dictionary'')))"

subsection \<open>Package tracker\<close>

type_synonym tracker_Event = string

definition EventNone :: tracker_Event where "EventNone = []"
definition EventStarted :: tracker_Event where "EventStarted = ''started''"
definition EventStopped :: tracker_Event where "EventStopped = ''stopped''"
definition EventCompleted :: tracker_Event where "EventCompleted = ''completed''"

record AnnounceRequest =
  req_Event :: tracker_Event
  Uploaded :: int
  Downloaded :: int
  req_Left :: int
  NumWant :: int
  req_Port :: "16 word"
  req_InfoHash :: Hash
  PeerID :: bytes

text \<open>A peer's IP is the byte slice; a nil IP is the empty list.\<close>

record tracker_Peer =
  IP :: bytes
  Port :: "16 word"

record AnnounceResponse =
  TrackerID :: string
  Peers :: "tracker_Peer list"
  Interval :: int
  MinInterval :: int
  Complete :: int
  Incomplete :: int

text \<open>\<open>for i := 0; i < len(peers); i += 6\<close>.\<close>

function compactPeers :: "string \<Rightarrow> tracker_Peer list" where
  "compactPeers s =
     (if s = [] then []
      else \<lparr>IP = bytes_of (take 4 s), Port = Uint16 (bytes_of (take 2 (drop 4 s)))\<rparr> # compactPeers (drop 6 s))"
  by pat_completeness auto
termination by (relation "measure length") auto

declare compactPeers.simps [simp del]

definition dictPeers :: "(string \<Rightarrow> bytes) \<Rightarrow> any list \<Rightarrow> tracker_Peer list" where
  "dictPeers parseIP ps =
     concat (map (\<lambda>p. case p of
         Map pd \<Rightarrow> [\<lparr>IP = (case map_of pd ''ip'' of Some (String s) \<Rightarrow> parseIP s | _ \<Rightarrow> []),
                     Port = (case map_of pd ''port'' of Some (Int64 n) \<Rightarrow> word_of_int n | _ \<Rightarrow> 0)\<rparr>]
       | _ \<Rightarrow> []) ps)"

definition parseResponse :: "(string \<Rightarrow> bytes) \<Rightarrow> string \<Rightarrow> AnnounceResponse result" where
  "parseResponse parseIP bs =
     (case bencode_Decode bs of
        Inl e \<Rightarrow> Inl (wrap_err ''tracker: decode response'' e)
      | Inr (Map dict, _) \<Rightarrow>
          if map_of dict ''failure reason'' \<noteq> None then Inl (Errorf ''tracker failure'')
          else
            let ar = (\<lambda>ps. \<lparr>TrackerID = string_field dict ''tracker id'', Peers = ps,
                        Interval = int_field dict ''interval'', MinInterval = int_field dict ''min interval'',
                        Complete = int_field dict ''complete'', Incomplete = int_field dict ''incomplete''\<rparr>)
            in (case map_of dict ''peers'' of
                  Some (String peers) \<Rightarrow>
                    if length peers mod 6 \<noteq> 0
                    then Inl (Errorf ''tracker: compact peers length not a multiple of 6'')
                    else Inr (ar (compactPeers peers))
                | Some (Slice peers) \<Rightarrow> Inr (ar (dictPeers parseIP peers))
                | _ \<Rightarrow> Inr (ar []))
      | Inr _ \<Rightarrow> Inl (Errorf ''tracker: response is not a dictionary''))"

text \<open>\<open>Announce\<close>: the query of the tracker URL with the parameters of the request set.\<close>

definition announceQuery :: "AnnounceRequest \<Rightarrow> (string \<times> string list) list \<Rightarrow> (string \<times> string list) list" where
  "announceQuery req q =
     (let q = AList.update ''info_hash'' [string_of (req_InfoHash req)] q;
          q = AList.update ''peer_id'' [string_of (PeerID req)] q;
          q = AList.update ''port'' [show_nat (unat (req_Port req))] q;
          q = AList.update ''uploaded'' [show_int (Uploaded req)] q;
          q = AList.update ''downloaded'' [show_int (Downloaded req)] q;
          q = AList.update ''left'' [show_int (req_Left req)] q;
          q = AList.update ''compact'' [''1''] q;
          q = (if NumWant req \<ge> 0 then AList.update ''numwant'' [show_int (NumWant req)] q else q)
      in if req_Event req \<noteq> EventNone then AList.update ''event'' [req_Event req] q else q)"

definition Announce ::
  "(string \<Rightarrow> ('u \<times> (string \<times> string list) list) result) \<Rightarrow>
   ('u \<Rightarrow> (string \<times> string list) list \<Rightarrow> (string result) result) \<Rightarrow> (string \<Rightarrow> bytes) \<Rightarrow>
   string \<Rightarrow> AnnounceRequest \<Rightarrow> AnnounceResponse result" where
  "Announce urlParse httpGet parseIP trackerURL req =
     (case urlParse trackerURL of
        Inl e \<Rightarrow> Inl (wrap_err ''tracker: parse URL'' e)
      | Inr (u, q) \<Rightarrow>
          (case httpGet u (announceQuery req q) of
             Inl e \<Rightarrow> Inl (wrap_err ''tracker: announce GET'' e)
           | Inr (Inl e) \<Rightarrow> Inl (wrap_err ''tracker: read response body'' e)
           | Inr (Inr body) \<Rightarrow> parseResponse parseIP body))"

text \<open>The compact form of a peer list, as BEP 23 defines it.\<close>

definition compactForm :: "tracker_Peer list \<Rightarrow> string" where
  "compactForm ps = string_of (concat (map (\<lambda>p. IP p @ PutUint16 (Port p)) ps))"

text \<open>The elements of a list, each at its first position only.\<close>

fun nub :: "'a list \<Rightarrow> 'a list" where
  "nub [] = []"
| "nub (x # xs) = x # filter (\<lambda>y. y \<noteq> x) (nub xs)"

section \<open>Library lemmas\<close>

lemma nub_filter: "nub (filter P xs) = filter P (nub xs)"
proof (induction xs)
  case (Cons x xs)
  then show ?case
    by (auto simp: conj_commute intro!: filter_cong)
qed simp

lemma set_nub [simp]: "set (nub xs) = set xs"
  by (induction xs) auto

lemma distinct_nub [simp]: "distinct (nub xs)"
  by (induction xs) auto

lemma trackers_fold:
  "set (fst st) = set (snd st) \<Longrightarrow>
   set (fst (fold trackers_add us st)) = set (snd (fold trackers_add us st)) \<and>
   snd (fold trackers_add us st) =
     snd st @ nub (filter (\<lambda>u. u \<noteq> [] \<and> u \<notin> set (snd st)) (map TrimSpace us))"
proof (induction us arbitrary: st)
  case (Cons u us)
  show ?case
  proof (cases "TrimSpace u = [] \<or> TrimSpace u \<in> set (snd st)")
    case True
    then have "trackers_add u st = st"
      using Cons.prems by (auto simp: trackers_add_def Let_def)
    then show ?thesis using True Cons.IH [OF Cons.prems] by auto
  next
    case False
    define st' where "st' = (TrimSpace u # fst st, snd st @ [TrimSpace u])"
    have st': "trackers_add u st = st'"
      using False Cons.prems by (auto simp: trackers_add_def Let_def st'_def)
    have "set (fst st') = set (snd st')" using Cons.prems by (simp add: st'_def)
    note IH = Cons.IH [OF this]
    have "nub (filter (\<lambda>v. v \<noteq> [] \<and> v \<notin> set (snd st')) (map TrimSpace us)) =
        filter (\<lambda>v. v \<noteq> TrimSpace u) (nub (filter (\<lambda>v. v \<noteq> [] \<and> v \<notin> set (snd st)) (map TrimSpace us)))"
      unfolding nub_filter filter_filter by (rule filter_cong) (auto simp: st'_def)
    then show ?thesis using IH False by (simp add: st' st'_def)
  qed
qed auto

lemma splitPieces_concat: "length s mod 20 = 0 \<Longrightarrow> concat (splitPieces s) = bytes_of s \<and>
    (\<forall>h \<in> set (splitPieces s). length h = 20)"
proof (induction "length s div 20" arbitrary: s)
  case 0
  then show ?case by (simp add: splitPieces_def mod_eq_0_iff_dvd dvd_def)
next
  case (Suc n)
  obtain t where t: "t = drop 20 s" by simp
  have len: "20 \<le> length s" using Suc.hyps(2) by (cases "20 \<le> length s") auto
  have n: "n = length t div 20" and m: "length t mod 20 = 0"
    using Suc.hyps(2) Suc.prems len by (auto simp: t le_div_geq le_mod_geq)
  have "splitPieces s = bytes_of (take 20 s) # splitPieces t"
    using len Suc.hyps(2) n
    by (simp add: splitPieces_def t upt_conv_Cons map_Suc_upt [symmetric] add.commute flip: Suc.hyps(2) del: upt_Suc)
  then show ?case
    using Suc.hyps(1) [OF n m] len by (simp add: t flip: bytes_of_append)
qed

lemma parseInfo_InrD:
  "parseInfo d = Inr info \<Longrightarrow> \<exists>ps. map_of d ''pieces'' = Some (String ps) \<and>
     length ps mod 20 = 0 \<and> Pieces info = splitPieces ps"
  by (auto simp: parseInfo_def Let_def split: option.splits any.splits if_splits sum.splits)

lemma parseFiles_InlD: "parseFiles fs = Inl e \<Longrightarrow> \<exists>m. e = Errorf m"
  by (induction fs) (auto split: any.splits sum.splits)

lemma parseInfo_InlD: "parseInfo d = Inl e \<Longrightarrow> \<exists>m. e = Errorf m"
  by (auto simp: parseInfo_def Let_def dest: parseFiles_InlD
      split: option.splits any.splits if_splits sum.splits)

lemma encodeKeys_Inr_values:
  "encodeKeys m ks = Inr s \<Longrightarrow> k \<in> set ks \<Longrightarrow> \<exists>e. map_of m k = Some (Inr e)"
  by (induction ks arbitrary: s) (auto split: option.splits sum.splits)

lemma encodeKeys_contains:
  assumes "encodeKeys m ks = Inr s" and "k \<in> set ks" and "map_of m k = Some (Inr e)"
  shows "\<exists>pre post. s = pre @ encodeStr k @ e @ post"
  using assms
proof (induction ks arbitrary: s)
  case (Cons k' ks)
  then obtain e' s' where e': "map_of m k' = Some (Inr e')" "encodeKeys m ks = Inr s'"
      "s = encodeStr k' @ e' @ s'"
    by (auto split: option.splits sum.splits)
  show ?case
  proof (cases "k = k'")
    case True
    then show ?thesis using e' Cons.prems by (intro exI [of _ "[]"] exI [of _ s']) auto
  next
    case False
    then obtain pre post where "s' = pre @ encodeStr k @ e @ post" using Cons e' by auto
    then show ?thesis using e' by (intro exI [of _ "encodeStr k' @ e' @ pre"] exI [of _ post]) auto
  qed
qed simp

lemma compactPeers_compactForm:
  "\<forall>p \<in> set ps. length (IP p) = 4 \<Longrightarrow>
     compactPeers (compactForm ps) = ps \<and> length (compactForm ps) = 6 * length ps"
proof (induction ps)
  case Nil
  then show ?case by (simp add: compactForm_def compactPeers.simps)
next
  case (Cons p ps)
  have eq: "compactForm (p # ps) = string_of (IP p) @ string_of (PutUint16 (Port p)) @ compactForm ps"
    by (simp add: compactForm_def)
  have "string_of (IP p) \<noteq> []" using Cons.prems by (metis length_string_of list.set_intros(1) list.size(3) zero_neq_numeral)
  moreover have "take 4 (compactForm (p # ps)) = string_of (IP p)"
    "take 2 (drop 4 (compactForm (p # ps))) = string_of (PutUint16 (Port p))"
    "drop 6 (compactForm (p # ps)) = compactForm ps"
    using Cons.prems by (simp_all add: eq)
  ultimately show ?case
    using Cons by (subst compactPeers.simps) (simp add: eq)
qed

lemma Encode_Map_entry:
  assumes "Encode (Map m) = Inr s" and "map_of m k = Some v"
  shows "\<exists>pre e post. Encode v = Inr e \<and> s = pre @ encodeStr k @ e @ post"
proof -
  define vals where "vals = map (\<lambda>(k, v). (k, Encode v)) m"
  obtain t where t: "encodeKeys vals (sort (map fst m)) = Inr t" "s = ''d'' @ t @ ''e''"
    using assms(1) by (auto simp: vals_def split: sum.splits)
  have vals: "map_of vals k = Some (Encode v)"
    using assms(2) by (simp add: vals_def map_of_map)
  have k: "k \<in> set (sort (map fst m))"
    using assms(2) by (force dest: map_of_SomeD)
  obtain e where e: "Encode v = Inr e"
    using encodeKeys_Inr_values [OF t(1) k] vals by auto
  obtain pre post where "t = pre @ encodeStr k @ e @ post"
    using encodeKeys_contains [OF t(1) k] vals e by auto
  then show ?thesis using e t by (intro exI [of _ "''d'' @ pre"] exI [of _ e] exI [of _ "post @ ''e''"]) simp
qed

lemma metainfo_Decode_top:
  assumes "bencode_Decode bs = Inr (v, rest)"
  shows "(\<exists>dict infoDict. v = Map dict \<and> map_of dict ''info'' = Some (Map infoDict)) \<or>
    (\<exists>msg. metainfo_Decode sha1 (Inr bs) = Inl (Errorf msg))"
proof (cases v)
  case (Map dict)
  show ?thesis
  proof (cases "map_of dict ''info''")
    case None
    then show ?thesis using assms Map by (simp add: metainfo_Decode_def)
  next
    case (Some w)
    then show ?thesis using assms Map by (cases w) (simp_all add: metainfo_Decode_def)
  qed
qed (use assms in \<open>simp_all add: metainfo_Decode_def\<close>)

section \<open>Properties\<close>

text \<open>C26: the info hash of a canonically encoded .torrent file is the hash of the very bytes of
  the file that encode its info dictionary, although \<open>Decode\<close> computes it by re-encoding; so it
  is the identifier every other client computes.\<close>

theorem metainfo_InfoHash_canonical:
  assumes "wf_any (Map dict)" and "map_of dict ''info'' = Some (Map infoDict)"
    and "EncodeToString (Map dict) = Inr torrent"
    and "metainfo_Decode sha1 (Inr (torrent @ junk)) = Inr m"
  shows "\<exists>pre infoBytes post. torrent = pre @ encodeStr ''info'' @ infoBytes @ post \<and>
    EncodeToString (Map infoDict) = Inr infoBytes \<and> InfoHash m = sha1 (bytes_of infoBytes)"
proof -
  have "bencode_Decode (torrent @ junk) = Inr (Map dict, junk)"
    using wf_any_Encode [OF assms(1), of junk] assms(3) by simp
  moreover obtain pre e post where "Encode (Map infoDict) = Inr e" "torrent = pre @ encodeStr ''info'' @ e @ post"
    using Encode_Map_entry [of dict torrent "''info''"] assms(2,3) by (auto simp: EncodeToString_def)
  ultimately show ?thesis
    using assms(2,4) by (force simp: metainfo_Decode_def EncodeToString_def split: sum.splits)
qed

theorem metainfo_InfoHash_canonical_witness:
  "\<exists>torrent m pre infoBytes post.
     metainfo_Decode (take 2) (Inr (torrent @ ''junk'')) = Inr m \<and>
     torrent = pre @ encodeStr ''info'' @ infoBytes @ post \<and> InfoHash m = take 2 (bytes_of infoBytes)"
proof -
  define d where "d = [(''name'', String ''x''), (''pieces'', String [])]"
  have "EncodeToString (Map [(''info'', Map d)]) = Inr ''d4:infod4:name1:x6:pieces0:ee''"
    unfolding d_def by code_simp
  moreover have "\<not> isl (metainfo_Decode (take 2) (Inr (''d4:infod4:name1:x6:pieces0:ee'' @ ''junk'')))"
    by code_simp
  then have "\<exists>m. metainfo_Decode (take 2) (Inr (''d4:infod4:name1:x6:pieces0:ee'' @ ''junk'')) = Inr m"
    by (metis isl_def sum.exhaust)
  moreover have "wf_any (Map [(''info'', Map d)])" unfolding d_def by code_simp
  ultimately show ?thesis
    using metainfo_InfoHash_canonical [of "[(''info'', Map d)]" d "''d4:infod4:name1:x6:pieces0:ee''" "take 2" "''junk''"]
    by fastforce
qed



text \<open>\<open>Trackers\<close> lists the announce URL and then the tiers in order, trimmed, without empty
  entries and each URL at its first position only.\<close>

theorem Trackers_spec:
  "Trackers m = nub (filter (\<lambda>u. u \<noteq> []) (map TrimSpace (mi_Announce m # concat (AnnounceList m))))
   \<and> distinct (Trackers m)"
proof -
  have "fold (\<lambda>tier st. fold trackers_add tier st) tiers st = fold trackers_add (concat tiers) st" for tiers st
    by (induction tiers arbitrary: st) auto
  then have "Trackers m = snd (fold trackers_add (mi_Announce m # concat (AnnounceList m)) ([], []))"
    by (simp add: Trackers_def)
  then show ?thesis
    using trackers_fold [of "([], [])" "mi_Announce m # concat (AnnounceList m)"] by simp
qed

text \<open>a tracker answer with a compact peer list is read exactly: the peers come back with
  their addresses and ports, for any other fields the answer has, unless it reports a failure,
  which is an error whatever else it contains.\<close>

theorem parseResponse_compact:
  assumes "wf_any (Map dict)" and "EncodeToString (Map dict) = Inr body"
    and "map_of dict ''peers'' = Some (String (compactForm ps))" and "\<forall>p \<in> set ps. length (IP p) = 4"
  shows "parseResponse parseIP body =
    (if map_of dict ''failure reason'' = None
     then Inr \<lparr>TrackerID = string_field dict ''tracker id'', Peers = ps,
            Interval = int_field dict ''interval'', MinInterval = int_field dict ''min interval'',
            Complete = int_field dict ''complete'', Incomplete = int_field dict ''incomplete''\<rparr>
     else Inl (Errorf ''tracker failure''))"
proof -
  have "bencode_Decode body = Inr (Map dict, [])"
    using wf_any_Encode [OF assms(1), of "[]"] assms(2) by simp
  then show ?thesis
    using assms(3) compactPeers_compactForm [OF assms(4)] by (auto simp: parseResponse_def)
qed

theorem parseResponse_compact_witness:
  "\<exists>body ar. EncodeToString (Map [(''interval'', Int64 900),
       (''peers'', String (compactForm [\<lparr>IP = [10, 0, 0, 1], Port = 6881\<rparr>]))]) = Inr body \<and>
     parseResponse bytes_of body = Inr ar \<and> Peers ar = [\<lparr>IP = [10, 0, 0, 1], Port = 6881\<rparr>]"
proof -
  define d where "d = [(''interval'', Int64 900),
    (''peers'', String (compactForm [\<lparr>IP = [10, 0, 0, 1], Port = 6881\<rparr>]))]"
  have wf: "wf_any (Map d)"
    by (simp add: d_def int64_def str_ok_def maxAlloc_def compactForm_def)
  have peers: "map_of d ''peers'' = Some (String (compactForm [\<lparr>IP = [10, 0, 0, 1], Port = 6881\<rparr>]))"
    by (simp add: d_def)
  have "map_of d ''failure reason'' = None" by (simp add: d_def)
  then show ?thesis
    using parseResponse_compact [OF wf _ peers, of "enc_of (Map d)" bytes_of] wf_any_Encode [OF wf, of "[]"]
    unfolding d_def by fastforce
qed

end
