(* ===== verification/IrcMessage.thy ===== *)
theory IrcMessage
  imports Go_Prelude "HOL-Library.Multiset"
begin

text \<open>
  Package \<open>irc/irc\<close>, file \<open>message.go\<close>: messages, the parser and the formatter, tag escaping and
  the length limit of client input. A nil \<open>Tags\<close> map reads like an empty one, so both are the empty
  association list; its order is the order in which \<open>Format\<close> happens to range over the map.
\<close>

section \<open>Definitions\<close>

type_synonym Tags = "(string \<times> string) list"

definition Tags_Get :: "Tags \<Rightarrow> string \<Rightarrow> string \<times> bool" where
  "Tags_Get t key = (case map_of t key of None \<Rightarrow> ([], False) | Some v \<Rightarrow> (v, True))"

record Prefix =
  Nick :: string
  User :: string
  Host :: string

definition IsServer :: "Prefix \<Rightarrow> bool" where
  "IsServer p \<longleftrightarrow> User p = [] \<and> Host p = []"

definition Prefix_String :: "Prefix option \<Rightarrow> string" where
  "Prefix_String q =
     (case q of
        None \<Rightarrow> []
      | Some p \<Rightarrow>
          if IsServer p then Nick p
          else if Host p \<noteq> [] then Nick p @ ''!'' @ User p @ ''@'' @ Host p
          else Nick p)"

record Message =
  msg_Tags :: Tags
  msg_Prefix :: "Prefix option"
  Command :: string
  Params :: "string list"

definition Trailing :: "Message \<Rightarrow> string" where
  "Trailing m = (if Params m = [] then [] else last (Params m))"

definition Param :: "Message \<Rightarrow> int \<Rightarrow> string" where
  "Param m i = (if i < 0 \<or> i \<ge> int (length (Params m)) then [] else Params m ! nat i)"

text \<open>Values have no identity here, so the deep copy \<open>Clone\<close> makes is the value itself, field by
  field.\<close>

definition Clone :: "Message \<Rightarrow> Message" where
  "Clone m = \<lparr>msg_Tags = msg_Tags m, msg_Prefix = msg_Prefix m, Command = Command m, Params = Params m\<rparr>"

definition InputTooLong :: "string \<Rightarrow> bool" where
  "InputTooLong raw0 =
     (let raw = TrimRight raw0 CRLF
      in if HasPrefix raw ''@'' then
           (case IndexByte raw (CHR '' '') of
              None \<Rightarrow> int (length raw) - 1 > 4094
            | Some space \<Rightarrow> if int space - 1 > 4094 then True else length (drop (space + 1) raw) > 510)
         else length raw > 510)"

text \<open>\<open>tagEscaper\<close>: a replacer of single bytes replaces each byte on its own.\<close>

definition escapeTagChar :: "char \<Rightarrow> string" where
  "escapeTagChar c =
     (if c = CHR '';'' then [CHR 0x5C, CHR '':'']
      else if c = CHR '' '' then [CHR 0x5C, CHR ''s'']
      else if c = CHR 0x5C then [CHR 0x5C, CHR 0x5C]
      else if c = CR then [CHR 0x5C, CHR ''r'']
      else if c = LF then [CHR 0x5C, CHR ''n'']
      else [c])"

definition escapeTagValue :: "string \<Rightarrow> string" where
  "escapeTagValue s = concat (map escapeTagChar s)"

definition unescapeTagChar :: "char \<Rightarrow> char" where
  "unescapeTagChar c =
     (if c = CHR '':'' then CHR '';''
      else if c = CHR ''s'' then CHR '' ''
      else if c = CHR ''r'' then CR
      else if c = CHR ''n'' then LF
      else c)"

fun unescapeTagValue :: "string \<Rightarrow> string" where
  "unescapeTagValue [] = []"
| "unescapeTagValue [c] = (if c \<noteq> CHR 0x5C then [c] else [])"
| "unescapeTagValue (c # d # s) =
     (if c \<noteq> CHR 0x5C then c # unescapeTagValue (d # s)
      else unescapeTagChar d # unescapeTagValue s)"

definition parsePrefix :: "string \<Rightarrow> Prefix" where
  "parsePrefix s =
     (let (s, host) = (case IndexByte s (CHR ''@'') of None \<Rightarrow> (s, []) | Some i \<Rightarrow> (take i s, drop (i + 1) s));
          (s, user) = (case IndexByte s (CHR ''!'') of None \<Rightarrow> (s, []) | Some i \<Rightarrow> (take i s, drop (i + 1) s))
      in \<lparr>Nick = s, User = user, Host = host\<rparr>)"

definition parseTag :: "string \<Rightarrow> Tags \<Rightarrow> Tags" where
  "parseTag part tags =
     (if part = [] then tags
      else case IndexByte part (CHR ''='') of
             Some eq \<Rightarrow> AList.update (take eq part) (unescapeTagValue (drop (eq + 1) part)) tags
           | None \<Rightarrow> AList.update part [] tags)"

definition parseTags :: "string \<Rightarrow> Tags" where
  "parseTags s = fold parseTag (Split s (CHR '';'')) []"

text \<open>The parameter loop of \<open>Parse\<close>; the first element becomes the command.\<close>

function parseParams :: "string \<Rightarrow> string list" where
  "parseParams raw =
     (if raw = [] then []
      else if hd raw = CHR '':'' then [tl raw]
      else case IndexByte raw (CHR '' '') of
             None \<Rightarrow> [raw]
           | Some idx \<Rightarrow> take idx raw # parseParams (TrimLeft (drop (idx + 1) raw) '' ''))"
  by pat_completeness auto
termination
proof (relation "measure length", goal_cases)
  case (2 raw idx)
  have "length (TrimLeft (drop (idx + 1) raw) '' '') \<le> length (drop (idx + 1) raw)"
    unfolding TrimLeft_def by (rule length_dropWhile_le)
  also have "\<dots> < length raw" using 2 by simp
  finally show ?case by simp
qed simp

declare parseParams.simps [simp del]

text \<open>\<open>Parse\<close>, in the order of the source: tags, prefix, command and parameters.\<close>

definition parseTagsPart :: "string \<Rightarrow> (Tags \<times> string) result" where
  "parseTagsPart raw =
     (if raw \<noteq> [] \<and> hd raw = CHR ''@'' then
        (case IndexByte raw (CHR '' '') of
           None \<Rightarrow> Inl (Errorf ''irc: malformed message: no space after tags'')
         | Some idx \<Rightarrow> Inr (parseTags (drop 1 (take idx raw)), TrimLeft (drop (idx + 1) raw) '' ''))
      else Inr ([], raw))"

definition parsePrefixPart :: "string \<Rightarrow> (Prefix option \<times> string) result" where
  "parsePrefixPart raw =
     (if raw \<noteq> [] \<and> hd raw = CHR '':'' then
        (case IndexByte raw (CHR '' '') of
           None \<Rightarrow> Inl (Errorf ''irc: malformed message: no space after prefix'')
         | Some idx \<Rightarrow> Inr (Some (parsePrefix (drop 1 (take idx raw))), TrimLeft (drop (idx + 1) raw) '' ''))
      else Inr (None, raw))"

definition Parse :: "string \<Rightarrow> Message result" where
  "Parse raw0 =
     (let raw = TrimRight raw0 CRLF
      in if raw = [] then Inl (Errorf ''irc: empty message'')
         else
     (case parseTagsPart raw of
        Inl e \<Rightarrow> Inl e
      | Inr (tags, raw) \<Rightarrow>
     (case parsePrefixPart raw of
        Inl e \<Rightarrow> Inl e
      | Inr (pre, raw) \<Rightarrow>
          if raw = [] then Inl (Errorf ''irc: empty command'')
          else (case parseParams raw of
                  [] \<Rightarrow> Inl (Errorf ''irc: missing command'')
                | c # ps \<Rightarrow> Inr \<lparr>msg_Tags = tags, msg_Prefix = pre, Command = ToUpper c, Params = ps\<rparr>))))"

definition formatTag :: "string \<times> string \<Rightarrow> string" where
  "formatTag kv = (case kv of (k, v) \<Rightarrow> k @ (if v \<noteq> [] then ''='' @ escapeTagValue v else []))"

text \<open>The two passes over the map: server tags, then client-only tags.\<close>

definition inOrder :: "Tags \<Rightarrow> Tags" where
  "inOrder tags = filter (\<lambda>(k, v). \<not> HasPrefix k ''+'') tags @ filter (\<lambda>(k, v). HasPrefix k ''+'') tags"

definition formatTags :: "Tags \<Rightarrow> string" where
  "formatTags tags =
     (if tags = [] then [] else ''@'' @ Join (map formatTag (inOrder tags)) '';'' @ '' '')"

fun formatParams :: "string list \<Rightarrow> string" where
  "formatParams [] = []"
| "formatParams [p] = '' '' @ (if ContainsAny p '' :'' \<or> p = [] then '':'' @ p else p)"
| "formatParams (p # q # ps) = '' '' @ p @ formatParams (q # ps)"

definition Format :: "Message \<Rightarrow> string" where
  "Format m =
     formatTags (msg_Tags m) @
     (if msg_Prefix m \<noteq> None then '':'' @ Prefix_String (msg_Prefix m) @ '' '' else []) @
     Command m @ formatParams (Params m)"

definition Message_String :: "Message \<Rightarrow> string" where
  "Message_String m = Format m"

definition MustParse :: "string \<Rightarrow> Message result" where
  "MustParse raw = (case Parse raw of Inl e \<Rightarrow> Inl (Panic ''parse error'') | Inr m \<Rightarrow> Inr m)"

subsection \<open>Messages that survive the wire\<close>

definition wf_tag :: "string \<times> string \<Rightarrow> bool" where
  "wf_tag kv \<longleftrightarrow> fst kv \<noteq> [] \<and> \<not> ContainsAny (fst kv) ''=; ''"

definition wf_prefix :: "Prefix \<Rightarrow> bool" where
  "wf_prefix p \<longleftrightarrow> \<not> ContainsAny (Nick p) ''!@ '' \<and> \<not> ContainsAny (User p) ''@ '' \<and>
     \<not> ContainsAny (Host p) '' '' \<and> (Host p = [] \<longrightarrow> User p = [])"

definition wf_middle :: "string \<Rightarrow> bool" where
  "wf_middle p \<longleftrightarrow> p \<noteq> [] \<and> hd p \<noteq> CHR '':'' \<and> \<not> ContainsAny p ('' '' @ CRLF)"

definition wf_message :: "Message \<Rightarrow> bool" where
  "wf_message m \<longleftrightarrow>
     list_all wf_tag (msg_Tags m) \<and> distinct (map fst (msg_Tags m)) \<and>
     (case msg_Prefix m of None \<Rightarrow> True | Some p \<Rightarrow> wf_prefix p) \<and>
     wf_middle (Command m) \<and> hd (Command m) \<noteq> CHR ''@'' \<and> ToUpper (Command m) = Command m \<and>
     list_all wf_middle (butlast (Params m)) \<and> list_all (\<lambda>p. \<not> ContainsAny p CRLF) (Params m)"

section \<open>Library lemmas\<close>

lemma ContainsAny_iff: "ContainsAny s cs \<longleftrightarrow> (\<exists>c \<in> set s. c \<in> set cs)"
  by (auto simp: ContainsAny_def list_ex_iff)

subsection \<open>Tags\<close>

lemma unescape_escape_append:
  "unescapeTagValue (escapeTagChar c @ s) = c # unescapeTagValue s"
  by (cases s) (auto simp: escapeTagChar_def unescapeTagChar_def)

lemma unescape_escape [simp]: "unescapeTagValue (escapeTagValue v) = v"
  by (induction v) (auto simp: escapeTagValue_def unescape_escape_append)

lemma escapeTagValue_safe: "c \<in> set (escapeTagValue v) \<Longrightarrow> c \<notin> {CHR '';'', CHR '' '', CR, LF}"
  by (auto simp: escapeTagValue_def escapeTagChar_def split: if_splits)

lemma formatTag_safe:
  "wf_tag kv \<Longrightarrow> formatTag kv \<noteq> [] \<and> CHR '';'' \<notin> set (formatTag kv) \<and> CHR '' '' \<notin> set (formatTag kv)"
  using escapeTagValue_safe [of "CHR '';''"] escapeTagValue_safe [of "CHR '' ''"]
  by (cases kv) (auto simp: wf_tag_def formatTag_def ContainsAny_iff)

lemma parseTag_formatTag: "wf_tag (k, v) \<Longrightarrow> parseTag (formatTag (k, v)) tags = AList.update k v tags"
proof -
  assume "wf_tag (k, v)"
  then have "k \<noteq> []" and "CHR ''='' \<notin> set k" by (auto simp: wf_tag_def ContainsAny_iff)
  then show ?thesis by (simp add: parseTag_def formatTag_def)
qed

lemma fold_parseTag:
  "\<forall>kv \<in> set kvs. wf_tag kv \<Longrightarrow> distinct (map fst kvs) \<Longrightarrow> fst ` set kvs \<inter> fst ` set tags = {} \<Longrightarrow>
     fold parseTag (map formatTag kvs) tags = tags @ kvs"
proof (induction kvs arbitrary: tags)
  case (Cons kv kvs)
  obtain k v where kv: "kv = (k, v)" by force
  have "AList.update k v tags = tags @ [(k, v)]"
    using Cons.prems(3) kv by (intro alist_update_new) auto
  then show ?case using Cons kv by (simp add: parseTag_formatTag)
qed simp

lemma mset_inOrder: "mset (inOrder tags) = mset tags"
  by (induction tags) (auto simp: inOrder_def)

lemma set_inOrder [simp]: "set (inOrder tags) = set tags"
  using mset_inOrder mset_eq_setD by blast

lemma distinct_inOrder: "distinct (map fst tags) \<Longrightarrow> distinct (map fst (inOrder tags))"
  using mset_eq_imp_distinct_iff [of "map fst (inOrder tags)" "map fst tags"]
  by (simp add: mset_inOrder)

lemma parseTags_formatTags:
  assumes "tags \<noteq> []" and "list_all wf_tag tags" and "distinct (map fst tags)"
  shows "parseTags (Join (map formatTag (inOrder tags)) '';'') = inOrder tags"
proof -
  have wf: "\<forall>kv \<in> set (inOrder tags). wf_tag kv"
    using assms by (simp add: list_all_iff)
  have ne: "inOrder tags \<noteq> []" using assms set_inOrder [of tags] by (metis set_empty)
  have "Split (Join (map formatTag (inOrder tags)) '';'') (CHR '';'') = map formatTag (inOrder tags)"
    using wf ne formatTag_safe by (intro Split_Join) auto
  then show ?thesis
    using fold_parseTag [of "inOrder tags" "[]"] wf assms by (simp add: parseTags_def distinct_inOrder)
qed

lemma map_of_inOrder: "distinct (map fst tags) \<Longrightarrow> map_of (inOrder tags) = map_of tags"
  by (simp add: map_of_inject_set distinct_inOrder)

lemma space_notin_Join:
  "\<forall>w \<in> set ws. c \<notin> set w \<Longrightarrow> c \<notin> set sep \<Longrightarrow> c \<notin> set (Join ws sep)"
  by (induction ws rule: induct_list012) auto

lemma TrimLeft_space: "hd s \<noteq> CHR '' '' \<Longrightarrow> TrimLeft s '' '' = s"
  by (intro TrimLeft_id) simp

lemma parseTagsPart_formatTags:
  assumes "list_all wf_tag tags" and "distinct (map fst tags)"
    and "rest \<noteq> []" and "hd rest \<noteq> CHR ''@''" and "hd rest \<noteq> CHR '' ''"
  shows "parseTagsPart (formatTags tags @ rest) = Inr (inOrder tags, rest)"
proof (cases "tags = []")
  case True
  then show ?thesis using assms by (simp add: parseTagsPart_def formatTags_def inOrder_def)
next
  case False
  let ?j = "Join (map formatTag (inOrder tags)) '';''"
  have "CHR '' '' \<notin> set ?j"
    using assms formatTag_safe by (intro space_notin_Join) (auto simp: list_all_iff)
  then have "IndexByte (CHR ''@'' # ?j @ CHR '' '' # rest) (CHR '' '') = Some (Suc (length ?j))"
    by simp
  then show ?thesis
    using False assms parseTags_formatTags [OF False]
    by (simp add: parseTagsPart_def formatTags_def TrimLeft_space)
qed

subsection \<open>Prefixes\<close>

lemma parsePrefix_String: "wf_prefix p \<Longrightarrow> parsePrefix (Prefix_String (Some p)) = p"
proof -
  assume p: "wf_prefix p"
  then have n: "CHR ''@'' \<notin> set (Nick p)" "CHR ''!'' \<notin> set (Nick p)" "CHR ''@'' \<notin> set (User p)"
    by (auto simp: wf_prefix_def ContainsAny_iff)
  show ?thesis
  proof (cases "Host p = []")
    case True
    with p n show ?thesis
      by (simp add: Prefix_String_def IsServer_def parsePrefix_def wf_prefix_def)
  next
    case False
    have "IndexByte ((Nick p @ ''!'' @ User p) @ CHR ''@'' # Host p) (CHR ''@'') =
        Some (length (Nick p @ ''!'' @ User p))"
      using n by (intro IndexByte_append) auto
    with False n show ?thesis
      by (simp add: Prefix_String_def IsServer_def parsePrefix_def)
  qed
qed

lemma parsePrefixPart_format:
  assumes "case q of None \<Rightarrow> True | Some p \<Rightarrow> wf_prefix p"
    and "rest \<noteq> []" and "hd rest \<noteq> CHR '':''" and "hd rest \<noteq> CHR '' ''"
  shows "parsePrefixPart ((if q \<noteq> None then '':'' @ Prefix_String q @ '' '' else []) @ rest) = Inr (q, rest)"
proof (cases q)
  case None
  then show ?thesis using assms by (simp add: parsePrefixPart_def)
next
  case (Some p)
  then have p: "wf_prefix p" using assms by simp
  then have "CHR '' '' \<notin> set (Prefix_String (Some p))"
    by (auto simp: Prefix_String_def wf_prefix_def ContainsAny_iff)
  then show ?thesis
    using Some assms parsePrefix_String [OF p] by (simp add: parsePrefixPart_def TrimLeft_space)
qed

subsection \<open>Parameters\<close>

lemma wf_middleD:
  "wf_middle p \<Longrightarrow> p \<noteq> [] \<and> hd p \<noteq> CHR '':'' \<and> hd p \<noteq> CHR '' '' \<and> CHR '' '' \<notin> set p"
  by (cases p) (auto simp: wf_middle_def ContainsAny_iff)

lemma parseParams_last:
  "parseParams (if ContainsAny p '' :'' \<or> p = [] then '':'' @ p else p) = [p]"
proof (cases "ContainsAny p '' :'' \<or> p = []")
  case True
  then show ?thesis by (subst parseParams.simps) simp
next
  case False
  then have "p \<noteq> []" "hd p \<noteq> CHR '':''" "CHR '' '' \<notin> set p"
    by (cases p; auto simp: ContainsAny_iff)+
  with False show ?thesis by (subst parseParams.simps) simp
qed

lemma parseParams_middle:
  "wf_middle c \<Longrightarrow> hd s \<noteq> CHR '' '' \<Longrightarrow> parseParams (c @ CHR '' '' # s) = c # parseParams s"
  using wf_middleD [of c] by (subst parseParams.simps) (simp add: TrimLeft_space)

lemma parseParams_formatParams:
  "wf_middle c \<Longrightarrow> list_all wf_middle (butlast ps) \<Longrightarrow> parseParams (c @ formatParams ps) = c # ps"
proof (induction ps arbitrary: c rule: formatParams.induct)
  case 1
  then show ?case using wf_middleD [of c] by (subst parseParams.simps) simp
next
  case (2 p)
  define q where "q = (if ContainsAny p '' :'' \<or> p = [] then '':'' @ p else p)"
  have "hd q \<noteq> CHR '' ''"
    by (cases p) (auto simp: ContainsAny_iff q_def)
  moreover have "c @ formatParams [p] = c @ CHR '' '' # q" by (simp add: q_def)
  ultimately show ?case
    using parseParams_middle [OF 2(1)] parseParams_last [of p, folded q_def] by metis
next
  case (3 p q ps)
  have "wf_middle p" "list_all wf_middle (butlast (q # ps))" using 3(3) by auto
  note IH = "3.IH" [OF this]
  have "hd (p @ formatParams (q # ps)) \<noteq> CHR '' ''" using wf_middleD [of p] \<open>wf_middle p\<close> by simp
  then show ?case using parseParams_middle [OF 3(2)] IH by simp
qed

lemma formatParams_chars:
  "c \<in> set (formatParams ps) \<Longrightarrow> c = CHR '' '' \<or> c = CHR '':'' \<or> (\<exists>p \<in> set ps. c \<in> set p)"
  by (induction ps rule: formatParams.induct) (auto split: if_splits)

lemma Format_no_trailing_newline:
  assumes "wf_message m" and "set t \<subseteq> set CRLF"
  shows "TrimRight (Format m @ t) CRLF = Format m"
proof -
  let ?cp = "Command m @ formatParams (Params m)"
  have cmd: "\<forall>c \<in> set CRLF. c \<notin> set (Command m)"
    using assms(1) unfolding wf_message_def wf_middle_def ContainsAny_iff by auto
  have par: "\<forall>c \<in> set CRLF. \<forall>p \<in> set (Params m). c \<notin> set p"
    using assms(1) unfolding wf_message_def ContainsAny_iff list_all_iff by blast
  have "\<forall>c \<in> set CRLF. c \<notin> set (formatParams (Params m))"
    using par formatParams_chars [of _ "Params m"] by fastforce
  with cmd have "CR \<notin> set ?cp" "LF \<notin> set ?cp" by simp_all
  moreover have "?cp \<noteq> []" using assms by (simp add: wf_message_def wf_middle_def)
  then have "last (Format m) = last ?cp" "last ?cp \<in> set ?cp"
    by (simp add: Format_def, rule last_in_set)
  ultimately have "last (Format m) \<notin> set CRLF" by auto
  then show ?thesis using TrimRight_append_set [OF assms(2)] TrimRight_id [of "Format m" CRLF] by simp
qed

lemma Parse_Format_crlf:
  assumes "wf_message m" and "set t \<subseteq> set CRLF"
  shows "Parse (Format m @ t) = Inr (m\<lparr>msg_Tags := inOrder (msg_Tags m)\<rparr>)"
proof -
  let ?cp = "Command m @ formatParams (Params m)"
  let ?px = "if msg_Prefix m \<noteq> None then '':'' @ Prefix_String (msg_Prefix m) @ '' '' else []"
  have c: "wf_middle (Command m)" "hd (Command m) \<noteq> CHR ''@''" using assms by (auto simp: wf_message_def)
  have cp: "?cp \<noteq> []" "hd ?cp \<noteq> CHR '':''" "hd ?cp \<noteq> CHR ''@''" "hd ?cp \<noteq> CHR '' ''"
    using c wf_middleD [OF c(1)] by auto
  have px: "?px @ ?cp \<noteq> []" "hd (?px @ ?cp) \<noteq> CHR ''@''" "hd (?px @ ?cp) \<noteq> CHR '' ''"
    using cp by auto
  have "parseTagsPart (Format m) = Inr (inOrder (msg_Tags m), ?px @ ?cp)"
    unfolding Format_def using assms px by (intro parseTagsPart_formatTags) (auto simp: wf_message_def)
  moreover have "parsePrefixPart (?px @ ?cp) = Inr (msg_Prefix m, ?cp)"
    using assms cp by (intro parsePrefixPart_format) (auto simp: wf_message_def)
  moreover have "parseParams ?cp = Command m # Params m"
    using assms by (intro parseParams_formatParams) (auto simp: wf_message_def)
  moreover have "TrimRight (Format m @ t) CRLF = Format m"
    by (rule Format_no_trailing_newline [OF assms])
  moreover have "Format m \<noteq> []" using px by (simp add: Format_def)
  moreover have "ToUpper (Command m) = Command m" using assms by (simp add: wf_message_def)
  ultimately show ?thesis using cp by (simp add: Parse_def)
qed

subsection \<open>What the parser returns\<close>

lemma parseParams_not_Nil [simp]: "raw \<noteq> [] \<Longrightarrow> parseParams raw \<noteq> []"
  by (subst parseParams.simps) (simp split: option.split)

lemma parseParams_Nil [simp]: "parseParams [] = []"
  by (subst parseParams.simps) simp

lemma parseParams_cases:
  assumes "p \<in> set (butlast (parseParams raw))"
  obtains idx where "raw \<noteq> []" "hd raw \<noteq> CHR '':''" "IndexByte raw (CHR '' '') = Some idx"
    "parseParams raw = take idx raw # parseParams (TrimLeft (drop (idx + 1) raw) '' '')"
proof -
  have "raw \<noteq> []" using assms by auto
  moreover have "hd raw \<noteq> CHR '':''"
    using assms calculation by (subst (asm) parseParams.simps) (simp split: if_splits)
  moreover have "IndexByte raw (CHR '' '') \<noteq> None"
  proof
    assume "IndexByte raw (CHR '' '') = None"
    then have "parseParams raw = [raw]" using calculation by (subst parseParams.simps) (simp split: option.split)
    with assms show False by simp
  qed
  ultimately show ?thesis using that by (subst (asm) parseParams.simps) (force split: option.splits)
qed

lemma TrimLeft_hd: "TrimLeft s '' '' = [] \<or> hd (TrimLeft s '' '') \<noteq> CHR '' ''"
  unfolding TrimLeft_def by (induction s) auto

lemma parseParams_middle_ok:
  "raw = [] \<or> hd raw \<noteq> CHR '' '' \<Longrightarrow> p \<in> set (butlast (parseParams raw)) \<Longrightarrow>
     p \<noteq> [] \<and> hd p \<noteq> CHR '':'' \<and> CHR '' '' \<notin> set p"
proof (induction raw rule: parseParams.induct)
  case (1 raw)
  obtain idx where raw: "raw \<noteq> []" "hd raw \<noteq> CHR '':''" "IndexByte raw (CHR '' '') = Some idx"
      "parseParams raw = take idx raw # parseParams (TrimLeft (drop (idx + 1) raw) '' '')"
    using parseParams_cases [OF 1(3)] by blast
  have idx: "idx < length raw" "raw ! idx = CHR '' ''" "CHR '' '' \<notin> set (take idx raw)"
    using IndexByte_SomeD [OF raw(3)] by auto
  then have pos: "0 < idx" using 1(2) raw(1) by (cases idx) (auto simp: hd_conv_nth)
  show ?case
  proof (cases "p = take idx raw")
    case True
    then show ?thesis using pos raw(1,2) idx by (simp add: hd_take)
  next
    case False
    then have "p \<in> set (butlast (parseParams (TrimLeft (drop (idx + 1) raw) '' '')))"
      using 1(3) raw(4) by (simp split: if_splits)
    then show ?thesis
      using 1(1) [OF raw(1,2,3) TrimLeft_hd] by blast
  qed
qed

lemma parseParams_tail_ok:
  assumes "p \<in> set (butlast (tl (parseParams raw)))"
  shows "p \<noteq> [] \<and> hd p \<noteq> CHR '':'' \<and> CHR '' '' \<notin> set p"
proof -
  have "p \<in> set (butlast (parseParams raw))" using assms by (cases "parseParams raw") auto
  then obtain idx where "parseParams raw = take idx raw # parseParams (TrimLeft (drop (idx + 1) raw) '' '')"
    using parseParams_cases by blast
  then show ?thesis
    using parseParams_middle_ok [OF TrimLeft_hd] assms by simp
qed

section \<open>Properties\<close>

text \<open>C19: parsing inverts formatting. A message whose fields can be told apart on the wire (tag
  keys and prefix parts without delimiters, an upper-case command, middle parameters that are not
  empty, have no space and do not start with a colon, no line breaks) is read back from its wire
  form, with or without the line ending: same prefix, command and parameters, and the same tag
  map.\<close>

theorem irc_Parse_Format:
  assumes "wf_message m" and "t \<in> {[], CRLF}"
  shows "\<exists>tags. Parse (Format m @ t) = Inr (m\<lparr>msg_Tags := tags\<rparr>) \<and> map_of tags = map_of (msg_Tags m)"
  using Parse_Format_crlf [OF assms(1), of t] assms map_of_inOrder [of "msg_Tags m"]
  by (auto simp: wf_message_def)

theorem irc_Parse_Format_witness:
  "\<exists>tags. Parse (Format \<lparr>msg_Tags = [(''+draft/x'', ''a;b c''), (''time'', ''now'')],
       msg_Prefix = Some \<lparr>Nick = ''al'', User = ''u'', Host = ''h.example''\<rparr>,
       Command = ''PRIVMSG'', Params = [''#chan'', ''hi there'']\<rparr> @ CRLF) =
     Inr \<lparr>msg_Tags = tags, msg_Prefix = Some \<lparr>Nick = ''al'', User = ''u'', Host = ''h.example''\<rparr>,
       Command = ''PRIVMSG'', Params = [''#chan'', ''hi there'']\<rparr> \<and>
     map_of tags = map_of [(''+draft/x'', ''a;b c''), (''time'', ''now'')]"
  using irc_Parse_Format [of "\<lparr>msg_Tags = [(''+draft/x'', ''a;b c''), (''time'', ''now'')],
      msg_Prefix = Some \<lparr>Nick = ''al'', User = ''u'', Host = ''h.example''\<rparr>,
      Command = ''PRIVMSG'', Params = [''#chan'', ''hi there'']\<rparr>" CRLF]
  by (simp add: wf_message_def wf_tag_def wf_prefix_def wf_middle_def ContainsAny_def ToUpper_def upper_def)

text \<open>every tag value survives escaping, and an escaped value has none of the bytes that
  delimit tags or lines, whatever the value contains.\<close>

theorem irc_tag_escape:
  "unescapeTagValue (escapeTagValue v) = v \<and> \<not> ContainsAny (escapeTagValue v) (''; '' @ CRLF)"
  using escapeTagValue_safe [of _ v] by (auto simp: ContainsAny_iff)

text \<open>what \<open>Parse\<close> accepts: the command is upper case, every parameter but the last is
  non-empty, has no space and does not start with a colon, and there is no error for a missing
  command because the parameter loop always yields one.\<close>

theorem irc_Parse_shape:
  "case Parse raw of
     Inr m \<Rightarrow> ToUpper (Command m) = Command m \<and>
       list_all (\<lambda>p. p \<noteq> [] \<and> hd p \<noteq> CHR '':'' \<and> CHR '' '' \<notin> set p) (butlast (Params m))
   | Inl e \<Rightarrow> e \<noteq> Errorf ''irc: missing command''"
proof (cases "Parse raw")
  case (Inl e)
  then show ?thesis
    by (auto simp: Parse_def Let_def parseTagsPart_def parsePrefixPart_def
        split: if_splits option.splits list.splits)
next
  case (Inr m)
  then obtain r c ps where r: "parseParams r = c # ps" "Command m = ToUpper c" "Params m = ps"
    by (auto simp: Parse_def Let_def split: if_splits sum.splits list.splits)
  have "p \<noteq> [] \<and> hd p \<noteq> CHR '':'' \<and> CHR '' '' \<notin> set p" if "p \<in> set (butlast ps)" for p
    using parseParams_tail_ok [of p r] that r(1) by simp
  then show ?thesis using Inr r by (simp add: list_all_iff)
qed

text \<open>the input limit: a line that is not too long is at most 4096 bytes of tags, from the at
  sign to the space, followed by at most 510 bytes, and no line with more than 510 bytes after
  its tags passes.\<close>

theorem irc_InputTooLong_bound:
  assumes "\<not> InputTooLong raw"
  shows "\<exists>tags rest. TrimRight raw CRLF = tags @ rest \<and> length tags \<le> 4096 \<and> length rest \<le> 510 \<and>
    (tags \<noteq> [] \<longrightarrow> hd tags = CHR ''@'')"
proof (cases "HasPrefix (TrimRight raw CRLF) ''@''")
  case True
  then obtain u where u: "TrimRight raw CRLF = CHR ''@'' # u" by auto
  show ?thesis
  proof (cases "IndexByte (TrimRight raw CRLF) (CHR '' '')")
    case None
    then show ?thesis
      using assms True u by (intro exI [of _ "TrimRight raw CRLF"] exI [of _ "[]"]) (simp add: InputTooLong_def)
  next
    case (Some space)
    then show ?thesis
      using assms True u
      by - (rule exI [of _ "take (space + 1) (TrimRight raw CRLF)"],
         rule exI [of _ "drop (space + 1) (TrimRight raw CRLF)"],
         auto simp: InputTooLong_def split: if_splits)
  qed
next
  case False
  then show ?thesis
    using assms
    by - (rule exI [of _ "[]"], rule exI [of _ "TrimRight raw CRLF"], simp add: InputTooLong_def Let_def)
qed

theorem irc_InputTooLong_bound_witness:
  "\<exists>tags rest. TrimRight (''@a=b PING x'' @ CRLF) CRLF = tags @ rest \<and> length tags \<le> 4096 \<and> length rest \<le> 510"
proof -
  have "\<not> InputTooLong (''@a=b PING x'' @ CRLF)" by code_simp
  from irc_InputTooLong_bound [OF this] show ?thesis by blast
qed

text \<open>a prefix with a user but no host loses the user when the message is formatted again, and
  the line made of a colon, a space and a colon is accepted as a message with an empty
  command.\<close>

theorem irc_prefix_user_lost:
  "Parse '':n!u PING'' = Inr \<lparr>msg_Tags = [], msg_Prefix = Some \<lparr>Nick = ''n'', User = ''u'', Host = []\<rparr>,
     Command = ''PING'', Params = []\<rparr> \<and>
   Format \<lparr>msg_Tags = [], msg_Prefix = Some \<lparr>Nick = ''n'', User = ''u'', Host = []\<rparr>,
     Command = ''PING'', Params = []\<rparr> = '':n PING'' \<and>
   Parse '': :'' = Inr \<lparr>msg_Tags = [], msg_Prefix = Some \<lparr>Nick = [], User = [], Host = []\<rparr>,
     Command = [], Params = []\<rparr>"
  by code_simp

end
