(* ===== verification/IrcMode.thy ===== *)
theory IrcMode
  imports Go_Prelude
begin

text \<open>
  File \<open>irc/irc/mode.go\<close> (mode strings) and package \<open>irc/server/mode\<close> (the mode set of a channel or
  user). A mode rune is a character; the maps of a \<open>Set\<close> are association lists in iteration order.
\<close>

section \<open>Definitions\<close>

record ModeChange =
  Add :: bool
  Mode :: char
  Arg :: string

definition modeNeedsArg :: "char \<Rightarrow> bool \<Rightarrow> bool" where
  "modeNeedsArg m add =
     (if List.member ''oOhvbeIqak'' m then True else if m = CHR ''l'' then add else False)"

text \<open>The loop of \<open>ParseModeString\<close> with its variables \<open>add\<close> and the arguments not consumed yet.\<close>

fun parseModes :: "bool \<Rightarrow> string \<Rightarrow> string list \<Rightarrow> ModeChange list" where
  "parseModes add [] args = []"
| "parseModes add (ch # modes) args =
     (if ch = CHR ''+'' then parseModes True modes args
      else if ch = CHR ''-'' then parseModes False modes args
      else if args \<noteq> [] \<and> modeNeedsArg ch add
      then \<lparr>Add = add, Mode = ch, Arg = hd args\<rparr> # parseModes add modes (tl args)
      else \<lparr>Add = add, Mode = ch, Arg = []\<rparr> # parseModes add modes args)"

definition ParseModeString :: "string \<Rightarrow> string list \<Rightarrow> ModeChange list" where
  "ParseModeString modes args = parseModes True modes args"

definition signOf :: "bool \<Rightarrow> char" where
  "signOf add = (if add then CHR ''+'' else CHR ''-'')"

fun formatModes :: "bool \<Rightarrow> ModeChange list \<Rightarrow> string \<times> string list" where
  "formatModes add [] = ([], [])"
| "formatModes add (mc # cs) =
     (case formatModes (Add mc) cs of (s, args) \<Rightarrow>
        ((if Add mc \<noteq> add then [signOf (Add mc)] else []) @ [Mode mc] @ s,
         (if Arg mc \<noteq> [] then [Arg mc] else []) @ args))"

definition FormatModeChanges :: "ModeChange list \<Rightarrow> string \<times> string list" where
  "FormatModeChanges changes =
     (if changes = [] then ([], [])
      else case formatModes (Add (hd changes)) changes of
             (s, args) \<Rightarrow> (signOf (Add (hd changes)) # s, args))"

subsection \<open>Package server/mode\<close>

record Set =
  flags :: "(char \<times> bool) list"
  args :: "(char \<times> string) list"
  lists :: "(char \<times> string list) list"

definition mode_New :: Set where
  "mode_New = \<lparr>flags = [], args = [], lists = []\<rparr>"

definition mode_Clone :: "Set \<Rightarrow> Set" where
  "mode_Clone s = \<lparr>flags = flags s, args = args s, lists = lists s\<rparr>"

definition mode_Has :: "Set \<Rightarrow> char \<Rightarrow> bool" where
  "mode_Has s m = (case map_of (flags s) m of None \<Rightarrow> False | Some b \<Rightarrow> b)"

definition mode_Arg :: "Set \<Rightarrow> char \<Rightarrow> string \<times> bool" where
  "mode_Arg s m = (case map_of (args s) m of None \<Rightarrow> ([], False) | Some v \<Rightarrow> (v, True))"

definition mode_List :: "Set \<Rightarrow> char \<Rightarrow> string list" where
  "mode_List s m = (case map_of (lists s) m of None \<Rightarrow> [] | Some l \<Rightarrow> l)"

definition mode_String :: "Set \<Rightarrow> string" where
  "mode_String s =
     ''+'' @ map fst (flags s) @ map fst (args s) @
     (if args s \<noteq> [] then '' '' @ Join (map snd (args s)) '' '' else [])"

datatype ModeType = TypeFlag | TypeArgAlways | TypeArgSet | TypeArgUnset | TypeList | TypeUnknown

text \<open>A \<open>ModeValidator\<close> is the pair of its methods.\<close>

record ModeValidator =
  vType :: "char \<Rightarrow> ModeType"
  ValidateArg :: "char \<Rightarrow> bool \<Rightarrow> string \<Rightarrow> string result"

text \<open>One change of \<open>Apply\<close>: the new set and the change actually applied, if any.\<close>

definition applyChange :: "ModeValidator \<Rightarrow> Set \<Rightarrow> ModeChange \<Rightarrow> Set \<times> ModeChange option" where
  "applyChange v s mc =
     (case vType v (Mode mc) of
        TypeFlag \<Rightarrow>
          if Add mc then
            (if \<not> mode_Has s (Mode mc) then (s\<lparr>flags := AList.update (Mode mc) True (flags s)\<rparr>, Some mc)
             else (s, None))
          else
            (if mode_Has s (Mode mc) then (s\<lparr>flags := AList.delete (Mode mc) (flags s)\<rparr>, Some mc)
             else (s, None))
      | TypeList \<Rightarrow>
          if Add mc then
            (case ValidateArg v (Mode mc) True (Arg mc) of
               Inl e \<Rightarrow> (s, None)
             | Inr canonical \<Rightarrow>
                 if List.member (mode_List s (Mode mc)) canonical then (s, None)
                 else (s\<lparr>lists := AList.update (Mode mc) (mode_List s (Mode mc) @ [canonical]) (lists s)\<rparr>,
                       Some \<lparr>Add = True, Mode = Mode mc, Arg = canonical\<rparr>))
          else
            (if List.member (mode_List s (Mode mc)) (Arg mc)
             then (s\<lparr>lists := AList.update (Mode mc) (remove1 (Arg mc) (mode_List s (Mode mc))) (lists s)\<rparr>, Some mc)
             else (s, None))
      | TypeUnknown \<Rightarrow> (s, None)
      | TypeArgUnset \<Rightarrow> (s, None)
      | _ \<Rightarrow>
          if Add mc then
            (case ValidateArg v (Mode mc) True (Arg mc) of
               Inl e \<Rightarrow> (s, None)
             | Inr canonical \<Rightarrow>
                 (s\<lparr>args := AList.update (Mode mc) canonical (args s)\<rparr>,
                  Some \<lparr>Add = True, Mode = Mode mc, Arg = canonical\<rparr>))
          else
            (if map_of (args s) (Mode mc) \<noteq> None
             then (s\<lparr>args := AList.delete (Mode mc) (args s)\<rparr>, Some mc)
             else (s, None)))"

fun Apply :: "ModeValidator \<Rightarrow> Set \<Rightarrow> ModeChange list \<Rightarrow> Set \<times> ModeChange list" where
  "Apply v s [] = (s, [])"
| "Apply v s (mc # changes) =
     (case applyChange v s mc of (s', res) \<Rightarrow>
        (case Apply v s' changes of (s'', applied) \<Rightarrow>
           (s'', (case res of None \<Rightarrow> [] | Some c \<Rightarrow> [c]) @ applied)))"

definition ChannelValidator_Type :: "char \<Rightarrow> ModeType" where
  "ChannelValidator_Type m =
     (if List.member ''imnsptrzcCSGNufjQKLPOART'' m then TypeFlag
      else if m = CHR ''k'' then TypeArgSet
      else if m = CHR ''l'' then TypeArgSet
      else if List.member ''ohvaq'' m then TypeArgAlways
      else if List.member ''beI'' m then TypeList
      else TypeUnknown)"

definition ChannelValidator :: ModeValidator where
  "ChannelValidator = \<lparr>vType = ChannelValidator_Type, ValidateArg = (\<lambda>_ _ arg. Inr arg)\<rparr>"

definition UserValidator_Type :: "char \<Rightarrow> ModeType" where
  "UserValidator_Type m = (if List.member ''iowrxzWgB'' m then TypeFlag else TypeUnknown)"

definition UserValidator :: ModeValidator where
  "UserValidator = \<lparr>vType = UserValidator_Type, ValidateArg = (\<lambda>_ _ arg. Inr arg)\<rparr>"

text \<open>What every operation keeps: no key twice, stored flags are true, no list holds an entry
  twice.\<close>

definition mode_inv :: "Set \<Rightarrow> bool" where
  "mode_inv s \<longleftrightarrow> distinct (map fst (flags s)) \<and> list_all snd (flags s) \<and>
     distinct (map fst (args s)) \<and> distinct (map fst (lists s)) \<and> list_all (distinct \<circ> snd) (lists s)"

text \<open>Changes that a mode string can carry: the mode is no sign, and an argument is there
  exactly when the mode consumes one.\<close>

definition wf_change :: "ModeChange \<Rightarrow> bool" where
  "wf_change mc \<longleftrightarrow> Mode mc \<noteq> CHR ''+'' \<and> Mode mc \<noteq> CHR ''-'' \<and>
     (Arg mc \<noteq> [] \<longleftrightarrow> modeNeedsArg (Mode mc) (Add mc))"

section \<open>Library lemmas\<close>

lemma parse_formatModes:
  "list_all wf_change cs \<Longrightarrow> parseModes add (fst (formatModes add cs)) (snd (formatModes add cs)) = cs"
proof (induction cs arbitrary: add)
  case (Cons mc cs)
  then have mc: "wf_change mc" by simp
  have IH: "parseModes (Add mc) (fst (formatModes (Add mc) cs)) (snd (formatModes (Add mc) cs)) = cs"
    using Cons by simp
  have step: "parseModes (Add mc) (Mode mc # fst (formatModes (Add mc) cs))
      ((if Arg mc \<noteq> [] then [Arg mc] else []) @ snd (formatModes (Add mc) cs)) = mc # cs"
    using mc IH by (cases "Arg mc = []") (auto simp: wf_change_def)
  show ?case
    using mc step by (cases "Add mc = add") (auto simp: case_prod_beta signOf_def wf_change_def)
qed simp

lemma mode_inv_New: "mode_inv mode_New"
  by (simp add: mode_inv_def mode_New_def)

lemma mode_inv_values:
  "mode_inv s \<Longrightarrow> map_of (flags s) m = Some b \<Longrightarrow> b"
  "mode_inv s \<Longrightarrow> distinct (mode_List s m)"
  by (force simp: mode_inv_def mode_List_def list_all_iff split: option.split dest: map_of_SomeD)+

lemma list_all_alist_update:
  "list_all P xs \<Longrightarrow> P (k, v) \<Longrightarrow> list_all P (AList.update k v xs)"
  by (induction xs) auto

lemma list_all_alist_delete: "list_all P xs \<Longrightarrow> list_all P (AList.delete k xs)"
  by (induction xs) (auto simp: AList.delete_eq)

lemma distinct_alist_delete: "distinct (map fst xs) \<Longrightarrow> distinct (map fst (AList.delete k xs))"
  by (rule distinct_delete)

lemmas mode_inv_intros = list_all_alist_update list_all_alist_delete distinct_alist_delete distinct_update

text \<open>
  The interface of a validator: its canonical form of an argument is a fixed point. The server's
  promise to its clients rests on it: the changes \<open>Apply\<close> reports, which the server broadcasts,
  applied to the same state have the same effect.
\<close>

locale mode_validator =
  fixes v :: ModeValidator
  assumes canonical: "ValidateArg v m add a = Inr c \<Longrightarrow> ValidateArg v m add c = Inr c"
begin

lemma applyChange_replay:
  "applyChange v s mc = (s', Some c) \<Longrightarrow> applyChange v s c = (s', Some c) \<and> Mode c = Mode mc \<and> Add c = Add mc"
  using canonical [of "Mode mc" True "Arg mc"]
  by (cases "vType v (Mode mc)"; cases "ValidateArg v (Mode mc) True (Arg mc)")
     (auto simp: applyChange_def split: if_splits)

lemma applyChange_none: "applyChange v s mc = (s', None) \<Longrightarrow> s' = s"
  by (cases "vType v (Mode mc)"; cases "ValidateArg v (Mode mc) True (Arg mc)")
     (auto simp: applyChange_def split: if_splits)

lemma applyChange_inv:
  assumes "mode_inv s"
  shows "mode_inv (fst (applyChange v s mc))"
  using assms mode_inv_values(2) [OF assms, of "Mode mc"]
  by (cases "vType v (Mode mc)"; cases "ValidateArg v (Mode mc) True (Arg mc)")
     (auto simp: applyChange_def mode_inv_def intro!: mode_inv_intros)

lemma Apply_replay: "Apply v s cs = (s', applied) \<Longrightarrow> Apply v s applied = (s', applied)"
proof (induction cs arbitrary: s s' applied)
  case (Cons mc cs)
  obtain s1 res where a: "applyChange v s mc = (s1, res)" by force
  obtain s2 rest where b: "Apply v s1 cs = (s2, rest)" by force
  note IH = Cons.IH [OF b]
  show ?case
  proof (cases res)
    case None
    then show ?thesis using a b IH Cons.prems applyChange_none [of s mc s1] by simp
  next
    case (Some c)
    then show ?thesis using a b IH Cons.prems applyChange_replay [of s mc s1 c] by auto
  qed
qed simp

lemma Apply_inv: "mode_inv s \<Longrightarrow> mode_inv (fst (Apply v s cs))"
proof (induction cs arbitrary: s)
  case (Cons mc cs)
  then show ?case
    using applyChange_inv [of s mc] by (simp add: case_prod_beta)
qed simp

end

interpretation channel_validator: mode_validator ChannelValidator
  by unfold_locales (simp add: ChannelValidator_def)

interpretation user_validator: mode_validator UserValidator
  by unfold_locales (simp add: UserValidator_def)

section \<open>Properties\<close>

text \<open>mode strings round trip: changes in which exactly the modes that take an argument have
  one are formatted to a mode string and arguments that parse back to the same changes.\<close>

theorem mode_string_roundtrip:
  assumes "list_all wf_change cs"
  shows "(case FormatModeChanges cs of (s, as) \<Rightarrow> ParseModeString s as) = cs"
proof (cases cs)
  case Nil
  then show ?thesis by (simp add: FormatModeChanges_def ParseModeString_def)
next
  case (Cons mc rest)
  then show ?thesis
    using parse_formatModes [OF assms, of "Add mc"]
    by (auto simp: FormatModeChanges_def ParseModeString_def signOf_def case_prod_beta)
qed

theorem mode_string_roundtrip_witness:
  "(case FormatModeChanges [\<lparr>Add = True, Mode = CHR ''o'', Arg = ''al''\<rparr>, \<lparr>Add = False, Mode = CHR ''l'', Arg = []\<rparr>]
    of (s, as) \<Rightarrow> ParseModeString s as) =
     [\<lparr>Add = True, Mode = CHR ''o'', Arg = ''al''\<rparr>, \<lparr>Add = False, Mode = CHR ''l'', Arg = []\<rparr>]"
  by (rule mode_string_roundtrip) (simp add: wf_change_def modeNeedsArg_def)

text \<open>C37: the changes \<open>Apply\<close> returns are what happened: a client that applies the broadcast changes
  to the state the channel had reaches the state the channel has now, and every one of them is
  effective again. Every mode set keeps its invariant: no mode twice, no ban, exception or
  invite entry twice.\<close>

theorem mode_Apply_replay:
  assumes "Apply ChannelValidator s cs = (s', applied)"
  shows "Apply ChannelValidator s applied = (s', applied) \<and> (mode_inv s \<longrightarrow> mode_inv s')"
  using channel_validator.Apply_replay [OF assms] channel_validator.Apply_inv [of s cs] assms by simp

theorem mode_Apply_replay_witness:
  "\<exists>s' applied. Apply ChannelValidator mode_New
       (ParseModeString ''+nnb-t+b'' [''*!*@x'', ''*!*@x'']) = (s', applied) \<and>
     Apply ChannelValidator mode_New applied = (s', applied) \<and> mode_inv s'"
  using mode_Apply_replay [of mode_New "ParseModeString ''+nnb-t+b'' [''*!*@x'', ''*!*@x'']"] mode_inv_New
  by (metis surj_pair)

text \<open>\<open>ParseModeString\<close> lets the flag \<open>O\<close> consume an argument although the channel validator
  treats it as a flag, so in \<open>+Ol 5\<close> the limit loses its argument and is stored empty.\<close>

theorem mode_O_steals_argument:
  "fst (Apply ChannelValidator mode_New (ParseModeString ''+Ol'' [''5''])) =
     \<lparr>flags = [(CHR ''O'', True)], args = [(CHR ''l'', [])], lists = []\<rparr>"
  by code_simp

end
