(* ===== verification/IrcHistory.thy ===== *)
theory IrcHistory
  imports IrcMessage
begin

text \<open>
  Packages \<open>irc/internal/ringbuf\<close> and \<open>irc/bouncer/history\<close>, and file \<open>irc/irc/chathistory.go\<close>: the
  ring buffer, the history store that keeps one per network and target, and the selection of
  history entries. A \<open>time.Time\<close> is the instant it names, an integer number of nanoseconds;
  \<open>time.Parse\<close> is a parameter of the selection.
\<close>

section \<open>Definitions\<close>

record 'a RingBuf =
  buf :: "'a list"
  head :: nat
  rb_size :: nat
  rb_cap :: nat

text \<open>\<open>zero\<close> is the zero value of the element type.\<close>

definition ringbuf_New :: "'a \<Rightarrow> int \<Rightarrow> 'a RingBuf" where
  "ringbuf_New zero capacity =
     (let c = (if capacity \<le> 0 then 1 else nat capacity)
      in \<lparr>buf = replicate c zero, head = 0, rb_size = 0, rb_cap = c\<rparr>)"

definition Push :: "'a RingBuf \<Rightarrow> 'a \<Rightarrow> 'a RingBuf" where
  "Push r v =
     (if rb_size r = rb_cap r
      then r\<lparr>buf := (buf r)[head r := v], head := (head r + 1) mod rb_cap r\<rparr>
      else r\<lparr>buf := (buf r)[(head r + rb_size r) mod rb_cap r := v], rb_size := rb_size r + 1\<rparr>)"

definition ringbuf_Len :: "'a RingBuf \<Rightarrow> nat" where
  "ringbuf_Len r = rb_size r"

definition Slice :: "'a RingBuf \<Rightarrow> 'a list" where
  "Slice r = map (\<lambda>i. buf r ! ((head r + i) mod rb_cap r)) [0..<rb_size r]"

text \<open>\<open>Last\<close>: a negative \<open>n\<close> reaches \<open>make\<close> and panics.\<close>

definition Last :: "'a RingBuf \<Rightarrow> int \<Rightarrow> 'a list result" where
  "Last r n =
     (let k = (if n > int (rb_size r) then int (rb_size r) else n)
      in if k < 0 then Inl (Panic ''makeslice: len out of range'')
         else let start = rb_size r - nat k
              in Inr (map (\<lambda>i. buf r ! ((head r + start + i) mod rb_cap r)) [0..<nat k]))"

text \<open>\<open>ForEach\<close>: the callback threads its own state and says whether to go on.\<close>

fun forEachFrom :: "('a \<Rightarrow> 's \<Rightarrow> bool \<times> 's) \<Rightarrow> 'a list \<Rightarrow> 's \<Rightarrow> 's" where
  "forEachFrom fn [] s = s"
| "forEachFrom fn (x # xs) s = (case fn x s of (go, s') \<Rightarrow> if go then forEachFrom fn xs s' else s')"

definition ForEach :: "('a \<Rightarrow> 's \<Rightarrow> bool \<times> 's) \<Rightarrow> 'a RingBuf \<Rightarrow> 's \<Rightarrow> 's" where
  "ForEach fn r s = forEachFrom fn (map (\<lambda>i. buf r ! ((head r + i) mod rb_cap r)) [0..<rb_size r]) s"

subsection \<open>The memory store\<close>

type_synonym time = int

record Entry =
  Time :: time
  Msg :: Message

record Query =
  Before :: "time option"
  After :: "time option"
  Around :: "time option"
  AfterMsgID :: string
  Limit :: int

definition defaultLimit :: int where
  "defaultLimit = 500"

record MemoryStore =
  buffers :: "(string \<times> Entry RingBuf) list"
  limit :: int

definition NewMemoryStore :: "int \<Rightarrow> MemoryStore" where
  "NewMemoryStore l = \<lparr>buffers = [], limit = (if l \<le> 0 then defaultLimit else l)\<rparr>"

definition store_key :: "string \<Rightarrow> string \<Rightarrow> string" where
  "store_key network target = network @ [NUL] @ target"

definition zeroEntry :: Entry where
  "zeroEntry = \<lparr>Time = 0, Msg = \<lparr>msg_Tags = [], msg_Prefix = None, Command = [], Params = []\<rparr>\<rparr>"

text \<open>\<open>buf\<close> makes the buffer of a key when there is none.\<close>

definition store_buf :: "MemoryStore \<Rightarrow> string \<Rightarrow> MemoryStore \<times> Entry RingBuf" where
  "store_buf m k =
     (case map_of (buffers m) k of
        Some b \<Rightarrow> (m, b)
      | None \<Rightarrow> let b = ringbuf_New zeroEntry (limit m)
                in (m\<lparr>buffers := AList.update k b (buffers m)\<rparr>, b))"

definition Append :: "MemoryStore \<Rightarrow> string \<Rightarrow> string \<Rightarrow> time \<Rightarrow> Message \<Rightarrow> MemoryStore" where
  "Append m network target t msg =
     (let k = store_key network target
      in case store_buf m k of (m', b) \<Rightarrow>
           m'\<lparr>buffers := AList.update k (Push b \<lparr>Time = t, Msg = Clone msg\<rparr>) (buffers m')\<rparr>)"

definition msgid_of :: "Entry \<Rightarrow> string" where
  "msgid_of e = fst (Tags_Get (msg_Tags (Msg e)) ''msgid'')"

text \<open>The position after the first entry with the wanted message ID, the end when there is none.\<close>

fun startAfter :: "string \<Rightarrow> Entry list \<Rightarrow> nat" where
  "startAfter mid [] = 0"
| "startAfter mid (e # es) = (if msgid_of e = mid then 1 else Suc (startAfter mid es))"

definition selectEntries :: "Query \<Rightarrow> Entry list \<Rightarrow> Entry list" where
  "selectEntries q all =
     (let lim = (if Limit q \<le> 0 then defaultLimit else Limit q);
          start = (if AfterMsgID q \<noteq> [] then startAfter (AfterMsgID q) all else 0);
          result = filter (\<lambda>e. (case Before q of None \<Rightarrow> True | Some b \<Rightarrow> Time e < b) \<and>
                               (case After q of None \<Rightarrow> True | Some a \<Rightarrow> Time e > a)) (drop start all)
      in if int (length result) > lim then drop (length result - nat lim) result else result)"

definition store_Query :: "MemoryStore \<Rightarrow> string \<Rightarrow> string \<Rightarrow> Query \<Rightarrow> MemoryStore \<times> Entry list" where
  "store_Query m network target q =
     (case store_buf m (store_key network target) of (m', b) \<Rightarrow> (m', selectEntries q (Slice b)))"

subsection \<open>CHATHISTORY selection\<close>

record messageReference =
  ref_time :: time
  msgid :: string
  index :: nat
  found :: bool

definition latest :: "Entry list \<Rightarrow> int \<Rightarrow> Entry list \<times> bool" where
  "latest entries lim =
     (if int (length entries) > lim then (drop (length entries - nat lim) entries, False)
      else (entries, True))"

definition earliest :: "Entry list \<Rightarrow> int \<Rightarrow> Entry list \<times> bool" where
  "earliest entries lim =
     (if int (length entries) > lim then (take (nat lim) entries, False) else (entries, True))"

definition filterHistory :: "Entry list \<Rightarrow> (Entry \<Rightarrow> nat \<Rightarrow> bool) \<Rightarrow> Entry list" where
  "filterHistory entries keep = map fst (filter (\<lambda>(e, i). keep e i) (zip entries [0..<length entries]))"

definition beforeReference :: "Entry \<Rightarrow> nat \<Rightarrow> messageReference \<Rightarrow> bool" where
  "beforeReference e i ref = (if msgid ref \<noteq> [] then i < index ref else Time e < ref_time ref)"

definition afterReference :: "Entry \<Rightarrow> nat \<Rightarrow> messageReference \<Rightarrow> bool" where
  "afterReference e i ref = (if msgid ref \<noteq> [] then i > index ref else Time e > ref_time ref)"

definition noReference :: messageReference where
  "noReference = \<lparr>ref_time = 0, msgid = [], index = 0, found = False\<rparr>"

fun findMsgid :: "string \<Rightarrow> nat \<Rightarrow> Entry list \<Rightarrow> messageReference" where
  "findMsgid mid i [] = noReference"
| "findMsgid mid i (e # es) =
     (if msgid_of e = mid then \<lparr>ref_time = Time e, msgid = mid, index = i, found = True\<rparr>
      else findMsgid mid (Suc i) es)"

definition parseMessageReference ::
  "(string \<Rightarrow> time option) \<Rightarrow> Entry list \<Rightarrow> string \<Rightarrow> messageReference result" where
  "parseMessageReference timeParse entries selector =
     (if HasPrefix selector ''timestamp='' then
        (case timeParse (TrimPrefix selector ''timestamp='') of
           None \<Rightarrow> Inl (Errorf ''invalid timestamp'')
         | Some t \<Rightarrow> Inr \<lparr>ref_time = t, msgid = [], index = 0, found = True\<rparr>)
      else if HasPrefix selector ''msgid='' then
        (let mid = TrimPrefix selector ''msgid=''
         in if mid = [] then Inl (Errorf ''invalid message ID'') else Inr (findMsgid mid 0 entries))
      else Inl (Errorf ''unsupported message reference''))"

definition selectAround :: "Entry list \<Rightarrow> messageReference \<Rightarrow> int \<Rightarrow> Entry list \<times> bool" where
  "selectAround entries first lim =
     (let before = filterHistory entries (\<lambda>e i. beforeReference e i first);
          after = filterHistory entries (\<lambda>e i. afterReference e i first);
          left = min (int (length before)) (quot_int lim 2);
          right = min (int (length after)) (lim - left);
          left = min (int (length before)) (lim - right)
      in (drop (length before - nat left) before @ take (nat right) after,
          int (length before) + int (length after) \<le> lim))"

definition selectBetween :: "Entry list \<Rightarrow> messageReference \<Rightarrow> messageReference \<Rightarrow> int \<Rightarrow> Entry list \<times> bool" where
  "selectBetween entries first second lim =
     (let forward = (ref_time first < ref_time second \<or>
            (ref_time first = ref_time second \<and> msgid first \<noteq> [] \<and> msgid second \<noteq> [] \<and> index first < index second))
      in if forward
         then earliest (filterHistory entries (\<lambda>e i. afterReference e i first \<and> beforeReference e i second)) lim
         else latest (filterHistory entries (\<lambda>e i. beforeReference e i first \<and> afterReference e i second)) lim)"

definition SelectChatHistory ::
  "(string \<Rightarrow> time option) \<Rightarrow> Entry list \<Rightarrow> string \<Rightarrow> string list \<Rightarrow> int \<Rightarrow> (Entry list \<times> bool) result" where
  "SelectChatHistory timeParse entries sub0 selectors lim =
     (if lim \<le> 0 then Inl (Errorf ''invalid limit'')
      else let sub = ToUpper sub0 in
      if length selectors \<noteq> 1 \<and> (sub \<noteq> ''BETWEEN'' \<or> length selectors \<noteq> 2)
      then Inl (Errorf ''invalid selectors'')
      else if sub = ''LATEST'' \<and> selectors ! 0 = ''*'' then Inr (latest entries lim)
      else if selectors ! 0 = ''*'' then Inl (Errorf ''invalid selector'')
      else case parseMessageReference timeParse entries (selectors ! 0) of
        Inl e \<Rightarrow> Inl e
      | Inr first \<Rightarrow>
          if \<not> found first then Inr ([], True)
          else if sub = ''LATEST''
          then Inr (latest (filterHistory entries (\<lambda>e i. afterReference e i first)) lim)
          else if sub = ''AFTER''
          then Inr (earliest (filterHistory entries (\<lambda>e i. afterReference e i first)) lim)
          else if sub = ''BEFORE''
          then Inr (latest (filterHistory entries (\<lambda>e i. beforeReference e i first)) lim)
          else if sub = ''AROUND'' then Inr (selectAround entries first lim)
          else if sub = ''BETWEEN'' then
            (if length selectors < 2 then Inl (Panic ''index out of range'')
             else case parseMessageReference timeParse entries (selectors ! 1) of
               Inl e \<Rightarrow> Inl e
             | Inr second \<Rightarrow>
                 if \<not> found second then Inr ([], True) else Inr (selectBetween entries first second lim))
          else Inl (Errorf ''unknown subcommand''))"

subsection \<open>Specification level\<close>

definition take_last :: "nat \<Rightarrow> 'a list \<Rightarrow> 'a list" where
  "take_last n xs = drop (length xs - n) xs"

definition ring_inv :: "'a RingBuf \<Rightarrow> bool" where
  "ring_inv r \<longleftrightarrow> length (buf r) = rb_cap r \<and> 0 < rb_cap r \<and> head r < rb_cap r \<and> rb_size r \<le> rb_cap r"

definition store_inv :: "MemoryStore \<Rightarrow> bool" where
  "store_inv m \<longleftrightarrow> 0 < limit m \<and>
     (\<forall>k b. map_of (buffers m) k = Some b \<longrightarrow> ring_inv b \<and> rb_cap b = nat (limit m))"

definition store_contents :: "MemoryStore \<Rightarrow> string \<Rightarrow> string \<Rightarrow> Entry list" where
  "store_contents m network target = Slice (snd (store_buf m (store_key network target)))"

definition append_all :: "MemoryStore \<Rightarrow> (string \<times> string \<times> time \<times> Message) list \<Rightarrow> MemoryStore" where
  "append_all m log = fold (\<lambda>(n, t, tm, msg) m. Append m n t tm msg) log m"

section \<open>Library lemmas\<close>

subsection \<open>A bounded buffer\<close>

lemma take_last_append_last:
  "length xs \<le> n \<Longrightarrow> 0 < n \<Longrightarrow>
     take_last n (xs @ [v]) = (if length xs = n then tl xs @ [v] else xs @ [v])"
  by (auto simp: take_last_def drop_Suc tl_append split: list.splits)

lemma length_take_last [simp]: "length (take_last n xs) = min n (length xs)"
  by (simp add: take_last_def)

lemma take_last_take_last_append: "take_last n (take_last n xs @ ys) = take_last n (xs @ ys)"
  by (cases "length xs \<le> n") (simp_all add: take_last_def add.commute)

text \<open>
  The contract of a bounded buffer: it holds the last \<open>capacity\<close> elements pushed, in order. The
  history store uses the ring buffer only through it.
\<close>

locale bounded_buffer =
  fixes push :: "'b \<Rightarrow> 'a \<Rightarrow> 'b" and contents :: "'b \<Rightarrow> 'a list"
    and inv :: "'b \<Rightarrow> bool" and capacity :: "'b \<Rightarrow> nat"
  assumes push_inv: "inv r \<Longrightarrow> inv (push r v) \<and> capacity (push r v) = capacity r"
    and push_contents: "inv r \<Longrightarrow> contents (push r v) = take_last (capacity r) (contents r @ [v])"
    and within: "inv r \<Longrightarrow> length (contents r) \<le> capacity r"
begin

lemma pushes:
  "inv r \<Longrightarrow> inv (foldl push r xs) \<and> capacity (foldl push r xs) = capacity r \<and>
     contents (foldl push r xs) = take_last (capacity r) (contents r @ xs)"
proof (induction xs arbitrary: r)
  case Nil
  then show ?case using within by (simp add: take_last_def)
next
  case (Cons v xs)
  then show ?case
    using push_inv [of r v] push_contents [of r v]
    by (simp add: take_last_take_last_append)
qed

end

lemma ringbuf_New_inv:
  "ring_inv (ringbuf_New z c) \<and> Slice (ringbuf_New z c) = [] \<and>
   rb_cap (ringbuf_New z c) = (if c \<le> 0 then 1 else nat c)"
  by (simp add: ringbuf_New_def ring_inv_def Slice_def Let_def)

lemma length_Slice [simp]: "length (Slice r) = rb_size r"
  by (simp add: Slice_def)

lemma mod_distinct:
  "i < c \<Longrightarrow> j < c \<Longrightarrow> (h + i) mod c = (h + j) mod c \<longleftrightarrow> i = (j :: nat)"
proof -
  assume "i < c" "j < c"
  have "(h + i) mod c = (h + j) mod c \<longleftrightarrow> i mod c = j mod c"
    by (simp only: nat_mod_eq_iff add.assoc add_left_cancel)
  with \<open>i < c\<close> \<open>j < c\<close> show ?thesis by simp
qed

lemma nth_Slice: "i < rb_size r \<Longrightarrow> Slice r ! i = buf r ! ((head r + i) mod rb_cap r)"
  by (simp add: Slice_def)

lemma Slice_Push_full:
  assumes r: "ring_inv r" and full: "rb_size r = rb_cap r"
  shows "Slice (Push r v) = tl (Slice r) @ [v]"
proof (rule nth_equalityI)
  have pos: "0 < rb_cap r" using r by (simp add: ring_inv_def)
  show "length (Slice (Push r v)) = length (tl (Slice r) @ [v])"
    using full pos by (simp add: Push_def)
  fix i assume "i < length (Slice (Push r v))"
  then have i: "i < rb_cap r" using full by (simp add: Push_def)
  have nth: "Slice (Push r v) ! i = (buf r)[head r := v] ! ((head r + Suc i) mod rb_cap r)"
    using i full by (simp add: nth_Slice Push_def mod_add_left_eq)
  show "Slice (Push r v) ! i = (tl (Slice r) @ [v]) ! i"
  proof (cases "Suc i = rb_cap r")
    case True
    then show ?thesis using nth r full by (auto simp: ring_inv_def nth_append)
  next
    case False
    then have "(head r + Suc i) mod rb_cap r \<noteq> (head r + 0) mod rb_cap r"
      using i pos by (subst mod_distinct) auto
    moreover have "i < rb_cap r - 1" using i False by simp
    ultimately show ?thesis
      using nth r full by (simp add: ring_inv_def nth_append nth_tl nth_Slice)
  qed
qed

lemma Slice_Push:
  assumes r: "ring_inv r"
  shows "Slice (Push r v) = (if rb_size r = rb_cap r then tl (Slice r) @ [v] else Slice r @ [v])"
proof (cases "rb_size r = rb_cap r")
  case True
  then show ?thesis using Slice_Push_full [OF r True] by simp
next
  case False
  have "Slice (Push r v) = Slice r @ [v]"
  proof (rule nth_equalityI)
    show "length (Slice (Push r v)) = length (Slice r @ [v])" using False by (simp add: Push_def)
    fix i assume "i < length (Slice (Push r v))"
    then have i: "i < Suc (rb_size r)" using False by (simp add: Push_def)
    have nth: "Slice (Push r v) ! i =
        (buf r)[(head r + rb_size r) mod rb_cap r := v] ! ((head r + i) mod rb_cap r)"
      using i False by (simp add: nth_Slice Push_def)
    have "(head r + i) mod rb_cap r = (head r + rb_size r) mod rb_cap r \<longleftrightarrow> i = rb_size r"
      using r i False by (intro mod_distinct) (auto simp: ring_inv_def)
    then show "Slice (Push r v) ! i = (Slice r @ [v]) ! i"
      using nth i r by (auto simp: nth_append nth_Slice ring_inv_def)
  qed
  with False show ?thesis by simp
qed

interpretation ring: bounded_buffer Push Slice ring_inv rb_cap
proof
  fix r :: "'a RingBuf" and v
  assume r: "ring_inv r"
  show "ring_inv (Push r v) \<and> rb_cap (Push r v) = rb_cap r"
    using r by (auto simp: ring_inv_def Push_def)
  show "length (Slice r) \<le> rb_cap r" using r by (simp add: ring_inv_def)
  show "Slice (Push r v) = take_last (rb_cap r) (Slice r @ [v])"
    using r by (subst take_last_append_last) (auto simp: Slice_Push ring_inv_def)
qed

subsection \<open>The store as a client of the buffer\<close>

lemma NewMemoryStore_inv: "store_inv (NewMemoryStore l) \<and> store_contents (NewMemoryStore l) n t = []"
  by (simp add: NewMemoryStore_def store_inv_def defaultLimit_def store_contents_def store_buf_def
      ringbuf_New_inv Let_def)

lemma store_key_inject:
  "NUL \<notin> set n \<Longrightarrow> NUL \<notin> set n' \<Longrightarrow> store_key n t = store_key n' t' \<longleftrightarrow> n = n' \<and> t = t'"
  unfolding store_key_def
  by (metis IndexByte_append append_Cons append_eq_append_conv append_Nil list.inject option.inject)

lemma store_buf_spec:
  assumes "store_inv m"
  shows "ring_inv (snd (store_buf m k)) \<and> rb_cap (snd (store_buf m k)) = nat (limit m) \<and>
    limit (fst (store_buf m k)) = limit m \<and> map_of (buffers (fst (store_buf m k))) k = Some (snd (store_buf m k)) \<and>
    (\<forall>k'. k' \<noteq> k \<longrightarrow> map_of (buffers (fst (store_buf m k))) k' = map_of (buffers m) k')"
  using assms ringbuf_New_inv [of zeroEntry "limit m"]
  by (auto simp: store_buf_def store_inv_def Let_def split: option.split)

lemma Append_inv:
  assumes "store_inv m"
  shows "store_inv (Append m n t tm msg) \<and> limit (Append m n t tm msg) = limit m"
proof -
  let ?k = "store_key n t" and ?e = "\<lparr>Time = tm, Msg = Clone msg\<rparr>"
  obtain m' b where mb: "store_buf m ?k = (m', b)" by force
  have "ring_inv (Push b ?e) \<and> rb_cap (Push b ?e) = rb_cap b"
    using store_buf_spec [OF assms, of ?k] mb by (intro ring.push_inv) simp
  then show ?thesis
    using store_buf_spec [OF assms, of ?k] mb assms
    by (auto simp: Append_def store_inv_def)
qed

lemma Append_contents:
  assumes "store_inv m" and "NUL \<notin> set n" and "NUL \<notin> set n'"
  shows "store_contents (Append m n t tm msg) n' t' =
    (if n = n' \<and> t = t' then take_last (nat (limit m)) (store_contents m n t @ [\<lparr>Time = tm, Msg = Clone msg\<rparr>])
     else store_contents m n' t')"
proof -
  let ?k = "store_key n t" and ?k' = "store_key n' t'" and ?e = "\<lparr>Time = tm, Msg = Clone msg\<rparr>"
  obtain m' b where mb: "store_buf m ?k = (m', b)" by force
  note spec = store_buf_spec [OF assms(1), of ?k, unfolded mb, simplified]
  have app: "map_of (buffers (Append m n t tm msg)) = (map_of (buffers m'))(?k \<mapsto> Push b ?e)"
      "limit (Append m n t tm msg) = limit m"
    using mb spec by (simp_all add: Append_def)
  show ?thesis
  proof (cases "?k = ?k'")
    case True
    then have "snd (store_buf (Append m n t tm msg) ?k') = Push b ?e"
      using app by (simp add: store_buf_def)
    then show ?thesis
      using True spec store_key_inject [OF assms(2,3)] ring.push_contents [of b ?e] mb
      by (simp add: store_contents_def)
  next
    case False
    then have "map_of (buffers (Append m n t tm msg)) ?k' = map_of (buffers m) ?k'"
      using app spec by auto
    then have "snd (store_buf (Append m n t tm msg) ?k') = snd (store_buf m ?k')"
      using app by (simp add: store_buf_def Let_def split: option.split)
    then show ?thesis
      using False store_key_inject [OF assms(2,3)] by (auto simp: store_contents_def)
  qed
qed

lemma append_all_contents:
  "store_inv m \<Longrightarrow> NUL \<notin> set n \<Longrightarrow> \<forall>(n', t', tm, msg) \<in> set log. NUL \<notin> set n' \<Longrightarrow>
   length (store_contents m n t) \<le> nat (limit m) \<Longrightarrow>
   store_inv (append_all m log) \<and> store_contents (append_all m log) n t =
     take_last (nat (limit m)) (store_contents m n t @
       map (\<lambda>(n', t', tm, msg). \<lparr>Time = tm, Msg = Clone msg\<rparr>)
         (filter (\<lambda>(n', t', tm, msg). n' = n \<and> t' = t) log))"
proof (induction log arbitrary: m)
  case Nil
  then show ?case by (simp add: append_all_def take_last_def)
next
  case (Cons x log)
  obtain n' t' tm msg where x: "x = (n', t', tm, msg)" by (cases x)
  let ?m = "Append m n' t' tm msg"
  have c: "store_contents ?m n t = (if n' = n \<and> t' = t
      then take_last (nat (limit m)) (store_contents m n t @ [\<lparr>Time = tm, Msg = Clone msg\<rparr>])
      else store_contents m n t)"
    using Cons.prems x by (subst Append_contents) auto
  have i: "store_inv ?m" "limit ?m = limit m" using Append_inv [OF Cons.prems(1)] by auto
  have "append_all m (x # log) = append_all ?m log" by (simp add: append_all_def x)
  moreover have "length (store_contents ?m n t) \<le> nat (limit ?m)" using c i Cons.prems(4) by simp
  ultimately show ?case
    using Cons.IH [OF i(1) Cons.prems(2)] Cons.prems(3) c i x by (simp add: take_last_take_last_append)
qed

subsection \<open>Selection\<close>

lemma subseq_take_drop [simp]: "subseq (take n xs) xs" "subseq (drop n xs) xs"
  by (simp_all add: prefix_imp_subseq take_is_prefix suffix_imp_subseq suffix_drop)

lemma filterHistory_append:
  "filterHistory (xs @ ys) keep = filterHistory xs keep @ filterHistory ys (\<lambda>e i. keep e (length xs + i))"
proof -
  have "[0..<length (xs @ ys)] = [0..<length xs] @ map (\<lambda>i. length xs + i) [0..<length ys]"
    using upt_add_eq_append [of 0 "length xs" "length ys"] map_add_upt [of "length xs" "length ys"]
    by (simp add: add.commute)
  then have "zip (xs @ ys) [0..<length (xs @ ys)] =
      zip xs [0..<length xs] @ map (\<lambda>(e, i). (e, length xs + i)) (zip ys [0..<length ys])"
    by (simp add: zip_map2)
  then show ?thesis
    unfolding filterHistory_def by (simp add: filter_map comp_def case_prod_unfold)
qed

lemma filterHistory_empty:
  "(\<And>i. i < length xs \<Longrightarrow> \<not> keep (xs ! i) i) \<Longrightarrow> filterHistory xs keep = []"
  by (auto simp: filterHistory_def filter_empty_conv set_zip)

lemma subseq_filterHistory: "subseq (filterHistory entries keep) entries"
proof -
  have "subseq (map fst (filter (\<lambda>(e, i). keep e i) (zip entries [0..<length entries])))
      (map fst (zip entries [0..<length entries]))"
    by (intro subseq_map subseq_filter_left)
  then show ?thesis by (simp add: filterHistory_def)
qed

text \<open>Entries kept by a condition that ends at position \<open>k\<close>, then entries kept by one that starts there.\<close>

lemma subseq_before_after:
  assumes "k \<le> length entries"
    and P: "\<And>i. k \<le> i \<Longrightarrow> i < length entries \<Longrightarrow> \<not> P (entries ! i) i"
    and Q: "\<And>i. i < k \<Longrightarrow> \<not> Q (entries ! i) i"
  shows "subseq (filterHistory entries P @ filterHistory entries Q) entries"
proof -
  let ?xs = "take k entries" and ?ys = "drop k entries"
  have split: "filterHistory entries keep =
      filterHistory ?xs keep @ filterHistory ?ys (\<lambda>e i. keep e (k + i))" for keep
    using filterHistory_append [of ?xs ?ys keep] assms(1) by simp
  have "filterHistory ?ys (\<lambda>e i. P e (k + i)) = []" "filterHistory ?xs Q = []"
    using assms by (auto intro!: filterHistory_empty)
  then have "filterHistory entries P @ filterHistory entries Q =
      filterHistory ?xs P @ filterHistory ?ys (\<lambda>e i. Q e (k + i))"
    using split [of P] split [of Q] by simp
  moreover have "subseq (filterHistory ?xs P @ filterHistory ?ys (\<lambda>e i. Q e (k + i))) (?xs @ ?ys)"
    by (intro list_emb_append_mono subseq_filterHistory)
  ultimately show ?thesis by simp
qed

lemma subseq_around:
  assumes "sorted (map Time entries)"
  shows "subseq (filterHistory entries (\<lambda>e i. beforeReference e i ref) @
    filterHistory entries (\<lambda>e i. afterReference e i ref)) entries"
proof (cases "msgid ref = []")
  case False
  then show ?thesis
    by (intro subseq_before_after [of "min (index ref) (length entries)"])
       (auto simp: beforeReference_def afterReference_def)
next
  case True
  let ?k = "length (takeWhile (\<lambda>e. Time e < ref_time ref) entries)"
  have "ref_time ref \<le> Time (entries ! i)" if "?k \<le> i" "i < length entries" for i
  proof -
    have "ref_time ref \<le> Time (entries ! ?k)"
      using nth_length_takeWhile [of "\<lambda>e. Time e < ref_time ref" entries] that by simp
    also have "\<dots> \<le> Time (entries ! i)"
      using sorted_nth_mono [OF assms, of ?k i] that by simp
    finally show ?thesis .
  qed
  moreover have "Time (entries ! i) < ref_time ref" if "i < ?k" for i
    using that by (metis nth_mem set_takeWhileD takeWhile_nth)
  ultimately show ?thesis
    using True length_takeWhile_le [of _ entries]
    by (intro subseq_before_after [of ?k]) (auto simp: beforeReference_def afterReference_def not_less order.strict_implies_order)
qed

lemma selectAround_excerpt:
  assumes "sorted (map Time entries)" and "0 < lim"
  shows "subseq (fst (selectAround entries ref lim)) entries \<and>
    int (length (fst (selectAround entries ref lim))) \<le> lim"
proof -
  let ?b = "filterHistory entries (\<lambda>e i. beforeReference e i ref)"
    and ?a = "filterHistory entries (\<lambda>e i. afterReference e i ref)"
  define l0 where "l0 = min (int (length ?b)) (quot_int lim 2)"
  define r where "r = min (int (length ?a)) (lim - l0)"
  define l where "l = min (int (length ?b)) (lim - r)"
  have l0: "0 \<le> l0" "l0 \<le> lim" using assms(2) by (auto simp: l0_def quot_int_def)
  then have bounds: "0 \<le> r" "r \<le> lim" "0 \<le> l" "l + r \<le> lim" "l \<le> int (length ?b)"
    by (auto simp: r_def l_def)
  have eq: "fst (selectAround entries ref lim) = drop (length ?b - nat l) ?b @ take (nat r) ?a"
    by (simp add: selectAround_def Let_def l0_def r_def l_def)
  have "subseq (drop (length ?b - nat l) ?b @ take (nat r) ?a) (?b @ ?a)"
    by (intro list_emb_append_mono subseq_take_drop)
  then show ?thesis
    using subseq_around [OF assms(1)] bounds eq by (auto intro: subseq_order.trans)
qed

lemma latest_spec: "0 < lim \<Longrightarrow> latest es lim = (res, c) \<Longrightarrow>
    subseq res es \<and> int (length res) \<le> lim \<and> (c \<longleftrightarrow> res = es)"
  by (auto simp: latest_def split: if_splits dest!: arg_cong [where f = length])

lemma earliest_spec: "0 < lim \<Longrightarrow> earliest es lim = (res, c) \<Longrightarrow>
    subseq res es \<and> int (length res) \<le> lim \<and> (c \<longleftrightarrow> res = es)"
  by (auto simp: earliest_def split: if_splits dest!: arg_cong [where f = length])

section \<open>Properties\<close>

text \<open>C20: the ring buffer refines a bounded list: after any pushes it holds, in order, the last
  \<open>capacity\<close> elements (a capacity of 0 or less is taken as 1), \<open>Len\<close> is their number, and \<open>Last n\<close>
  is their last \<open>n\<close>, panicking only for a negative \<open>n\<close>.\<close>

theorem ringbuf_refines_list:
  "(let r = foldl Push (ringbuf_New z c) xs; cap = (if c \<le> 0 then 1 else nat c)
    in Slice r = take_last cap xs \<and> ringbuf_Len r = min cap (length xs) \<and>
       Last r n = (if n < 0 then Inl (Panic ''makeslice: len out of range'')
                   else Inr (take_last (nat n) (take_last cap xs))))"
proof -
  let ?r = "foldl Push (ringbuf_New z c) xs" and ?cap = "if c \<le> 0 then 1 else nat c"
  have s: "Slice ?r = take_last ?cap xs" "ring_inv ?r"
    using ring.pushes [of "ringbuf_New z c" xs] ringbuf_New_inv [of z c] by simp_all
  have len: "rb_size ?r = length (take_last ?cap xs)"
    using s(1) length_Slice [of ?r] by metis
  have "Last r n = (if n < 0 then Inl (Panic ''makeslice: len out of range'')
      else Inr (take_last (nat n) (Slice r)))" for r :: "'a RingBuf"
    by (auto simp: Last_def Let_def take_last_def Slice_def drop_map add.assoc intro!: nth_equalityI)
  then show ?thesis using s len by (simp add: Let_def ringbuf_Len_def)
qed

text \<open>C21: the history store keeps the targets apart and forgets the oldest first: after any
  sequence of appends, a query for a target sees the last \<open>limit\<close> messages appended for that
  network and target, in order, and no others, and applies its filters to them.\<close>

theorem history_store_contents:
  assumes "NUL \<notin> set n" and "\<forall>(n', t', tm, msg) \<in> set log. NUL \<notin> set n'"
  shows "snd (store_Query (append_all (NewMemoryStore l) log) n t q) =
    selectEntries q (take_last (nat (if l \<le> 0 then 500 else l))
      (map (\<lambda>(n', t', tm, msg). \<lparr>Time = tm, Msg = msg\<rparr>)
        (filter (\<lambda>(n', t', tm, msg). n' = n \<and> t' = t) log)))"
proof -
  have "Clone msg = msg" for msg by (simp add: Clone_def)
  moreover have "limit (NewMemoryStore l) = (if l \<le> 0 then 500 else l)"
    by (simp add: NewMemoryStore_def defaultLimit_def)
  moreover have "snd (store_Query m n t q) = selectEntries q (store_contents m n t)" for m
    by (simp add: store_Query_def store_contents_def case_prod_beta)
  moreover have "length (store_contents (NewMemoryStore l) n t) \<le> nat (limit (NewMemoryStore l))"
    using NewMemoryStore_inv [of l n t] by simp
  ultimately show ?thesis
    using append_all_contents [OF _ assms, of "NewMemoryStore l" t] NewMemoryStore_inv [of l n t] by simp
qed

theorem history_store_contents_witness:
  "snd (store_Query (append_all (NewMemoryStore 1)
       [(''net'', ''#a'', 5, \<lparr>msg_Tags = [], msg_Prefix = None, Command = ''PING'', Params = []\<rparr>),
        (''net'', ''#b'', 6, \<lparr>msg_Tags = [], msg_Prefix = None, Command = ''PONG'', Params = []\<rparr>)])
      ''net'' ''#a'' \<lparr>Before = None, After = None, Around = None, AfterMsgID = [], Limit = 0\<rparr>) =
   [\<lparr>Time = 5, Msg = \<lparr>msg_Tags = [], msg_Prefix = None, Command = ''PING'', Params = []\<rparr>\<rparr>]"
  by (subst history_store_contents) (simp_all add: selectEntries_def take_last_def defaultLimit_def)

text \<open>C38: a CHATHISTORY selection is an excerpt of the ascending history: in order, nothing twice,
  never more than the limit, whatever the subcommand and the references.\<close>

theorem SelectChatHistory_excerpt:
  assumes "SelectChatHistory timeParse entries sub selectors lim = Inr (res, complete)"
    and "sorted (map Time entries)"
  shows "subseq res entries \<and> int (length res) \<le> lim"
proof -
  have lim: "0 < lim" using assms(1) by (simp add: SelectChatHistory_def split: if_splits)
  have via: "subseq res entries \<and> int (length res) \<le> lim"
    if "latest (filterHistory entries keep) lim = (res, complete) \<or>
        earliest (filterHistory entries keep) lim = (res, complete)" for keep
    using that latest_spec [OF lim] earliest_spec [OF lim] subseq_filterHistory [of entries keep]
    by (blast intro: subseq_order.trans)
  consider "latest entries lim = (res, complete)" | "res = []"
    | keep where "latest (filterHistory entries keep) lim = (res, complete) \<or>
        earliest (filterHistory entries keep) lim = (res, complete)"
    | ref where "selectAround entries ref lim = (res, complete)"
    using assms(1)
    by (auto simp: SelectChatHistory_def Let_def selectBetween_def split: if_splits sum.splits)
  then show ?thesis
  proof cases
    case 1
    then show ?thesis using latest_spec [OF lim] by blast
  next
    case 2
    then show ?thesis using lim by simp
  next
    case 3
    then show ?thesis by (rule via)
  next
    case 4
    then show ?thesis using selectAround_excerpt [OF assms(2) lim, of ref] by simp
  qed
qed

theorem SelectChatHistory_excerpt_witness:
  "\<exists>res. SelectChatHistory (\<lambda>_. Some 6) [zeroEntry\<lparr>Time := 5\<rparr>, zeroEntry\<lparr>Time := 7\<rparr>, zeroEntry\<lparr>Time := 8\<rparr>]
       ''AROUND'' [''timestamp=x''] 2 = Inr (res, False) \<and>
     subseq res [zeroEntry\<lparr>Time := 5\<rparr>, zeroEntry\<lparr>Time := 7\<rparr>, zeroEntry\<lparr>Time := 8\<rparr>] \<and> int (length res) \<le> 2"
proof -
  let ?es = "[zeroEntry\<lparr>Time := 5\<rparr>, zeroEntry\<lparr>Time := 7\<rparr>, zeroEntry\<lparr>Time := 8\<rparr>]"
  have "SelectChatHistory (\<lambda>_. Some 6) ?es ''AROUND'' [''timestamp=x''] 2 =
      Inr ([zeroEntry\<lparr>Time := 5\<rparr>, zeroEntry\<lparr>Time := 7\<rparr>], False)"
    by code_simp
  from SelectChatHistory_excerpt [OF this] this show ?thesis by auto
qed

text \<open>\<open>BETWEEN\<close> with a single selector passes the check of the selectors and then indexes the
  missing second one.\<close>

theorem SelectChatHistory_between_one_selector:
  assumes "timeParse ''now'' = Some t" and "0 < lim"
  shows "SelectChatHistory timeParse entries ''between'' [''timestamp=now''] lim = Inl (Panic ''index out of range'')"
proof -
  have "parseMessageReference timeParse entries ''timestamp=now'' =
      Inr \<lparr>ref_time = t, msgid = [], index = 0, found = True\<rparr>"
    using assms(1) by (simp add: parseMessageReference_def TrimPrefix_def)
  moreover have "ToUpper ''between'' = ''BETWEEN''" by code_simp
  ultimately show ?thesis using assms(2) by (simp add: SelectChatHistory_def)
qed

theorem SelectChatHistory_between_one_selector_witness:
  "SelectChatHistory (\<lambda>_. Some 3) [] ''between'' [''timestamp=now''] 10 = Inl (Panic ''index out of range'')"
  by (rule SelectChatHistory_between_one_selector) simp_all

end
