(* ===== verification/SftpWire.thy ===== *)
theory SftpWire
  imports Go_Prelude
begin

text \<open>
  Package \<open>sftp/sftp\<close>: packets, strings and integers at an offset of a buffer, file attributes, the
  STATUS payload, request identifiers and the version exchange. A \<open>time.Time\<close> is its Unix time in
  seconds (the code makes and reads whole seconds only); \<open>zeroTime\<close> is the zero value.
\<close>

section \<open>Definitions\<close>

subsection \<open>Constants\<close>

type_synonym Type = "8 word"

definition TypeInit :: Type where "TypeInit = 1"
definition TypeVersion :: Type where "TypeVersion = 2"
definition TypeOpen :: Type where "TypeOpen = 3"
definition TypeClose :: Type where "TypeClose = 4"
definition TypeRead :: Type where "TypeRead = 5"
definition TypeWrite :: Type where "TypeWrite = 6"
definition TypeLstat :: Type where "TypeLstat = 7"
definition TypeFstat :: Type where "TypeFstat = 8"
definition TypeSetstat :: Type where "TypeSetstat = 9"
definition TypeFsetstat :: Type where "TypeFsetstat = 10"
definition TypeOpendir :: Type where "TypeOpendir = 11"
definition TypeReaddir :: Type where "TypeReaddir = 12"
definition TypeRemove :: Type where "TypeRemove = 13"
definition TypeMkdir :: Type where "TypeMkdir = 14"
definition TypeRmdir :: Type where "TypeRmdir = 15"
definition TypeRename :: Type where "TypeRename = 16"
definition TypeStat :: Type where "TypeStat = 17"
definition TypeSymlink :: Type where "TypeSymlink = 20"
definition TypeReadlink :: Type where "TypeReadlink = 21"
definition TypeStatus :: Type where "TypeStatus = 101"
definition TypeHandle :: Type where "TypeHandle = 102"
definition TypeData :: Type where "TypeData = 103"
definition TypeName :: Type where "TypeName = 104"
definition TypeAttrs :: Type where "TypeAttrs = 105"
definition TypeExtended :: Type where "TypeExtended = 200"

definition OpenRead :: "32 word" where "OpenRead = 0x01"
definition OpenWrite :: "32 word" where "OpenWrite = 0x02"
definition OpenAppend :: "32 word" where "OpenAppend = 0x04"
definition OpenCreate :: "32 word" where "OpenCreate = 0x08"
definition OpenTrunc :: "32 word" where "OpenTrunc = 0x10"
definition OpenExcl :: "32 word" where "OpenExcl = 0x20"

type_synonym StatusCode = "32 word"

definition StatusOK :: StatusCode where "StatusOK = 0"
definition StatusEOF :: StatusCode where "StatusEOF = 1"
definition StatusNoSuchFile :: StatusCode where "StatusNoSuchFile = 2"
definition StatusPermissionDenied :: StatusCode where "StatusPermissionDenied = 3"
definition StatusFailure :: StatusCode where "StatusFailure = 4"
definition StatusBadMessage :: StatusCode where "StatusBadMessage = 5"
definition StatusNoConnection :: StatusCode where "StatusNoConnection = 6"
definition StatusConnectionLost :: StatusCode where "StatusConnectionLost = 7"
definition StatusOpUnsupported :: StatusCode where "StatusOpUnsupported = 8"

lemmas sftp_type_defs = TypeInit_def TypeVersion_def TypeOpen_def TypeClose_def TypeRead_def
  TypeWrite_def TypeLstat_def TypeFstat_def TypeSetstat_def TypeFsetstat_def TypeOpendir_def
  TypeReaddir_def TypeRemove_def TypeMkdir_def TypeRmdir_def TypeRename_def TypeStat_def
  TypeSymlink_def TypeReadlink_def TypeStatus_def TypeHandle_def TypeData_def TypeName_def
  TypeAttrs_def TypeExtended_def

lemmas sftp_status_defs = StatusOK_def StatusEOF_def StatusNoSuchFile_def
  StatusPermissionDenied_def StatusFailure_def StatusBadMessage_def StatusNoConnection_def
  StatusConnectionLost_def StatusOpUnsupported_def

subsection \<open>Packets\<close>

record Packet =
  ptype :: Type
  Payload :: bytes

definition sftp_ReadPacket :: "bytes \<Rightarrow> (Packet \<times> bytes) result" where
  "sftp_ReadPacket r =
     (case ReadFull 4 r of
        Inl e \<Rightarrow> Inl e
      | Inr (lenBuf, r) \<Rightarrow>
          let n = Uint32 lenBuf
          in if n = 0 \<or> n > push_bit 24 1 then Inl (Errorf ''sftp: unreasonable packet length'')
             else case ReadFull (unat n) r of
                    Inl e \<Rightarrow> Inl e
                  | Inr (buf, r) \<Rightarrow>
                      if length buf = 0 then Inl (Errorf ''sftp: zero-length payload'')
                      else Inr (\<lparr>ptype = buf ! 0, Payload = drop 1 buf\<rparr>, r))"

definition WritePacket :: "Type \<Rightarrow> bytes \<Rightarrow> bytes" where
  "WritePacket t payload =
     (let full = t # payload
      in PutUint32 (word_of_nat (length full)) @ full)"

subsection \<open>Fields at an offset\<close>

definition sftp_ReadString :: "bytes \<Rightarrow> nat \<Rightarrow> (string \<times> nat) result" where
  "sftp_ReadString buf off =
     (if off + 4 > length buf then Inl (Errorf ''sftp: read string: short buffer'')
      else let n = unat (Uint32 (take 4 (drop off buf))); off = off + 4
           in if off + n > length buf then Inl (Errorf ''sftp: read string: short buffer'')
              else Inr (string_of (take n (drop off buf)), off + n))"

definition AppendString :: "bytes \<Rightarrow> string \<Rightarrow> bytes" where
  "AppendString buf s = buf @ PutUint32 (word_of_nat (length s)) @ bytes_of s"

definition ReadUint32 :: "bytes \<Rightarrow> nat \<Rightarrow> (32 word \<times> nat) result" where
  "ReadUint32 buf off =
     (if off + 4 > length buf then Inl (Errorf ''sftp: read u32: short buffer'')
      else Inr (Uint32 (take 4 (drop off buf)), off + 4))"

definition AppendUint32 :: "bytes \<Rightarrow> 32 word \<Rightarrow> bytes" where
  "AppendUint32 buf v = buf @ PutUint32 v"

definition ReadUint64 :: "bytes \<Rightarrow> nat \<Rightarrow> (64 word \<times> nat) result" where
  "ReadUint64 buf off =
     (if off + 8 > length buf then Inl (Errorf ''sftp: read u64: short buffer'')
      else Inr (Uint64 (take 8 (drop off buf)), off + 8))"

definition AppendUint64 :: "bytes \<Rightarrow> 64 word \<Rightarrow> bytes" where
  "AppendUint64 buf v = buf @ PutUint64 v"

subsection \<open>Attributes\<close>

type_synonym unix_time = int

definition zeroTime :: unix_time where
  "zeroTime = - 62135596800"

record FileAttr =
  Size :: "64 word"
  UID :: "32 word"
  GID :: "32 word"
  Mode :: "32 word"
  Mtime :: unix_time
  Atime :: unix_time

definition zeroAttr :: FileAttr where
  "zeroAttr = \<lparr>Size = 0, UID = 0, GID = 0, Mode = 0, Mtime = zeroTime, Atime = zeroTime\<rparr>"

definition attrSize :: "32 word" where "attrSize = 0x01"
definition attrUIDGID :: "32 word" where "attrUIDGID = 0x02"
definition attrMode :: "32 word" where "attrMode = 0x04"
definition attrMtime :: "32 word" where "attrMtime = 0x08"
definition attrAtime :: "32 word" where "attrAtime = 0x10"

definition attrFlags :: "FileAttr \<Rightarrow> 32 word" where
  "attrFlags a =
     (let flags = 0;
          flags = (if Size a \<noteq> 0 then flags OR attrSize else flags);
          flags = (if UID a \<noteq> 0 \<or> GID a \<noteq> 0 then flags OR attrUIDGID else flags);
          flags = (if Mode a \<noteq> 0 then flags OR attrMode else flags);
          flags = (if Mtime a \<noteq> zeroTime then flags OR attrMtime else flags)
      in if Atime a \<noteq> zeroTime then flags OR attrAtime else flags)"

definition FileAttr_Encode :: "FileAttr \<Rightarrow> bytes" where
  "FileAttr_Encode a =
     (let flags = attrFlags a;
          buf = AppendUint32 [] flags;
          buf = (if flags AND attrSize \<noteq> 0 then AppendUint64 buf (Size a) else buf);
          buf = (if flags AND attrUIDGID \<noteq> 0 then AppendUint32 (AppendUint32 buf (UID a)) (GID a) else buf);
          buf = (if flags AND attrMode \<noteq> 0 then AppendUint32 buf (Mode a) else buf);
          buf = (if flags AND attrMtime \<noteq> 0 then AppendUint32 buf (word_of_int (Mtime a)) else buf)
      in if flags AND attrAtime \<noteq> 0 then AppendUint32 buf (word_of_int (Atime a)) else buf)"

text \<open>An optional field of \<open>DecodeAttrs\<close>: read when its flag is set, otherwise the zero value.\<close>

definition optField :: "bool \<Rightarrow> (nat \<Rightarrow> ('a \<times> nat) result) \<Rightarrow> 'a \<Rightarrow> nat \<Rightarrow> ('a \<times> nat) result" where
  "optField present rd zero next = (if present then rd next else Inr (zero, next))"

definition readTime :: "bytes \<Rightarrow> nat \<Rightarrow> (unix_time \<times> nat) result" where
  "readTime buf off = (case ReadUint32 buf off of Inl e \<Rightarrow> Inl e | Inr (t, n) \<Rightarrow> Inr (uint t, n))"

definition readPair :: "bytes \<Rightarrow> nat \<Rightarrow> ((32 word \<times> 32 word) \<times> nat) result" where
  "readPair buf off =
     (case ReadUint32 buf off of
        Inl e \<Rightarrow> Inl e
      | Inr (u, off) \<Rightarrow> (case ReadUint32 buf off of Inl e \<Rightarrow> Inl e | Inr (g, off) \<Rightarrow> Inr ((u, g), off)))"

definition DecodeAttrs :: "bytes \<Rightarrow> nat \<Rightarrow> (FileAttr \<times> nat) result" where
  "DecodeAttrs buf off =
     (case ReadUint32 buf off of Inl e \<Rightarrow> Inl e | Inr (flags, next) \<Rightarrow>
     (case optField (flags AND attrSize \<noteq> 0) (ReadUint64 buf) 0 next of Inl e \<Rightarrow> Inl e | Inr (sz, next) \<Rightarrow>
     (case optField (flags AND attrUIDGID \<noteq> 0) (readPair buf) (0, 0) next of Inl e \<Rightarrow> Inl e | Inr (ug, next) \<Rightarrow>
     (case optField (flags AND attrMode \<noteq> 0) (ReadUint32 buf) 0 next of Inl e \<Rightarrow> Inl e | Inr (m, next) \<Rightarrow>
     (case optField (flags AND attrMtime \<noteq> 0) (readTime buf) zeroTime next of Inl e \<Rightarrow> Inl e | Inr (mt, next) \<Rightarrow>
     (case optField (flags AND attrAtime \<noteq> 0) (readTime buf) zeroTime next of Inl e \<Rightarrow> Inl e | Inr (at, next) \<Rightarrow>
        Inr (\<lparr>Size = sz, UID = fst ug, GID = snd ug, Mode = m, Mtime = mt, Atime = at\<rparr>, next)))))))"

subsection \<open>Status, request identifiers, version\<close>

type_synonym RequestID = "32 word"

definition EncodeStatus :: "RequestID \<Rightarrow> StatusCode \<Rightarrow> string \<Rightarrow> string \<Rightarrow> bytes" where
  "EncodeStatus rid code msg lang =
     AppendString (AppendString (AppendUint32 (AppendUint32 [] rid) code) msg) lang"

definition DecodeStatus :: "bytes \<Rightarrow> (RequestID \<times> StatusCode \<times> string) result" where
  "DecodeStatus buf =
     (if length buf < 8 then Inl (Errorf ''sftp: status: short buffer'')
      else case sftp_ReadString buf 8 of
             Inl e \<Rightarrow> Inl e
           | Inr (msg, _) \<Rightarrow> Inr (Uint32 (take 4 buf), Uint32 (take 4 (drop 4 buf)), msg))"

text \<open>The closure of \<open>NewRequestIDSource\<close> on its counter.\<close>

definition nextRequestID :: "32 word \<Rightarrow> 32 word \<times> RequestID" where
  "nextRequestID c = (let c = c + 1; c = (if c = 0 then 1 else c) in (c, c))"

definition Version :: "32 word" where "Version = 3"

definition ReadInit :: "Packet \<Rightarrow> (32 word) result" where
  "ReadInit p =
     (if length (Payload p) < 4 then Inl IO_ErrUnexpectedEOF else Inr (Uint32 (Payload p)))"

subsection \<open>Values that survive the wire\<close>

definition packet_ok :: "Packet \<Rightarrow> bool" where
  "packet_ok p \<longleftrightarrow> length (Payload p) < 2 ^ 24"

definition time_ok :: "unix_time \<Rightarrow> bool" where
  "time_ok t \<longleftrightarrow> t = zeroTime \<or> (0 \<le> t \<and> t < 2 ^ 32)"

definition attr_ok :: "FileAttr \<Rightarrow> bool" where
  "attr_ok a \<longleftrightarrow> time_ok (Mtime a) \<and> time_ok (Atime a)"

definition field_str_ok :: "string \<Rightarrow> bool" where
  "field_str_ok s \<longleftrightarrow> length s < 2 ^ 32"

section \<open>Library lemmas\<close>

subsection \<open>Fields\<close>

text \<open>
  The interface of a field at an offset: reading at the place where a value was appended gives the
  value and the offset after it, whatever is before and behind. Payloads are sequences of fields,
  so the composition laws are proved once.
\<close>

locale field_codec =
  fixes put :: "'a \<Rightarrow> bytes" and get :: "bytes \<Rightarrow> nat \<Rightarrow> ('a \<times> nat) result" and ok :: "'a \<Rightarrow> bool"
  assumes get_put: "ok x \<Longrightarrow> off = length pre \<Longrightarrow> get (pre @ put x @ post) off = Inr (x, off + length (put x))"
begin

lemma get_put_end: "ok x \<Longrightarrow> off = length pre \<Longrightarrow> get (pre @ put x) off = Inr (x, off + length (put x))"
  using get_put [of x off pre "[]"] by simp

lemma get_put_start: "ok x \<Longrightarrow> get (put x @ post) 0 = Inr (x, length (put x))"
  using get_put [of x 0 "[]" post] by simp

lemma get_put_second:
  "ok x \<Longrightarrow> off = length a + length b \<Longrightarrow> get (a @ b @ put x @ post) off = Inr (x, off + length (put x))"
  using get_put [of x off "a @ b" post] by simp

text \<open>A field that is there only when a flag says so.\<close>

lemma get_opt:
  "(present \<Longrightarrow> ok x) \<Longrightarrow> (\<not> present \<Longrightarrow> x = zero) \<Longrightarrow> off = length pre \<Longrightarrow>
   seg = (if present then put x else []) \<Longrightarrow>
   optField present (get (pre @ seg @ post)) zero off = Inr (x, length (pre @ seg))"
  using get_put [of x off pre post] by (simp add: optField_def)

end

interpretation u32: field_codec PutUint32 ReadUint32 "\<lambda>_. True"
  by unfold_locales (simp add: ReadUint32_def)

interpretation u64: field_codec PutUint64 ReadUint64 "\<lambda>_. True"
proof
  fix x :: "64 word" and off and pre post :: bytes
  assume "off = length pre"
  moreover have "take 8 (PutUint64 x @ post) = PutUint64 x" by simp
  moreover have "Uint64 (PutUint64 x) = x" using Uint64_PutUint64 [of x "[]"] by simp
  ultimately show "ReadUint64 (pre @ PutUint64 x @ post) off = Inr (x, off + length (PutUint64 x))"
    by (simp add: ReadUint64_def)
qed

interpretation str: field_codec "AppendString []" sftp_ReadString field_str_ok
proof
  fix x :: string and off and pre post :: bytes
  assume "field_str_ok x" and off: "off = length pre"
  then have n: "unat (word_of_nat (length x) :: 32 word) = length x"
    by (simp add: field_str_ok_def unat_of_nat)
  show "sftp_ReadString (pre @ AppendString [] x @ post) off = Inr (x, off + length (AppendString [] x))"
    using n off by (simp add: sftp_ReadString_def AppendString_def Let_def)
qed

interpretation u32pair: field_codec "\<lambda>(u, g). PutUint32 u @ PutUint32 g" readPair "\<lambda>_. True"
proof
  fix x :: "32 word \<times> 32 word" and off and pre post :: bytes
  assume off: "off = length pre"
  obtain u g where x: "x = (u, g)" by force
  have "ReadUint32 (pre @ PutUint32 u @ (PutUint32 g @ post)) off = Inr (u, off + 4)"
    using u32.get_put [OF TrueI off, of u "PutUint32 g @ post"] by simp
  moreover have "ReadUint32 (pre @ PutUint32 u @ PutUint32 g @ post) (off + 4) = Inr (g, off + 8)"
    using u32.get_put_second [of "off + 4" pre "PutUint32 u" g post] off by simp
  ultimately show "readPair (pre @ (case x of (u, g) \<Rightarrow> PutUint32 u @ PutUint32 g) @ post) off =
      Inr (x, off + length (case x of (u, g) \<Rightarrow> PutUint32 u @ PutUint32 g))"
    by (simp add: readPair_def x)
qed

interpretation unixtime: field_codec "\<lambda>t. PutUint32 (word_of_int t)" readTime "\<lambda>t. 0 \<le> t \<and> t < 2 ^ 32"
proof
  fix t :: int and off and pre post :: bytes
  assume t: "0 \<le> t \<and> t < 2 ^ 32" and off: "off = length pre"
  have "uint (word_of_int t :: 32 word) = t" using t by (simp add: uint_word_of_int take_bit_int_eq_self)
  then show "readTime (pre @ PutUint32 (word_of_int t) @ post) off =
      Inr (t, off + length (PutUint32 (word_of_int t)))"
    using u32.get_put [OF TrueI off, of "word_of_int t" post] by (simp add: readTime_def)
qed

lemma AppendString_eq: "AppendString buf s = buf @ AppendString [] s"
  by (simp add: AppendString_def)

lemma length_AppendString [simp]: "length (AppendString [] s) = 4 + length s"
  by (simp add: AppendString_def)

subsection \<open>Attributes\<close>

lemmas attr_flag_defs = attrSize_def attrUIDGID_def attrMode_def attrMtime_def attrAtime_def

lemma attrFlags_bits:
  "attrFlags a AND attrSize \<noteq> 0 \<longleftrightarrow> Size a \<noteq> 0"
  "attrFlags a AND attrUIDGID \<noteq> 0 \<longleftrightarrow> (UID a, GID a) \<noteq> (0, 0)"
  "attrFlags a AND attrMode \<noteq> 0 \<longleftrightarrow> Mode a \<noteq> 0"
  "attrFlags a AND attrMtime \<noteq> 0 \<longleftrightarrow> Mtime a \<noteq> zeroTime"
  "attrFlags a AND attrAtime \<noteq> 0 \<longleftrightarrow> Atime a \<noteq> zeroTime"
  by (auto simp: attrFlags_def Let_def attr_flag_defs)

text \<open>The encoding as its optional segments.\<close>

definition segSize :: "FileAttr \<Rightarrow> bytes" where
  "segSize a = (if Size a \<noteq> 0 then PutUint64 (Size a) else [])"

definition segUIDGID :: "FileAttr \<Rightarrow> bytes" where
  "segUIDGID a = (if (UID a, GID a) \<noteq> (0, 0) then PutUint32 (UID a) @ PutUint32 (GID a) else [])"

definition segMode :: "FileAttr \<Rightarrow> bytes" where
  "segMode a = (if Mode a \<noteq> 0 then PutUint32 (Mode a) else [])"

definition segTime :: "unix_time \<Rightarrow> bytes" where
  "segTime t = (if t \<noteq> zeroTime then PutUint32 (word_of_int t) else [])"

lemma FileAttr_Encode_segments:
  "FileAttr_Encode a = PutUint32 (attrFlags a) @ segSize a @ segUIDGID a @ segMode a @
     segTime (Mtime a) @ segTime (Atime a)"
  by (simp add: FileAttr_Encode_def Let_def attrFlags_bits AppendUint32_def AppendUint64_def
      segSize_def segUIDGID_def segMode_def segTime_def)

lemma seg_opts:
  "off = length pre \<Longrightarrow> optField (Size a \<noteq> 0) (ReadUint64 (pre @ segSize a @ post)) 0 off =
     Inr (Size a, length (pre @ segSize a))"
  "off = length pre \<Longrightarrow> optField ((UID a, GID a) \<noteq> (0, 0)) (readPair (pre @ segUIDGID a @ post)) (0, 0) off =
     Inr ((UID a, GID a), length (pre @ segUIDGID a))"
  "off = length pre \<Longrightarrow> optField (Mode a \<noteq> 0) (ReadUint32 (pre @ segMode a @ post)) 0 off =
     Inr (Mode a, length (pre @ segMode a))"
  "off = length pre \<Longrightarrow> time_ok t \<Longrightarrow> optField (t \<noteq> zeroTime) (readTime (pre @ segTime t @ post)) zeroTime off =
     Inr (t, length (pre @ segTime t))"
  by (rule u64.get_opt u32pair.get_opt u32.get_opt unixtime.get_opt;
      simp add: segSize_def segUIDGID_def segMode_def segTime_def time_ok_def)+

interpretation attrs: field_codec FileAttr_Encode DecodeAttrs attr_ok
proof
  fix a :: FileAttr and off and pre post :: bytes
  assume ok: "attr_ok a" and off: "off = length pre"
  let ?f = "PutUint32 (attrFlags a)" and ?s = "segSize a" and ?u = "segUIDGID a" and ?m = "segMode a"
    and ?t = "segTime (Mtime a)" and ?v = "segTime (Atime a)"
  let ?buf = "pre @ ?f @ ?s @ ?u @ ?m @ ?t @ ?v @ post"
  have "ReadUint32 ?buf off = Inr (attrFlags a, length (pre @ ?f))"
    using u32.get_put [OF TrueI off, of "attrFlags a" "?s @ ?u @ ?m @ ?t @ ?v @ post"] off by simp
  moreover have "optField (Size a \<noteq> 0) (ReadUint64 ?buf) 0 (length (pre @ ?f)) =
      Inr (Size a, length (pre @ ?f @ ?s))"
    using seg_opts(1) [of _ "pre @ ?f" a] by simp
  moreover have "optField ((UID a, GID a) \<noteq> (0, 0)) (readPair ?buf) (0, 0) (length (pre @ ?f @ ?s)) =
      Inr ((UID a, GID a), length (pre @ ?f @ ?s @ ?u))"
    using seg_opts(2) [of _ "pre @ ?f @ ?s" a] by simp
  moreover have "optField (Mode a \<noteq> 0) (ReadUint32 ?buf) 0 (length (pre @ ?f @ ?s @ ?u)) =
      Inr (Mode a, length (pre @ ?f @ ?s @ ?u @ ?m))"
    using seg_opts(3) [of _ "pre @ ?f @ ?s @ ?u" a] by simp
  moreover have "optField (Mtime a \<noteq> zeroTime) (readTime ?buf) zeroTime (length (pre @ ?f @ ?s @ ?u @ ?m)) =
      Inr (Mtime a, length (pre @ ?f @ ?s @ ?u @ ?m @ ?t))"
    using seg_opts(4) [of _ "pre @ ?f @ ?s @ ?u @ ?m" "Mtime a"] ok by (simp add: attr_ok_def)
  moreover have "optField (Atime a \<noteq> zeroTime) (readTime ?buf) zeroTime (length (pre @ ?f @ ?s @ ?u @ ?m @ ?t)) =
      Inr (Atime a, length (pre @ ?f @ ?s @ ?u @ ?m @ ?t @ ?v))"
    using seg_opts(4) [of _ "pre @ ?f @ ?s @ ?u @ ?m @ ?t" "Atime a"] ok by (simp add: attr_ok_def)
  ultimately show "DecodeAttrs (pre @ FileAttr_Encode a @ post) off = Inr (a, off + length (FileAttr_Encode a))"
    unfolding FileAttr_Encode_segments DecodeAttrs_def append_assoc
    by (simp add: attrFlags_bits off)
qed

subsection \<open>Packets\<close>

lemma ReadPacket_WritePacket:
  assumes "packet_ok p"
  shows "sftp_ReadPacket (WritePacket (ptype p) (Payload p) @ rest) = Inr (p, rest)"
proof -
  let ?n = "Suc (length (Payload p))"
  have n: "unat (word_of_nat ?n :: 32 word) = ?n" using assms by (subst unat_of_nat) (simp add: packet_ok_def)
  then have "(word_of_nat ?n :: 32 word) \<noteq> 0" by (metis nat.distinct(1) unsigned_0)
  moreover have "\<not> (word_of_nat ?n :: 32 word) > push_bit 24 1"
  proof -
    have "unat (push_bit 24 1 :: 32 word) = 2 ^ 24" by simp
    then show ?thesis using n assms by (simp add: word_less_nat_alt packet_ok_def del: of_nat_Suc)
  qed
  moreover have "ReadFull ?n ((ptype p # Payload p) @ rest) = Inr (ptype p # Payload p, rest)"
    by (rule ReadFull_append) simp
  ultimately show ?thesis
    using n by (simp add: sftp_ReadPacket_def WritePacket_def del: of_nat_Suc)
qed

interpretation sftp_codec: prefix_codec "\<lambda>p. WritePacket (ptype p) (Payload p)" sftp_ReadPacket packet_ok
  by unfold_locales (rule ReadPacket_WritePacket)

lemma DecodeStatus_EncodeStatus:
  assumes "field_str_ok msg"
  shows "DecodeStatus (EncodeStatus rid code msg lang) = Inr (rid, code, msg)"
proof -
  have eq: "EncodeStatus rid code msg lang =
      (PutUint32 rid @ PutUint32 code) @ AppendString [] msg @ AppendString [] lang"
    by (simp add: EncodeStatus_def AppendUint32_def AppendString_def)
  have "sftp_ReadString ((PutUint32 rid @ PutUint32 code) @ AppendString [] msg @ AppendString [] lang) 8 =
      Inr (msg, 8 + length (AppendString [] msg))"
    by (rule str.get_put [OF assms]) simp
  then show ?thesis by (simp add: DecodeStatus_def eq)
qed

lemma ReadPacket_too_long:
  assumes "2 ^ 24 \<le> length payload" and "Suc (length payload) < 2 ^ 32"
  shows "sftp_ReadPacket (WritePacket t payload @ rest) = Inl (Errorf ''sftp: unreasonable packet length'')"
proof -
  let ?n = "Suc (length payload)"
  have n: "unat (word_of_nat ?n :: 32 word) = ?n" using assms by (subst unat_of_nat) simp
  moreover have "unat (push_bit 24 1 :: 32 word) = 2 ^ 24" by simp
  ultimately have "(word_of_nat ?n :: 32 word) > push_bit 24 1"
    using assms by (simp add: word_less_nat_alt del: of_nat_Suc)
  then show ?thesis by (simp add: sftp_ReadPacket_def WritePacket_def del: of_nat_Suc)
qed

lemma nextRequestID_iterate:
  "k < 2 ^ 32 \<Longrightarrow> ((\<lambda>c. fst (nextRequestID c)) ^^ k) 0 = word_of_nat k"
proof (induction k)
  case (Suc k)
  have "unat (word_of_nat (Suc k) :: 32 word) = Suc k" using Suc.prems by (subst unat_of_nat) simp
  then have "(word_of_nat (Suc k) :: 32 word) \<noteq> 0" by (metis nat.distinct(1) unsigned_0)
  then show ?case using Suc by (simp add: nextRequestID_def Let_def add.commute)
qed simp

section \<open>Properties\<close>

text \<open>C30: a packet is read back exactly, whatever follows it, when its payload is shorter than 2^24
  bytes; a longer one, which \<open>WritePacket\<close> writes without complaint, is refused by \<open>ReadPacket\<close>.\<close>

theorem sftp_packet_roundtrip:
  assumes "Suc (length payload) < 2 ^ 32"
  shows "sftp_ReadPacket (WritePacket t payload @ rest) =
    (if length payload < 2 ^ 24 then Inr (\<lparr>ptype = t, Payload = payload\<rparr>, rest)
     else Inl (Errorf ''sftp: unreasonable packet length''))"
  using ReadPacket_WritePacket [of "\<lparr>ptype = t, Payload = payload\<rparr>" rest]
    ReadPacket_too_long [of payload t rest] assms
  by (auto simp: packet_ok_def)

theorem sftp_packet_roundtrip_witness:
  "sftp_ReadPacket (WritePacket TypeStat [1, 2, 3] @ [9]) = Inr (\<lparr>ptype = TypeStat, Payload = [1, 2, 3]\<rparr>, [9])"
  by (subst sftp_packet_roundtrip) simp_all

text \<open>file attributes survive the wire at any place of a payload: decoding at the offset where they
  were appended gives them back, absent fields included, and the offset after them, for times that
  are absent or fit the 32 bits the format has for them.\<close>

theorem sftp_attr_roundtrip:
  assumes "attr_ok a"
  shows "DecodeAttrs (pre @ FileAttr_Encode a @ post) (length pre) =
    Inr (a, length pre + length (FileAttr_Encode a))"
  by (rule attrs.get_put [OF assms refl])

theorem sftp_attr_roundtrip_witness:
  "DecodeAttrs ([7] @ FileAttr_Encode (zeroAttr\<lparr>Size := 12, Mtime := 1700000000\<rparr>) @ [8, 9]) 1 =
     Inr (zeroAttr\<lparr>Size := 12, Mtime := 1700000000\<rparr>,
       1 + length (FileAttr_Encode (zeroAttr\<lparr>Size := 12, Mtime := 1700000000\<rparr>)))"
  using sftp_attr_roundtrip [of "zeroAttr\<lparr>Size := 12, Mtime := 1700000000\<rparr>" "[7]" "[8, 9]"]
  by (simp add: attr_ok_def time_ok_def zeroAttr_def)

text \<open>the identifiers of the first 2^32 - 1 requests of a client are 1, 2, 3, ...: never 0 and no
  two the same, so a reply can only be matched to its own request.\<close>

theorem sftp_request_ids_distinct:
  assumes "0 < j" and "j < k" and "k < 2 ^ 32"
  shows "(let ident = (\<lambda>n. ((\<lambda>c. fst (nextRequestID c)) ^^ n) 0) in ident j \<noteq> ident k \<and> ident j \<noteq> 0)"
proof -
  have "unat (word_of_nat n :: 32 word) = n" if "n < 2 ^ 32" for n
    using that by (subst unat_of_nat) simp
  then have "(word_of_nat j :: 32 word) \<noteq> word_of_nat k" "(word_of_nat j :: 32 word) \<noteq> 0"
    using assms by (metis less_trans nat_neq_iff, metis less_trans nat_neq_iff unsigned_0)
  then show ?thesis using assms by (simp add: nextRequestID_iterate)
qed

theorem sftp_request_ids_distinct_witness:
  "(let ident = (\<lambda>n. ((\<lambda>c. fst (nextRequestID c)) ^^ n) 0) in ident 1 \<noteq> ident 5 \<and> ident 1 \<noteq> 0)"
  by (rule sftp_request_ids_distinct) simp_all

end
