(* ===== verification/GoOs.thy ===== *)
theory GoOs
  imports Go_Prelude
begin

text \<open>
  What the file backends use of the standard library: the lexical functions of \<open>path/filepath\<close> (on
  Unix), and the operating system as a record of functions on a state of its own, which are the parameters
  of the backends. Opened files are descriptors; errors keep the distinctions the callers make.
\<close>

section \<open>Definitions\<close>

subsection \<open>Package path/filepath\<close>

text \<open>The elements of a path: empty ones and dots vanish, dot-dot takes back the element before it.
  The first list is the stack of elements kept so far.\<close>

fun clean_elems :: "bool \<Rightarrow> string list \<Rightarrow> string list \<Rightarrow> string list" where
  "clean_elems rooted st [] = rev st"
| "clean_elems rooted st (c # cs) =
     (if c = [] \<or> c = ''.'' then clean_elems rooted st cs
      else if c = ''..'' then
        (case st of
           [] \<Rightarrow> clean_elems rooted (if rooted then [] else [''..'']) cs
         | x # xs \<Rightarrow> if x = ''..'' then clean_elems rooted (''..'' # st) cs else clean_elems rooted xs cs)
      else clean_elems rooted (c # st) cs)"

definition path_Clean :: "string \<Rightarrow> string" where
  "path_Clean p =
     (if p = [] then ''.''
      else let rooted = HasPrefix p ''/'';
               out = (if rooted then ''/'' else []) @ Join (clean_elems rooted [] (Split p CHR ''/'')) ''/''
           in if out = [] then ''.'' else out)"

definition path_Join :: "string list \<Rightarrow> string" where
  "path_Join elems =
     (case dropWhile (\<lambda>e. e = []) elems of [] \<Rightarrow> [] | es \<Rightarrow> path_Clean (Join es ''/''))"

definition path_Base :: "string \<Rightarrow> string" where
  "path_Base p =
     (if p = [] then ''.''
      else let q = dropWhile (\<lambda>c. c = CHR ''/'') (rev p)
           in if q = [] then ''/'' else rev (takeWhile (\<lambda>c. c \<noteq> CHR ''/'') q))"

subsection \<open>Package os\<close>

datatype os_error = ErrNotExist string | ErrPermission string | ErrEOF | ErrOther string

fun os_text :: "os_error \<Rightarrow> string" where
  "os_text (ErrNotExist s) = s"
| "os_text (ErrPermission s) = s"
| "os_text ErrEOF = ''EOF''"
| "os_text (ErrOther s) = s"

record FileInfo =
  fi_Name :: string
  fi_Size :: int
  fi_Perm :: "32 word"
  fi_IsDir :: bool
  fi_ModTime :: int

type_synonym descriptor = nat

record 'o OS =
  os_Abs :: "'o \<Rightarrow> string \<Rightarrow> os_error + string"
  os_Stat :: "'o \<Rightarrow> string \<Rightarrow> os_error + FileInfo"
  os_Lstat :: "'o \<Rightarrow> string \<Rightarrow> os_error + FileInfo"
  os_OpenFile :: "'o \<Rightarrow> string \<Rightarrow> 64 word \<Rightarrow> 'o \<times> (os_error + descriptor)"
  os_ReadDir :: "'o \<Rightarrow> string \<Rightarrow> os_error + (string \<times> (os_error + FileInfo)) list"
  os_MkdirAll :: "'o \<Rightarrow> string \<Rightarrow> 'o \<times> os_error option"
  os_Remove :: "'o \<Rightarrow> string \<Rightarrow> 'o \<times> os_error option"
  os_RemoveAll :: "'o \<Rightarrow> string \<Rightarrow> 'o \<times> os_error option"
  os_Rename :: "'o \<Rightarrow> string \<Rightarrow> string \<Rightarrow> 'o \<times> os_error option"
  file_Seek :: "'o \<Rightarrow> descriptor \<Rightarrow> int \<Rightarrow> 'o \<times> os_error option"
  file_Read :: "'o \<Rightarrow> descriptor \<Rightarrow> nat \<Rightarrow> 'o \<times> (os_error + bytes)"
  file_Write :: "'o \<Rightarrow> descriptor \<Rightarrow> bytes \<Rightarrow> 'o \<times> os_error option"
  file_Close :: "'o \<Rightarrow> descriptor \<Rightarrow> 'o \<times> os_error option"
  file_Readdir :: "'o \<Rightarrow> descriptor \<Rightarrow> os_error + FileInfo list"
  file_Rest :: "'o \<Rightarrow> descriptor \<Rightarrow> 'o \<times> bytes \<times> os_error option"

definition O_RDONLY :: "64 word" where "O_RDONLY = 0"
definition O_WRONLY :: "64 word" where "O_WRONLY = 1"
definition O_RDWR :: "64 word" where "O_RDWR = 2"
definition O_CREATE :: "64 word" where "O_CREATE = 0x40"
definition O_EXCL :: "64 word" where "O_EXCL = 0x80"
definition O_TRUNC :: "64 word" where "O_TRUNC = 0x200"
definition O_APPEND :: "64 word" where "O_APPEND = 0x400"

subsection \<open>Paths below a directory\<close>

definition abs_clean :: "string \<Rightarrow> bool" where
  "abs_clean root \<longleftrightarrow> HasPrefix root ''/'' \<and> path_Clean root = root"

definition below :: "string \<Rightarrow> string \<Rightarrow> bool" where
  "below root p \<longleftrightarrow> p = root \<or> HasPrefix p (root @ ''/'') \<or> (root = ''/'' \<and> HasPrefix p ''/'')"

definition dotdot_free :: "string \<Rightarrow> bool" where
  "dotdot_free p \<longleftrightarrow> ''..'' \<notin> set (Split p CHR ''/'')"

section \<open>Lemmas\<close>

lemma Split_append: "Split (s @ c # t) c = Split s c @ Split t c"
proof (induction s)
  case (Cons a s)
  then show ?case by (cases "Split s c") auto
qed simp

lemma clean_elems_append:
  "clean_elems rooted st (as @ bs) = clean_elems rooted (rev (clean_elems rooted st as)) bs"
  by (induction rooted st as rule: clean_elems.induct) (auto split: list.splits)

lemma clean_elems_no_dotdot:
  "''..'' \<notin> set cs \<Longrightarrow> clean_elems rooted st cs = rev st @ filter (\<lambda>c. c \<noteq> [] \<and> c \<noteq> ''.'') cs"
  by (induction rooted st cs rule: clean_elems.induct) auto

lemma Join_append:
  "as \<noteq> [] \<Longrightarrow> bs \<noteq> [] \<Longrightarrow> Join (as @ bs) sep = Join as sep @ sep @ Join bs sep"
proof (induction as)
  case (Cons a as)
  then show ?case by (cases as) (auto simp: Join_Cons)
qed simp

lemma below_Join: "root = ''/'' @ Join rs ''/'' \<Longrightarrow> below root (''/'' @ Join (rs @ xs) ''/'')"
proof -
  assume r: "root = ''/'' @ Join rs ''/''"
  consider "xs = []" | "rs = []" | "xs \<noteq> []" "rs \<noteq> []" by blast
  then show ?thesis
  proof cases
    case 3
    then have "''/'' @ Join (rs @ xs) ''/'' = (root @ ''/'') @ Join xs ''/''" using r by (simp add: Join_append)
    then show ?thesis unfolding below_def by (metis HasPrefix_append)
  qed (use r in \<open>simp_all add: below_def\<close>)
qed

lemma path_Clean_rooted:
  "HasPrefix p ''/'' \<Longrightarrow> path_Clean p = ''/'' @ Join (clean_elems True [] (Split p CHR ''/'')) ''/''"
  by (auto simp: path_Clean_def Let_def simp del: Split.simps)

lemma abs_clean_elems:
  assumes "abs_clean root"
  obtains rs where "clean_elems True [] (Split root CHR ''/'') = rs" and "root = ''/'' @ Join rs ''/''"
proof -
  have p: "HasPrefix root ''/''" and c: "path_Clean root = root" using assms unfolding abs_clean_def by simp_all
  show ?thesis using that [OF refl] path_Clean_rooted [OF p] c by metis
qed

lemma path_Clean_below:
  assumes root: "abs_clean root" and rel: "dotdot_free rel"
  shows "below root (path_Clean (root @ ''/'' @ rel))"
proof -
  obtain rs where rs: "clean_elems True [] (Split root CHR ''/'') = rs" and r: "root = ''/'' @ Join rs ''/''"
    by (rule abs_clean_elems [OF root])
  let ?xs = "filter (\<lambda>c. c \<noteq> [] \<and> c \<noteq> ''.'') (Split rel CHR ''/'')"
  have "Split (root @ ''/'' @ rel) CHR ''/'' = Split root CHR ''/'' @ Split rel CHR ''/''"
    using Split_append [of root] by simp
  then have "clean_elems True [] (Split (root @ ''/'' @ rel) CHR ''/'') = rs @ ?xs"
    using rel unfolding dotdot_free_def by (simp only: clean_elems_append rs clean_elems_no_dotdot rev_rev_ident not_False_eq_True)
  moreover have "HasPrefix (root @ ''/'' @ rel) ''/''" using r by simp
  ultimately have "path_Clean (root @ ''/'' @ rel) = ''/'' @ Join (rs @ ?xs) ''/''"
    by (simp only: path_Clean_rooted)
  then show ?thesis using below_Join [OF r] by (simp only:)
qed

lemma abs_clean_not_Nil: "abs_clean root \<Longrightarrow> root \<noteq> []"
  by (auto simp: abs_clean_def)

lemma path_Join_root: "abs_clean root \<Longrightarrow> path_Join [root, rel] = path_Clean (root @ ''/'' @ rel)"
  by (simp add: path_Join_def abs_clean_not_Nil)

lemma path_Join_below: "abs_clean root \<Longrightarrow> dotdot_free rel \<Longrightarrow> below root (path_Join [root, rel])"
  by (simp only: path_Join_root path_Clean_below)

lemma dotdot_free_TrimPrefix: "dotdot_free path \<Longrightarrow> dotdot_free (TrimPrefix path ''/'')"
  by (auto simp: TrimPrefix_def dotdot_free_def)

text \<open>An operating system on which every path is an empty file, for concrete runs.\<close>

definition emptyOS :: "unit OS" where
  "emptyOS =
     \<lparr>os_Abs = \<lambda>_ p. Inr p,
      os_Stat = \<lambda>_ p. Inr \<lparr>fi_Name = p, fi_Size = 0, fi_Perm = 420, fi_IsDir = False, fi_ModTime = 0\<rparr>,
      os_Lstat = \<lambda>_ p. Inr \<lparr>fi_Name = p, fi_Size = 0, fi_Perm = 420, fi_IsDir = False, fi_ModTime = 0\<rparr>,
      os_OpenFile = \<lambda>_ p f. ((), Inr 3), os_ReadDir = \<lambda>_ p. Inl (ErrOther p), os_MkdirAll = \<lambda>_ p. ((), None),
      os_Remove = \<lambda>_ p. ((), None), os_RemoveAll = \<lambda>_ p. ((), None), os_Rename = \<lambda>_ p q. ((), None),
      file_Seek = \<lambda>_ d k. ((), None), file_Read = \<lambda>_ d n. ((), Inl ErrEOF), file_Write = \<lambda>_ d b. ((), None),
      file_Close = \<lambda>_ d. ((), None), file_Readdir = \<lambda>_ d. Inl (ErrOther []), file_Rest = \<lambda>_ d. ((), [], None)\<rparr>"

end
