(* ===== verification/SftpServer.thy ===== *)
theory SftpServer
  imports SftpWire GoOs
begin

text \<open>
  Package \<open>sftp/server\<close>: the session loop of \<open>Serve\<close> with its handle table, one definition per case
  of its switch. The backend is the record of its methods over a state of its own; what the server
  writes is the list of packets, and a write to the channel succeeds.
\<close>

section \<open>Definitions\<close>

record FileStat =
  fs_Name :: string
  fs_Size :: "64 word"
  fs_Mode :: "32 word"
  fs_IsDir :: bool
  fs_Mtime :: int
  fs_UID :: "32 word"
  fs_GID :: "32 word"

type_synonym FileHandle = string

record 'b Backend =
  be_Stat :: "'b \<Rightarrow> string \<Rightarrow> os_error + FileStat"
  be_Lstat :: "'b \<Rightarrow> string \<Rightarrow> os_error + FileStat"
  be_Open :: "'b \<Rightarrow> string \<Rightarrow> 32 word \<Rightarrow> 'b \<times> (os_error + FileHandle)"
  be_Read :: "'b \<Rightarrow> FileHandle \<Rightarrow> 64 word \<Rightarrow> nat \<Rightarrow> 'b \<times> (os_error + bytes)"
  be_Write :: "'b \<Rightarrow> FileHandle \<Rightarrow> 64 word \<Rightarrow> bytes \<Rightarrow> 'b \<times> os_error option"
  be_Close :: "'b \<Rightarrow> FileHandle \<Rightarrow> 'b \<times> os_error option"
  be_Readdir :: "'b \<Rightarrow> string \<Rightarrow> os_error + FileStat list"
  be_Mkdir :: "'b \<Rightarrow> string \<Rightarrow> 'b \<times> os_error option"
  be_Rmdir :: "'b \<Rightarrow> string \<Rightarrow> 'b \<times> os_error option"
  be_Remove :: "'b \<Rightarrow> string \<Rightarrow> 'b \<times> os_error option"
  be_Rename :: "'b \<Rightarrow> string \<Rightarrow> string \<Rightarrow> 'b \<times> os_error option"

text \<open>The variables of \<open>Serve\<close> and the state of the backend.\<close>

record 'b SftpState =
  handles :: "(FileHandle \<times> FileHandle) list"
  drained :: "(FileHandle \<times> bool) list"
  nextID :: "32 word"
  backend :: 'b

definition newHandle :: "'b SftpState \<Rightarrow> FileHandle \<Rightarrow> 'b SftpState \<times> FileHandle" where
  "newHandle st real =
     (let n = nextID st + 1; h = ''h'' @ show_nat (unat n)
      in (st\<lparr>nextID := n, handles := AList.update h real (handles st)\<rparr>, h))"

definition resolve :: "'b SftpState \<Rightarrow> FileHandle \<Rightarrow> FileHandle result" where
  "resolve st h =
     (case map_of (handles st) h of None \<Rightarrow> Inl (Errorf ''invalid handle'') | Some real \<Rightarrow> Inr real)"

definition markDrained :: "'b SftpState \<Rightarrow> FileHandle \<Rightarrow> 'b SftpState" where
  "markDrained st h = st\<lparr>drained := AList.update h True (drained st)\<rparr>"

definition isDrained :: "'b SftpState \<Rightarrow> FileHandle \<Rightarrow> bool" where
  "isDrained st h = (map_of (drained st) h = Some True)"

definition drop_handle :: "'b SftpState \<Rightarrow> FileHandle \<Rightarrow> 'b SftpState" where
  "drop_handle st h =
     st\<lparr>handles := AList.delete h (handles st), drained := AList.delete h (drained st)\<rparr>"

text \<open>How a case of the switch ends: \<open>continue\<close> or the end of the case, \<open>return\<close>, or a panic.\<close>

datatype flow = Continue | Return | Crash string

type_synonym 'b outcome = "'b SftpState \<times> Packet list \<times> flow"

definition mapErr :: "os_error option \<Rightarrow> StatusCode" where
  "mapErr err =
     (case err of
        None \<Rightarrow> StatusOK
      | Some (ErrNotExist _) \<Rightarrow> StatusNoSuchFile
      | Some (ErrPermission _) \<Rightarrow> StatusPermissionDenied
      | Some _ \<Rightarrow> StatusFailure)"

definition sendStatus :: "RequestID \<Rightarrow> StatusCode \<Rightarrow> string \<Rightarrow> Packet list" where
  "sendStatus rid code msg = [\<lparr>ptype = TypeStatus, Payload = EncodeStatus rid code msg []\<rparr>]"

definition attrOfStat :: "FileStat \<Rightarrow> FileAttr" where
  "attrOfStat st =
     \<lparr>Size = fs_Size st, UID = fs_UID st, GID = fs_GID st, Mode = fs_Mode st,
      Mtime = (if fs_Mtime st \<noteq> 0 then fs_Mtime st else zeroTime), Atime = zeroTime\<rparr>"

definition sendAttrs :: "RequestID \<Rightarrow> FileStat \<Rightarrow> Packet list" where
  "sendAttrs rid st =
     [\<lparr>ptype = TypeAttrs, Payload = AppendUint32 [] rid @ FileAttr_Encode (attrOfStat st)\<rparr>]"

definition sendHandle :: "RequestID \<Rightarrow> FileHandle \<Rightarrow> Packet list" where
  "sendHandle rid h = [\<lparr>ptype = TypeHandle, Payload = AppendString (AppendUint32 [] rid) h\<rparr>]"

definition badMessage :: "'b SftpState \<Rightarrow> RequestID \<Rightarrow> error \<Rightarrow> 'b outcome" where
  "badMessage st rid e = (st, sendStatus rid StatusBadMessage (err_text e), Return)"

text \<open>The reply to an operation that returns only an error.\<close>

definition statusOf :: "'b SftpState \<Rightarrow> RequestID \<Rightarrow> 'b \<times> os_error option \<Rightarrow> 'b outcome" where
  "statusOf st rid res =
     (case res of
        (b, Some e) \<Rightarrow> (st\<lparr>backend := b\<rparr>, sendStatus rid (mapErr (Some e)) (os_text e), Continue)
      | (b, None) \<Rightarrow> (st\<lparr>backend := b\<rparr>, sendStatus rid StatusOK [], Continue))"

definition handleOpen :: "'b Backend \<Rightarrow> 'b SftpState \<Rightarrow> RequestID \<Rightarrow> bytes \<Rightarrow> 'b outcome" where
  "handleOpen B st rid rest =
     (case sftp_ReadString rest 0 of
        Inl e \<Rightarrow> badMessage st rid e
      | Inr (path, off) \<Rightarrow>
     (case ReadUint32 rest off of
        Inl e \<Rightarrow> badMessage st rid e
      | Inr (pFlags, _) \<Rightarrow>
     (case be_Open B (backend st) path pFlags of
        (b, Inl e) \<Rightarrow> (st\<lparr>backend := b\<rparr>, sendStatus rid (mapErr (Some e)) (os_text e), Continue)
      | (b, Inr real) \<Rightarrow>
          (case newHandle (st\<lparr>backend := b\<rparr>) real of (st', h) \<Rightarrow> (st', sendHandle rid h, Continue)))))"

definition handleClose :: "'b Backend \<Rightarrow> 'b SftpState \<Rightarrow> RequestID \<Rightarrow> bytes \<Rightarrow> 'b outcome" where
  "handleClose B st rid rest =
     (case sftp_ReadString rest 0 of
        Inl e \<Rightarrow> badMessage st rid e
      | Inr (h, _) \<Rightarrow>
     (case resolve st h of
        Inl e \<Rightarrow> (st, sendStatus rid StatusFailure (err_text e), Continue)
      | Inr real \<Rightarrow>
          (drop_handle (st\<lparr>backend := fst (be_Close B (backend st) real)\<rparr>) h, sendStatus rid StatusOK [], Continue)))"

definition handleRead :: "'b Backend \<Rightarrow> 'b SftpState \<Rightarrow> RequestID \<Rightarrow> bytes \<Rightarrow> 'b outcome" where
  "handleRead B st rid rest =
     (case sftp_ReadString rest 0 of
        Inl e \<Rightarrow> badMessage st rid e
      | Inr (h, off) \<Rightarrow>
     (case ReadUint64 rest off of
        Inl e \<Rightarrow> badMessage st rid e
      | Inr (offset, off) \<Rightarrow>
     (case ReadUint32 rest off of
        Inl e \<Rightarrow> badMessage st rid e
      | Inr (sz, _) \<Rightarrow>
     (case resolve st h of
        Inl e \<Rightarrow> (st, sendStatus rid StatusFailure (err_text e), Continue)
      | Inr real \<Rightarrow>
     (case be_Read B (backend st) real offset (unat sz) of
        (b, Inl ErrEOF) \<Rightarrow> (st\<lparr>backend := b\<rparr>, sendStatus rid StatusEOF [], Continue)
      | (b, Inl e) \<Rightarrow> (st\<lparr>backend := b\<rparr>, sendStatus rid (mapErr (Some e)) (os_text e), Continue)
      | (b, Inr buf) \<Rightarrow>
          if length buf > unat sz then (st\<lparr>backend := b\<rparr>, [], Crash ''slice bounds out of range'')
          else (st\<lparr>backend := b\<rparr>,
                [\<lparr>ptype = TypeData,
                  Payload = AppendUint32 (AppendUint32 [] rid) (word_of_nat (length buf)) @ buf\<rparr>], Continue))))))"

definition handleWrite :: "'b Backend \<Rightarrow> 'b SftpState \<Rightarrow> RequestID \<Rightarrow> bytes \<Rightarrow> 'b outcome" where
  "handleWrite B st rid rest =
     (case sftp_ReadString rest 0 of
        Inl e \<Rightarrow> badMessage st rid e
      | Inr (h, off) \<Rightarrow>
     (case ReadUint64 rest off of
        Inl e \<Rightarrow> badMessage st rid e
      | Inr (offset, off) \<Rightarrow>
     (case sftp_ReadString rest off of
        Inl e \<Rightarrow> badMessage st rid e
      | Inr (d, _) \<Rightarrow>
     (case resolve st h of
        Inl e \<Rightarrow> (st, sendStatus rid StatusFailure (err_text e), Continue)
      | Inr real \<Rightarrow> statusOf st rid (be_Write B (backend st) real offset (bytes_of d))))))"

text \<open>STAT and LSTAT.\<close>

definition handleStat ::
  "('b \<Rightarrow> string \<Rightarrow> os_error + FileStat) \<Rightarrow> 'b SftpState \<Rightarrow> RequestID \<Rightarrow> bytes \<Rightarrow> 'b outcome" where
  "handleStat stat st rid rest =
     (case sftp_ReadString rest 0 of
        Inl e \<Rightarrow> badMessage st rid e
      | Inr (path, _) \<Rightarrow>
     (case stat (backend st) path of
        Inl e \<Rightarrow> (st, sendStatus rid (mapErr (Some e)) (os_text e), Continue)
      | Inr fs \<Rightarrow> (st, sendAttrs rid fs, Continue)))"

definition handleOpendir :: "'b Backend \<Rightarrow> 'b SftpState \<Rightarrow> RequestID \<Rightarrow> bytes \<Rightarrow> 'b outcome" where
  "handleOpendir B st rid rest =
     (case sftp_ReadString rest 0 of
        Inl e \<Rightarrow> badMessage st rid e
      | Inr (path, _) \<Rightarrow>
     (case be_Readdir B (backend st) path of
        Inl e \<Rightarrow> (st, sendStatus rid (mapErr (Some e)) (os_text e), Continue)
      | Inr _ \<Rightarrow>
          (case newHandle st (''dir:'' @ path) of (st', h) \<Rightarrow> (st', sendHandle rid h, Continue))))"

definition nameEntry :: "FileStat \<Rightarrow> bytes" where
  "nameEntry e = AppendString (AppendString [] (fs_Name e)) [] @ FileAttr_Encode (attrOfStat e)"

definition handleReaddir :: "'b Backend \<Rightarrow> 'b SftpState \<Rightarrow> RequestID \<Rightarrow> bytes \<Rightarrow> 'b outcome" where
  "handleReaddir B st rid rest =
     (case sftp_ReadString rest 0 of
        Inl e \<Rightarrow> badMessage st rid e
      | Inr (h, _) \<Rightarrow>
          if isDrained st h then (st, sendStatus rid StatusEOF [], Continue)
          else
     (case resolve st h of
        Inl e \<Rightarrow> (st, sendStatus rid StatusFailure (err_text e), Continue)
      | Inr real \<Rightarrow>
          if length real < 4 then (st, [], Crash ''slice bounds out of range'')
          else
     (case be_Readdir B (backend st) (drop 4 real) of
        Inl e \<Rightarrow> (st, sendStatus rid (mapErr (Some e)) (os_text e), Continue)
      | Inr entries \<Rightarrow>
          (markDrained st h,
           [\<lparr>ptype = TypeName, Payload = AppendUint32 [] rid @ concat (map nameEntry entries)\<rparr>], Continue))))"

text \<open>MKDIR, RMDIR and REMOVE.\<close>

definition handlePathOp ::
  "('b \<Rightarrow> string \<Rightarrow> 'b \<times> os_error option) \<Rightarrow> 'b SftpState \<Rightarrow> RequestID \<Rightarrow> bytes \<Rightarrow> 'b outcome" where
  "handlePathOp op st rid rest =
     (case sftp_ReadString rest 0 of
        Inl e \<Rightarrow> badMessage st rid e
      | Inr (path, _) \<Rightarrow> statusOf st rid (op (backend st) path))"

definition handleRename :: "'b Backend \<Rightarrow> 'b SftpState \<Rightarrow> RequestID \<Rightarrow> bytes \<Rightarrow> 'b outcome" where
  "handleRename B st rid rest =
     (case sftp_ReadString rest 0 of
        Inl e \<Rightarrow> badMessage st rid e
      | Inr (src, off) \<Rightarrow>
     (case sftp_ReadString rest off of
        Inl e \<Rightarrow> badMessage st rid e
      | Inr (dst, _) \<Rightarrow> statusOf st rid (be_Rename B (backend st) src dst)))"

text \<open>One round of the loop on a packet that has been read.\<close>

definition handlePacket :: "'b Backend \<Rightarrow> 'b SftpState \<Rightarrow> Packet \<Rightarrow> 'b outcome" where
  "handlePacket B st pkt =
     (if length (Payload pkt) < 4 then (st, [], Continue)
      else
        let rid = Uint32 (take 4 (Payload pkt)); rest = drop 4 (Payload pkt); t = ptype pkt
        in if t = TypeOpen then handleOpen B st rid rest
           else if t = TypeClose then handleClose B st rid rest
           else if t = TypeRead then handleRead B st rid rest
           else if t = TypeWrite then handleWrite B st rid rest
           else if t = TypeStat then handleStat (be_Stat B) st rid rest
           else if t = TypeLstat then handleStat (be_Lstat B) st rid rest
           else if t = TypeOpendir then handleOpendir B st rid rest
           else if t = TypeReaddir then handleReaddir B st rid rest
           else if t = TypeMkdir then handlePathOp (be_Mkdir B) st rid rest
           else if t = TypeRmdir then handlePathOp (be_Rmdir B) st rid rest
           else if t = TypeRemove then handlePathOp (be_Remove B) st rid rest
           else if t = TypeRename then handleRename B st rid rest
           else (st, sendStatus rid StatusOpUnsupported ''unsupported'', Continue))"

text \<open>The loop: every packet read shortens the input.\<close>

lemma sftp_ReadPacket_shrinks: "sftp_ReadPacket r = Inr (pkt, r') \<Longrightarrow> length r' < length r"
  by (auto simp: sftp_ReadPacket_def Let_def split: sum.splits if_splits dest!: ReadFull_shrinks)

function serveLoop :: "'b Backend \<Rightarrow> 'b SftpState \<Rightarrow> bytes \<Rightarrow> 'b SftpState \<times> Packet list \<times> unit result" where
  "serveLoop B st r =
     (case sftp_ReadPacket r of
        Inl e \<Rightarrow> (st, [], if e = IO_EOF then Inr () else Inl e)
      | Inr (pkt, r') \<Rightarrow>
     (case handlePacket B st pkt of
        (st', replies, Continue) \<Rightarrow>
          (case serveLoop B st' r' of (st'', replies', res) \<Rightarrow> (st'', replies @ replies', res))
      | (st', replies, Return) \<Rightarrow> (st', replies, Inr ())
      | (st', replies, Crash m) \<Rightarrow> (st', replies, Inl (Panic m))))"
  by pat_completeness auto
termination
  by (relation "measure (\<lambda>(B, st, r). length r)") (auto dest: sftp_ReadPacket_shrinks)

declare serveLoop.simps [simp del]

definition initState :: "'b \<Rightarrow> 'b SftpState" where
  "initState b = \<lparr>handles = [], drained = [], nextID = 0, backend = b\<rparr>"

definition sftp_Serve :: "'b Backend \<Rightarrow> 'b \<Rightarrow> bytes \<Rightarrow> 'b SftpState \<times> Packet list \<times> unit result" where
  "sftp_Serve B b r =
     (case sftp_ReadPacket r of
        Inl e \<Rightarrow> (initState b, [], Inl e)
      | Inr (init, r) \<Rightarrow>
          if ptype init \<noteq> TypeInit then (initState b, [], Inl (Errorf ''sftp: expected INIT''))
          else
     (case ReadInit init of
        Inl e \<Rightarrow> (initState b, [], Inl e)
      | Inr ver \<Rightarrow>
          if ver \<noteq> Version then (initState b, [], Inl (Errorf ''sftp: unsupported client version''))
          else (case serveLoop B (initState b) r of
                  (st, replies, res) \<Rightarrow>
                    (st, \<lparr>ptype = TypeVersion, Payload = AppendUint32 [] Version\<rparr> # replies, res))))"

text \<open>What a packet asks to close.\<close>

definition closes :: "Packet \<Rightarrow> FileHandle \<Rightarrow> bool" where
  "closes pkt h \<longleftrightarrow>
     ptype pkt = TypeClose \<and>
     (case sftp_ReadString (drop 4 (Payload pkt)) 0 of Inl _ \<Rightarrow> False | Inr (h', _) \<Rightarrow> h' = h)"

definition request_id :: "Packet \<Rightarrow> RequestID" where
  "request_id pkt = Uint32 (take 4 (Payload pkt))"

text \<open>What a request may do to the handle table: nothing, one new handle, the end of a handle it closes,
  or the mark on a handle of the table.\<close>

inductive table_step :: "(FileHandle \<Rightarrow> bool) \<Rightarrow> 'b SftpState \<Rightarrow> 'b SftpState \<Rightarrow> bool" where
  table_keep: "table_step C st (st\<lparr>backend := b\<rparr>)"
| table_new: "table_step C st (fst (newHandle (st\<lparr>backend := b\<rparr>) real))"
| table_drop: "C h \<Longrightarrow> table_step C st (drop_handle (st\<lparr>backend := b\<rparr>) h)"
| table_mark: "resolve st h = Inr real \<Longrightarrow> table_step C st (markDrained st h)"

text \<open>The handle table: handles are numbered, at most once, up to the counter, and only they are marked.\<close>

definition handle_name :: "32 word \<Rightarrow> FileHandle" where
  "handle_name n = ''h'' @ show_nat (unat n)"

definition table_ok :: "'b SftpState \<Rightarrow> bool" where
  "table_ok st \<longleftrightarrow>
     distinct (map fst (handles st)) \<and> fst ` set (drained st) \<subseteq> fst ` set (handles st) \<and>
     fst ` set (handles st) \<subseteq> range handle_name"

definition numbered :: "nat \<Rightarrow> 'b SftpState \<Rightarrow> bool" where
  "numbered n st \<longleftrightarrow>
     unat (nextID st) \<le> n \<and>
     (\<forall>h \<in> fst ` set (handles st). \<exists>k. 0 < k \<and> k \<le> nextID st \<and> h = handle_name k)"

section \<open>Lemmas\<close>

lemma show_nat_inject [simp]: "show_nat m = show_nat n \<longleftrightarrow> m = n"
  by (metis option.inject parse_nat_show_nat)

lemma handle_name_inject [simp]: "handle_name m = handle_name n \<longleftrightarrow> m = n"
  by (simp add: handle_name_def word_unat_eq_iff)

lemma newHandle_eq:
  "newHandle st real =
     (st\<lparr>nextID := nextID st + 1,
         handles := AList.update (handle_name (nextID st + 1)) real (handles st)\<rparr>,
      handle_name (nextID st + 1))"
  by (simp add: newHandle_def handle_name_def Let_def)

lemma table_keep_same [simp, intro]: "table_step C st st"
  using table_keep [of C st "backend st"] by simp

lemma table_newI:
  "newHandle (st\<lparr>backend := b\<rparr>) real = (st', h) \<Longrightarrow> table_step C st st'"
  "newHandle st real = (st', h) \<Longrightarrow> table_step C st st'"
  using table_new [of C st b real] table_new [of C st "backend st" real] by auto

text \<open>The replies of a handler: one packet that starts with the id of the request, the report of a bad
  message when it ends the session, and none at all when it crashes.\<close>

definition answers :: "RequestID \<Rightarrow> Packet list \<Rightarrow> flow \<Rightarrow> bool" where
  "answers rid replies fl \<longleftrightarrow>
     (case fl of
        Continue \<Rightarrow> (\<exists>t body. replies = [\<lparr>ptype = t, Payload = PutUint32 rid @ body\<rparr>])
      | Return \<Rightarrow> (\<exists>msg. replies = sendStatus rid StatusBadMessage msg)
      | Crash _ \<Rightarrow> replies = [])"

lemma answers_send [simp]:
  "answers rid (sendStatus rid code msg) Continue" "answers rid (sendStatus rid StatusBadMessage msg) Return"
  "answers rid (sendAttrs rid fs) Continue" "answers rid (sendHandle rid h) Continue"
  "answers rid [] (Crash m)" "answers rid [\<lparr>ptype = t, Payload = AppendUint32 [] rid @ body\<rparr>] Continue"
  "answers rid [\<lparr>ptype = t, Payload = AppendUint32 (AppendUint32 [] rid) w @ body\<rparr>] Continue"
  by (auto simp: answers_def sendStatus_def sendAttrs_def sendHandle_def EncodeStatus_def AppendUint32_def
      AppendString_def)

text \<open>A handler answers its request and makes a step of the table.\<close>

definition serves :: "(FileHandle \<Rightarrow> bool) \<Rightarrow> 'b SftpState \<Rightarrow> RequestID \<Rightarrow> 'b outcome \<Rightarrow> bool" where
  "serves C st rid out \<longleftrightarrow>
     (case out of (st', replies, fl) \<Rightarrow> table_step C st st' \<and> answers rid replies fl)"

lemma serves_badMessage [simp]: "serves C st rid (badMessage st rid e)"
  by (auto simp: serves_def badMessage_def)

lemma serves_statusOf [simp]: "serves C st rid (statusOf st rid res)"
  by (auto simp: serves_def statusOf_def intro: table_keep split: prod.splits option.splits)

lemma serves_handleOpen [simp]: "serves C st rid (handleOpen B st rid rest)"
  by (auto simp: handleOpen_def serves_def [of _ _ _ "(_, _)"] intro: table_keep table_newI
      split: sum.splits prod.splits)

lemma serves_handleRead [simp]: "serves C st rid (handleRead B st rid rest)"
  by (auto simp: handleRead_def serves_def [of _ _ _ "(_, _)"] intro: table_keep
      split: sum.splits prod.splits os_error.splits)

lemma serves_handleWrite [simp]: "serves C st rid (handleWrite B st rid rest)"
  by (auto simp: handleWrite_def serves_def [of _ _ _ "(_, _)"] split: sum.splits)

lemma serves_handleStat [simp]: "serves C st rid (handleStat stat st rid rest)"
  by (auto simp: handleStat_def serves_def [of _ _ _ "(_, _)"] split: sum.splits)

lemma serves_handleOpendir [simp]: "serves C st rid (handleOpendir B st rid rest)"
  by (auto simp: handleOpendir_def serves_def [of _ _ _ "(_, _)"] intro: table_newI split: sum.splits prod.splits)

lemma serves_handleReaddir [simp]: "serves C st rid (handleReaddir B st rid rest)"
  by (auto simp: handleReaddir_def serves_def [of _ _ _ "(_, _)"] intro: table_mark split: sum.splits)

lemma serves_handlePathOp [simp]: "serves C st rid (handlePathOp op st rid rest)"
  by (auto simp: handlePathOp_def split: sum.splits)

lemma serves_handleRename [simp]: "serves C st rid (handleRename B st rid rest)"
  by (auto simp: handleRename_def split: sum.splits)

lemma serves_handleClose [simp]:
  "ptype pkt = TypeClose \<Longrightarrow> rest = drop 4 (Payload pkt) \<Longrightarrow> serves (closes pkt) st rid (handleClose B st rid rest)"
  by (auto simp: handleClose_def serves_def [of _ _ _ "(_, _)"] closes_def intro!: table_drop split: sum.splits)

lemma serves_handlePacket:
  "4 \<le> length (Payload pkt) \<Longrightarrow> serves (closes pkt) st (request_id pkt) (handlePacket B st pkt)"
  by (simp add: handlePacket_def Let_def request_id_def serves_def [of _ _ _ "(_, _)"])

lemma handlePacket_step:
  assumes "4 \<le> length (Payload pkt)" and "handlePacket B st pkt = (st', replies, fl)"
  shows "table_step (closes pkt) st st'" and "answers (request_id pkt) replies fl"
  using serves_handlePacket [OF assms(1), of st B] assms(2) by (auto simp: serves_def)

lemma handlePacket_short: "length (Payload pkt) < 4 \<Longrightarrow> handlePacket B st pkt = (st, [], Continue)"
  by (simp add: handlePacket_def)

lemma handlePacket_table_step: "handlePacket B st pkt = (st', replies, fl) \<Longrightarrow> table_step (closes pkt) st st'"
  using handlePacket_step(1) handlePacket_short by (metis Pair_inject not_less table_keep_same)

subsection \<open>The handle table\<close>

lemma fst_set_update [simp]: "fst ` set (AList.update k v m) = insert k (fst ` set m)"
  by (simp add: AList.dom_update)

lemma fst_set_delete [simp]: "fst ` set (AList.delete k m) = fst ` set m - {k}"
  by (auto simp: AList.delete_eq)

lemma resolve_iff: "resolve st h = Inr real \<longleftrightarrow> map_of (handles st) h = Some real"
  by (auto simp: resolve_def split: option.splits)

lemma resolve_in_table: "resolve st h = Inr real \<Longrightarrow> h \<in> fst ` set (handles st)"
  by (auto simp: resolve_iff dest!: map_of_SomeD intro: rev_image_eqI)

lemma table_ok_step: "table_step C st st' \<Longrightarrow> table_ok st \<Longrightarrow> table_ok st'"
  by (induction rule: table_step.induct)
    (auto simp: table_ok_def newHandle_eq drop_handle_def markDrained_def distinct_delete dest: resolve_in_table
      intro!: AList.distinct_update)

text \<open>Below the wrap-around of the counter a new handle is larger than every handle of the table.\<close>

lemma succ_nextID:
  "numbered n st \<Longrightarrow> n < 2 ^ 32 - 1 \<Longrightarrow> unat (nextID st + 1) = unat (nextID st) + 1"
  by (subst unat_plus_simple [THEN iffD1]) (auto simp: numbered_def word_le_nat_alt unat_word_ariths)

lemma numbered_step:
  assumes "table_step C st st'" and "numbered n st" and n: "n < 2 ^ 32 - 1"
  shows "numbered (Suc n) st'"
  using assms(1,2)
proof (induction rule: table_step.induct)
  case (table_new C st b real)
  have succ: "unat (nextID st + 1) = unat (nextID st) + 1" using succ_nextID [OF table_new n] .
  then have "0 < nextID st + 1" by (simp add: word_less_nat_alt)
  moreover have "k \<le> nextID st \<Longrightarrow> k \<le> nextID st + 1" for k using succ by (simp add: word_le_nat_alt)
  ultimately show ?case using table_new succ by (fastforce simp: numbered_def newHandle_eq)
qed (auto simp: numbered_def drop_handle_def markDrained_def)

text \<open>Handles that have been issued, whether they are still open or not.\<close>

definition issued :: "'b SftpState \<Rightarrow> FileHandle \<Rightarrow> bool" where
  "issued st h \<longleftrightarrow> (\<exists>k. k \<le> nextID st \<and> h = handle_name k)"

lemma issued_step:
  assumes "table_step C st st'" and "numbered n st" and n: "n < 2 ^ 32 - 1" and "issued st h"
  shows "issued st' h"
  using assms(1,2,4)
proof (induction rule: table_step.induct)
  case (table_new C st b real)
  then show ?case using succ_nextID [OF table_new(1) n]
    by (fastforce simp: issued_def newHandle_eq word_le_nat_alt)
qed (auto simp: issued_def drop_handle_def markDrained_def)

text \<open>A step changes what an issued handle stands for only by closing it.\<close>

lemma resolve_step:
  assumes "table_step C st st'" and "numbered n st" and n: "n < 2 ^ 32 - 1" and "issued st h" and "\<not> C h"
  shows "map_of (handles st') h = map_of (handles st) h"
  using assms(1,2,4,5)
proof (induction rule: table_step.induct)
  case (table_new C st b real)
  then have "h \<noteq> handle_name (nextID st + 1)" using succ_nextID [OF table_new(1) n]
    by (auto simp: issued_def word_le_nat_alt)
  then show ?case by (simp add: newHandle_eq)
qed (auto simp: drop_handle_def markDrained_def)

lemma resolve_closed:
  assumes "table_step C st st'" and "numbered n st" and n: "n < 2 ^ 32 - 1" and "issued st h"
    and "map_of (handles st) h = None"
  shows "map_of (handles st') h = None"
  using assms(1,2,4,5)
proof (induction rule: table_step.induct)
  case (table_new C st b real)
  then have "h \<noteq> handle_name (nextID st + 1)" using succ_nextID [OF table_new(1) n]
    by (auto simp: issued_def word_le_nat_alt)
  then show ?case using table_new by (simp add: newHandle_eq)
qed (auto simp: drop_handle_def markDrained_def)

lemma numbered_issued: "numbered n st \<Longrightarrow> h \<in> fst ` set (handles st) \<Longrightarrow> issued st h"
  by (auto simp: numbered_def issued_def)

subsection \<open>Sessions\<close>

text \<open>A session is a machine that reads request packets and writes reply packets.\<close>

interpretation sftp_session: state_machine "\<lambda>st. st = initState b"
    "\<lambda>st pkt replies st'. handlePacket B st pkt = (st', replies, Continue)" for B b .

lemma initState_ok [simp]: "table_ok (initState b)" "numbered 0 (initState b)"
  by (simp_all add: initState_def table_ok_def numbered_def)

lemma session_numbered:
  assumes "sftp_session.run B (initState b) tr st" and "length tr < 2 ^ 32"
  shows "numbered (length tr) st"
proof -
  have "numbered (0 + length tr) st"
  proof (rule sftp_session.run_budget [of numbered "2 ^ 32 - 1" "\<lambda>_. True", OF _ assms(1)])
    fix n st pkt out st'
    assume "numbered n st" "n < 2 ^ 32 - 1" "handlePacket B st pkt = (st', out, Continue)"
    then show "numbered (Suc n) st'" using numbered_step handlePacket_table_step by blast
  qed (use assms in auto)
  then show ?thesis by simp
qed

lemma session_resolve:
  assumes run: "sftp_session.run B st tr st'" and "numbered n st" and "n + length tr < 2 ^ 32"
    and "issued st h" and "map_of (handles st) h = r"
    and "r = None \<or> (\<forall>(pkt, out) \<in> set tr. \<not> closes pkt h)"
  shows "map_of (handles st') h = r"
proof -
  let ?I = "\<lambda>n st. numbered n st \<and> issued st h \<and> map_of (handles st) h = r"
  have "?I (n + length tr) st'"
  proof (rule sftp_session.run_budget [of ?I "2 ^ 32 - 1" "\<lambda>pkt. r = None \<or> \<not> closes pkt h", OF _ run])
    fix n st pkt out st'
    assume I: "?I n st" and n: "n < 2 ^ 32 - 1" and c: "r = None \<or> \<not> closes pkt h"
      and "handlePacket B st pkt = (st', out, Continue)"
    then have "table_step (closes pkt) st st'" using handlePacket_table_step by blast
    with I n c show "?I (Suc n) st'"
      by (metis numbered_step issued_step resolve_step resolve_closed)
  qed (use assms in auto)
  then show ?thesis by simp
qed

lemma request_id_reply [simp]: "request_id \<lparr>ptype = t, Payload = PutUint32 rid @ body\<rparr> = rid"
  by (simp add: request_id_def)

lemma request_id_sendStatus: "sendStatus rid code msg = [p] \<Longrightarrow> request_id p = rid \<and> ptype p = TypeStatus"
  by (auto simp: sendStatus_def EncodeStatus_def AppendUint32_def AppendString_def)

text \<open>The packets of a client on the wire.\<close>

abbreviation wire :: "Packet list \<Rightarrow> bytes" where
  "wire pkts \<equiv> concat (map (\<lambda>p. WritePacket (ptype p) (Payload p)) pkts)"

lemma serveLoop_wire_Cons:
  assumes "packet_ok p"
  shows "serveLoop B st (wire (p # pkts)) =
     (case handlePacket B st p of
        (st', replies, Continue) \<Rightarrow>
          (case serveLoop B st' (wire pkts) of (st'', replies', res) \<Rightarrow> (st'', replies @ replies', res))
      | (st', replies, Return) \<Rightarrow> (st', replies, Inr ())
      | (st', replies, Crash m) \<Rightarrow> (st', replies, Inl (Panic m)))"
  using sftp_codec.dec_enc [OF assms] by (subst serveLoop.simps) simp

lemma serveLoop_wire_Nil: "serveLoop B st (wire []) = (st, [], Inr ())"
  by (subst serveLoop.simps) (simp add: sftp_ReadPacket_def ReadFull_def)

text \<open>How the loop can end on packets a client has written.\<close>

definition ends_well :: "Packet list \<Rightarrow> Packet list \<Rightarrow> unit result \<Rightarrow> bool" where
  "ends_well pkts replies res \<longleftrightarrow>
     (length replies = length pkts \<and> res = Inr ()) \<or>
     (replies \<noteq> [] \<and> res = Inr () \<and> (\<exists>rid msg. [last replies] = sendStatus rid StatusBadMessage msg)) \<or>
     (length replies < length pkts \<and> (\<exists>m. res = Inl (Panic m)))"

lemma ends_well_Cons: "ends_well pkts replies res \<Longrightarrow> ends_well (p # pkts) (r # replies) res"
  by (auto simp: ends_well_def)

lemma serveLoop_replies:
  "\<forall>p \<in> set pkts. packet_ok p \<and> 4 \<le> length (Payload p) \<Longrightarrow>
   serveLoop B st (wire pkts) = (st', replies, res) \<Longrightarrow>
   prefix (map request_id replies) (map request_id pkts) \<and> ends_well pkts replies res"
proof (induction pkts arbitrary: st replies)
  case Nil
  then show ?case by (simp only: serveLoop_wire_Nil) (auto simp: ends_well_def)
next
  case (Cons p pkts)
  obtain st1 reps fl where h: "handlePacket B st p = (st1, reps, fl)" by (metis prod_cases3)
  have a: "answers (request_id p) reps fl" using handlePacket_step(2) [OF _ h] Cons.prems(1) by simp
  have eq: "(case handlePacket B st p of
        (st', replies, Continue) \<Rightarrow>
          (case serveLoop B st' (wire pkts) of (st'', replies', res) \<Rightarrow> (st'', replies @ replies', res))
      | (st', replies, Return) \<Rightarrow> (st', replies, Inr ())
      | (st', replies, Crash m) \<Rightarrow> (st', replies, Inl (Panic m))) = (st', replies, res)"
    using Cons.prems by (subst serveLoop_wire_Cons [symmetric]) auto
  show ?case
  proof (cases fl)
    case Continue
    then obtain r where r: "reps = [r]" "request_id r = request_id p" using a by (auto simp: answers_def)
    obtain st2 reps2 res2 where l: "serveLoop B st1 (wire pkts) = (st2, reps2, res2)" by (metis prod_cases3)
    with eq h Continue r have "replies = r # reps2" "st' = st2" "res = res2" by auto
    with Cons.IH [of st1 reps2] Cons.prems(1) l r show ?thesis by (auto intro: ends_well_Cons)
  next
    case Return
    with a eq h show ?thesis by (auto simp: answers_def ends_well_def sendStatus_def EncodeStatus_def
          AppendUint32_def AppendString_def)
  next
    case (Crash m)
    with a eq h show ?thesis by (auto simp: answers_def ends_well_def)
  qed
qed

lemma isDrained_step: "table_step C st st' \<Longrightarrow> \<not> C h \<Longrightarrow> isDrained st h \<Longrightarrow> isDrained st' h"
  by (induction rule: table_step.induct)
    (auto simp: isDrained_def newHandle_eq drop_handle_def markDrained_def)

lemma run_isDrained:
  "sftp_session.run B st tr st' \<Longrightarrow> \<forall>(pkt, out) \<in> set tr. \<not> closes pkt h \<Longrightarrow> isDrained st h \<Longrightarrow> isDrained st' h"
  by (induction rule: sftp_session.run.induct) (auto dest: handlePacket_table_step isDrained_step)

text \<open>A READDIR answered by a listing marks its handle.\<close>

lemma handlePacket_Readdir:
  "4 \<le> length (Payload pkt) \<Longrightarrow> ptype pkt = TypeReaddir \<Longrightarrow>
   handlePacket B st pkt = handleReaddir B st (request_id pkt) (drop 4 (Payload pkt))"
  by (simp add: handlePacket_def request_id_def Let_def sftp_type_defs)

lemma handlePacket_Close:
  "4 \<le> length (Payload pkt) \<Longrightarrow> ptype pkt = TypeClose \<Longrightarrow>
   handlePacket B st pkt = handleClose B st (request_id pkt) (drop 4 (Payload pkt))"
  by (simp add: handlePacket_def request_id_def Let_def sftp_type_defs)

lemma handleClose_drops:
  "handleClose B st rid rest = (st', replies, fl) \<Longrightarrow> sftp_ReadString rest 0 = Inr (h, k) \<Longrightarrow>
   resolve st h = Inr real \<Longrightarrow> map_of (handles st') h = None"
  by (auto simp: handleClose_def drop_handle_def)

lemma handleReaddir_marks:
  "handleReaddir B st rid rest = (st', [r], Continue) \<Longrightarrow> ptype r = TypeName \<Longrightarrow>
   sftp_ReadString rest 0 = Inr (h, k) \<Longrightarrow> isDrained st' h"
  by (auto simp: handleReaddir_def badMessage_def sendStatus_def sftp_type_defs markDrained_def isDrained_def
      split: if_splits sum.splits)

lemma badMessage_no_crash [simp]: "snd (snd (badMessage st rid e)) \<noteq> Crash m"
  by (simp add: badMessage_def)

lemma statusOf_no_crash [simp]: "snd (snd (statusOf st rid res)) \<noteq> Crash m"
  by (simp add: statusOf_def split: prod.splits option.splits)

lemma handler_no_crash:
  "snd (snd (handleOpen B st rid rest)) \<noteq> Crash m" "snd (snd (handleClose B st rid rest)) \<noteq> Crash m"
  "snd (snd (handleWrite B st rid rest)) \<noteq> Crash m" "snd (snd (handleStat stat st rid rest)) \<noteq> Crash m"
  "snd (snd (handleOpendir B st rid rest)) \<noteq> Crash m" "snd (snd (handlePathOp op st rid rest)) \<noteq> Crash m"
  "snd (snd (handleRename B st rid rest)) \<noteq> Crash m"
  by (simp_all add: handleOpen_def handleClose_def handleWrite_def handleStat_def handleOpendir_def
      handlePathOp_def handleRename_def split: sum.splits prod.splits)

text \<open>What the server needs of a backend: a read returns no more than it was asked for. Then no request
  crashes the session but a READDIR on a handle the backend issued.\<close>

locale sftp_backend =
  fixes B :: "'b Backend"
  assumes read_bound: "be_Read B b h off n = (b', Inr d) \<Longrightarrow> length d \<le> n"
begin

lemma handleRead_no_crash: "snd (snd (handleRead B st rid rest)) \<noteq> Crash m"
  by (auto simp: handleRead_def badMessage_def split: sum.splits prod.splits os_error.splits dest: read_bound)

lemma handlePacket_crash:
  assumes "handlePacket B st pkt = (st', replies, Crash m)"
  shows "ptype pkt = TypeReaddir \<and>
    (\<exists>h k real. sftp_ReadString (drop 4 (Payload pkt)) 0 = Inr (h, k) \<and> resolve st h = Inr real \<and> length real < 4)"
proof -
  have "snd (snd (handlePacket B st pkt)) = Crash m" using assms by simp
  then have t: "ptype pkt = TypeReaddir" and n: "4 \<le> length (Payload pkt)"
    by (auto simp: handlePacket_def Let_def handleRead_no_crash handler_no_crash split: if_splits)
  have "handleReaddir B st (request_id pkt) (drop 4 (Payload pkt)) = (st', replies, Crash m)"
    using assms handlePacket_Readdir [OF n t, of B st] by simp
  with t show ?thesis by (auto simp: handleReaddir_def badMessage_def split: sum.splits if_splits)
qed

end

text \<open>A backend with one file, for concrete sessions.\<close>

definition oneFile :: "bytes Backend" where
  "oneFile =
     \<lparr>be_Stat = \<lambda>b p. Inr \<lparr>fs_Name = ''f'', fs_Size = word_of_nat (length b), fs_Mode = 420, fs_IsDir = False,
                       fs_Mtime = 0, fs_UID = 0, fs_GID = 0\<rparr>,
      be_Lstat = \<lambda>b p. Inl (ErrNotExist p),
      be_Open = \<lambda>b p flags. (b, Inr ''1''),
      be_Read = \<lambda>b h off n. (b, if length b \<le> unat off then Inl ErrEOF else Inr (take n (drop (unat off) b))),
      be_Write = \<lambda>b h off d. (take (unat off) b @ d, None),
      be_Close = \<lambda>b h. (b, None),
      be_Readdir = \<lambda>b p. Inr [],
      be_Mkdir = \<lambda>b p. (b, Some (ErrPermission p)),
      be_Rmdir = \<lambda>b p. (b, Some (ErrPermission p)),
      be_Remove = \<lambda>b p. (b, Some (ErrNotExist p)),
      be_Rename = \<lambda>b p q. (b, None)\<rparr>"

interpretation one_file: sftp_backend oneFile
  by unfold_locales (auto simp: oneFile_def split: if_splits)

abbreviation openF :: Packet where
  "openF \<equiv> \<lparr>ptype = TypeOpen, Payload = [0, 0, 0, 7, 0, 0, 0, 1, 102, 0, 0, 0, 1]\<rparr>"

abbreviation closeH :: Packet where
  "closeH \<equiv> \<lparr>ptype = TypeClose, Payload = [0, 0, 0, 8, 0, 0, 0, 2, 104, 49]\<rparr>"

abbreviation readdirH :: Packet where
  "readdirH \<equiv> \<lparr>ptype = TypeReaddir, Payload = [0, 0, 0, 9, 0, 0, 0, 2, 104, 49]\<rparr>"

abbreviation opendirF :: Packet where
  "opendirF \<equiv> \<lparr>ptype = TypeOpendir, Payload = [0, 0, 0, 7, 0, 0, 0, 1, 102]\<rparr>"

text \<open>Two concrete sessions: a file opened, and a directory opened and listed.\<close>

abbreviation st_file :: "bytes SftpState" where
  "st_file \<equiv> \<lparr>handles = [(''h1'', ''1'')], drained = [], nextID = 1, backend = []\<rparr>"

abbreviation st_dir :: "bytes SftpState" where
  "st_dir \<equiv> \<lparr>handles = [(''h1'', ''dir:f'')], drained = [], nextID = 1, backend = []\<rparr>"

lemma run_file: "sftp_session.run oneFile (initState []) [(openF, sendHandle 7 ''h1'')] st_file"
proof -
  have "handlePacket oneFile (initState []) openF = (st_file, sendHandle 7 ''h1'', Continue)" by code_simp
  then show ?thesis by (rule sftp_session.run_single)
qed

section \<open>Properties\<close>



text \<open>C31: a handle the server has issued stands for the same backend handle through any further requests
  that do not close it, in a session of fewer than \<open>2 ^ 32\<close> requests: no other open, close, read or listing
  redirects it.\<close>

theorem sftp_handle_stable:
  assumes "sftp_session.run B (initState b) tr st" and "sftp_session.run B st tr' st'"
    and "length tr + length tr' < 2 ^ 32"
    and "resolve st h = Inr real" and "\<forall>(pkt, out) \<in> set tr'. \<not> closes pkt h"
  shows "resolve st' h = Inr real"
proof -
  have n: "numbered (length tr) st" by (rule session_numbered [OF assms(1)]) (use assms(3) in simp)
  have h: "issued st h" by (rule numbered_issued [OF n resolve_in_table [OF assms(4)]])
  have "map_of (handles st') h = Some real"
    by (rule session_resolve [OF assms(2) n assms(3) h]) (use assms(4,5) in \<open>simp_all add: resolve_iff\<close>)
  then show ?thesis by (simp add: resolve_iff)
qed

theorem sftp_handle_stable_witness:
  "\<exists>st'. sftp_session.run oneFile st_file [(openF, sendHandle 7 ''h2'')] st' \<and> resolve st' ''h1'' = Inr ''1''"
proof -
  let ?st' = "\<lparr>handles = [(''h1'', ''1''), (''h2'', ''1'')], drained = [], nextID = 2, backend = []\<rparr> :: bytes SftpState"
  have "handlePacket oneFile st_file openF = (?st', sendHandle 7 ''h2'', Continue)" by code_simp
  then have run: "sftp_session.run oneFile st_file [(openF, sendHandle 7 ''h2'')] ?st'"
    by (rule sftp_session.run_single)
  moreover have "resolve ?st' ''h1'' = Inr ''1''"
    by (rule sftp_handle_stable [OF run_file run])
      (simp_all add: resolve_def closes_def sftp_type_defs)
  ultimately show ?thesis by (intro exI conjI)
qed

text \<open>a closed handle never comes back: once a request has closed it, no later request of the session
  resolves it again, so a client cannot reach a file through a handle it gave up.\<close>

theorem sftp_handle_closed:
  assumes "sftp_session.run B (initState b) tr st" and "resolve st h = Inr real"
    and "handlePacket B st pkt = (st1, replies, Continue)" and "closes pkt h" and "4 \<le> length (Payload pkt)"
    and "sftp_session.run B st1 tr' st'" and "length tr + length tr' + 1 < 2 ^ 32"
  shows "resolve st' h = Inl (Errorf ''invalid handle'')"
proof -
  have n: "numbered (length tr) st" by (rule session_numbered [OF assms(1)]) (use assms(7) in simp)
  have step: "table_step (closes pkt) st st1" using handlePacket_table_step assms(3) by blast
  have "issued st h" by (rule numbered_issued [OF n resolve_in_table [OF assms(2)]])
  then have h: "issued st1 h" and n1: "numbered (Suc (length tr)) st1"
    using issued_step [OF step n] numbered_step [OF step n] assms(7) by simp_all
  obtain k where c: "ptype pkt = TypeClose" "sftp_ReadString (drop 4 (Payload pkt)) 0 = Inr (h, k)"
    using assms(4) by (auto simp: closes_def split: sum.splits)
  have "map_of (handles st1) h = None"
    by (rule handleClose_drops [OF _ c(2) assms(2)])
      (rule handlePacket_Close [OF assms(5) c(1), of B st, symmetric, unfolded assms(3)])
  then have "map_of (handles st') h = None"
    by (intro session_resolve [OF assms(6) n1 _ h]) (use assms(7) in simp_all)
  then show ?thesis by (simp add: resolve_def)
qed

theorem sftp_handle_closed_witness:
  "\<exists>st1 st'. handlePacket oneFile st_file closeH = (st1, sendStatus 8 StatusOK [], Continue) \<and>
     sftp_session.run oneFile st1 [(openF, sendHandle 7 ''h2'')] st' \<and>
     resolve st' ''h1'' = Inl (Errorf ''invalid handle'')"
proof -
  let ?st1 = "\<lparr>handles = [], drained = [], nextID = 1, backend = []\<rparr> :: bytes SftpState"
  let ?st' = "\<lparr>handles = [(''h2'', ''1'')], drained = [], nextID = 2, backend = []\<rparr> :: bytes SftpState"
  have c: "handlePacket oneFile st_file closeH = (?st1, sendStatus 8 StatusOK [], Continue)" by code_simp
  have "handlePacket oneFile ?st1 openF = (?st', sendHandle 7 ''h2'', Continue)" by code_simp
  then have run: "sftp_session.run oneFile ?st1 [(openF, sendHandle 7 ''h2'')] ?st'"
    by (rule sftp_session.run_single)
  have "resolve st_file ''h1'' = Inr ''1''" "closes closeH ''h1''" by code_simp+
  then have "resolve ?st' ''h1'' = Inl (Errorf ''invalid handle'')"
    by (intro sftp_handle_closed [OF run_file _ c _ _ run]) simp_all
  with c run show ?thesis by (intro exI conjI)
qed

text \<open>C32: a directory is listed once per handle: after a READDIR has been answered with names, every later
  READDIR on the handle answers end of file, whatever comes between, until the handle is closed.\<close>

theorem sftp_readdir_once:
  assumes "4 \<le> length (Payload pkt)" and "ptype pkt = TypeReaddir"
    and "sftp_ReadString (drop 4 (Payload pkt)) 0 = Inr (h, k)"
    and "handlePacket B st pkt = (st1, [r], Continue)" and "ptype r = TypeName"
    and "sftp_session.run B st1 tr st'" and "\<forall>(pkt, out) \<in> set tr. \<not> closes pkt h"
    and "4 \<le> length (Payload pkt')" and "ptype pkt' = TypeReaddir"
    and "sftp_ReadString (drop 4 (Payload pkt')) 0 = Inr (h, k')"
  shows "handlePacket B st' pkt' = (st', sendStatus (request_id pkt') StatusEOF [], Continue)"
proof -
  have "isDrained st1 h"
    using handleReaddir_marks assms(3-5) handlePacket_Readdir [OF assms(1,2), of B st] by metis
  then have "isDrained st' h" using run_isDrained assms(6,7) by blast
  then show ?thesis using handlePacket_Readdir [OF assms(8,9), of B st'] assms(10) by (simp add: handleReaddir_def)
qed

theorem sftp_readdir_once_witness:
  "handlePacket oneFile (st_dir\<lparr>drained := [(''h1'', True)]\<rparr>) readdirH =
     (st_dir\<lparr>drained := [(''h1'', True)]\<rparr>, sendStatus (request_id readdirH) StatusEOF [], Continue)"
proof -
  let ?st = "st_dir\<lparr>drained := [(''h1'', True)]\<rparr>"
  have s: "sftp_ReadString (drop 4 (Payload readdirH)) 0 = Inr (''h1'', 6)" by code_simp
  have l: "handlePacket oneFile st_dir readdirH =
      (?st, [\<lparr>ptype = TypeName, Payload = AppendUint32 [] 9\<rparr>], Continue)" by code_simp
  show ?thesis
    by (rule sftp_readdir_once [OF _ _ s l _ sftp_session.run_Nil _ _ _ s]) simp_all
qed

text \<open>in every state a session reaches the handle table is well formed: no handle occurs twice, every
  handle has the form \<open>h\<close> followed by a number, and only handles of the table are marked as listed, so
  closing a file leaves no mark behind.\<close>

theorem sftp_table_invariant:
  assumes "sftp_session.reachable b B st"
  shows "table_ok st"
  by (rule sftp_session.reachable_invariant [OF _ _ assms]) (auto intro: table_ok_step handlePacket_table_step)

theorem sftp_table_invariant_witness: "sftp_session.reachable [] oneFile st_file \<and> table_ok st_file"
proof -
  have r: "sftp_session.reachable [] oneFile st_file"
    unfolding sftp_session.reachable_def using run_file by blast
  show ?thesis by (rule conjI [OF r sftp_table_invariant [OF r]])
qed

end
