(* ===== verification/SftpOsfs.thy ===== *)
theory SftpOsfs
  imports SftpServer
begin
text \<open>
  Package \<open>sftp/server/backend/osfs\<close>: the backend of the SFTP server on the operating system, a record of
  the server's backend interface over the state of \<open>FS\<close> and of the operating system.
\<close>

section \<open>Definitions\<close>

record FS =
  root :: string
  fs_handles :: "(FileHandle \<times> descriptor) list"
  fs_next :: int

definition osfs_New :: "'o OS \<Rightarrow> 'o \<Rightarrow> string \<Rightarrow> FS" where
  "osfs_New os o_st r =
     \<lparr>root = (case os_Abs os o_st r of Inl _ \<Rightarrow> r | Inr a \<Rightarrow> a), fs_handles = [], fs_next = 0\<rparr>"

definition osfs_join :: "FS \<Rightarrow> string \<Rightarrow> string" where
  "osfs_join f path = path_Join [root f, TrimPrefix path ''/'']"

definition osfs_newHandle :: "FS \<Rightarrow> descriptor \<Rightarrow> FS \<times> FileHandle" where
  "osfs_newHandle f file =
     (let n = wrap64 (fs_next f + 1); h = ''h'' @ show_int n
      in (f\<lparr>fs_next := n, fs_handles := AList.update h file (fs_handles f)\<rparr>, h))"

definition getHandle :: "FS \<Rightarrow> FileHandle \<Rightarrow> os_error + descriptor" where
  "getHandle f h =
     (case map_of (fs_handles f) h of None \<Rightarrow> Inl (ErrOther ''invalid handle'') | Some file \<Rightarrow> Inr file)"

definition osfs_drop :: "FS \<Rightarrow> FileHandle \<Rightarrow> FS" where
  "osfs_drop f h = f\<lparr>fs_handles := AList.delete h (fs_handles f)\<rparr>"

definition statToFileStat :: "string \<Rightarrow> FileInfo \<Rightarrow> FileStat" where
  "statToFileStat name fi =
     \<lparr>fs_Name = name, fs_Size = word_of_int (fi_Size fi), fs_Mode = fi_Perm fi, fs_IsDir = fi_IsDir fi,
      fs_Mtime = fi_ModTime fi, fs_UID = 0, fs_GID = 0\<rparr>"

definition osfs_Stat :: "'o OS \<Rightarrow> FS \<times> 'o \<Rightarrow> string \<Rightarrow> os_error + FileStat" where
  "osfs_Stat os s path =
     (case os_Stat os (snd s) (osfs_join (fst s) path) of
        Inl e \<Rightarrow> Inl e | Inr fi \<Rightarrow> Inr (statToFileStat (fi_Name fi) fi))"

definition osfs_Lstat :: "'o OS \<Rightarrow> FS \<times> 'o \<Rightarrow> string \<Rightarrow> os_error + FileStat" where
  "osfs_Lstat os s path =
     (case os_Lstat os (snd s) (osfs_join (fst s) path) of
        Inl e \<Rightarrow> Inl e | Inr fi \<Rightarrow> Inr (statToFileStat (fi_Name fi) fi))"

definition oflags :: "32 word \<Rightarrow> 64 word" where
  "oflags flags =
     (let f = 0;
          f = (if flags AND OpenRead \<noteq> 0 then f OR O_RDONLY else f);
          f = (if flags AND OpenWrite \<noteq> 0 then f OR O_WRONLY else f);
          f = (if flags AND OpenRead \<noteq> 0 \<and> flags AND OpenWrite \<noteq> 0 then O_RDWR else f);
          f = (if flags AND OpenAppend \<noteq> 0 then f OR O_APPEND else f);
          f = (if flags AND OpenCreate \<noteq> 0 then f OR O_CREATE else f);
          f = (if flags AND OpenTrunc \<noteq> 0 then f OR O_TRUNC else f)
      in if flags AND OpenExcl \<noteq> 0 then f OR O_EXCL else f)"

definition osfs_Open :: "'o OS \<Rightarrow> FS \<times> 'o \<Rightarrow> string \<Rightarrow> 32 word \<Rightarrow> (FS \<times> 'o) \<times> (os_error + FileHandle)" where
  "osfs_Open os s path flags =
     (case os_OpenFile os (snd s) (osfs_join (fst s) path) (oflags flags) of
        (o_st, Inl e) \<Rightarrow> ((fst s, o_st), Inl e)
      | (o_st, Inr file) \<Rightarrow> (case osfs_newHandle (fst s) file of (f, h) \<Rightarrow> ((f, o_st), Inr h)))"

text \<open>\<open>Read\<close> fills at most the buffer it is given.\<close>

definition osfs_Read :: "'o OS \<Rightarrow> FS \<times> 'o \<Rightarrow> FileHandle \<Rightarrow> 64 word \<Rightarrow> nat \<Rightarrow> (FS \<times> 'o) \<times> (os_error + bytes)" where
  "osfs_Read os s h offset n =
     (case getHandle (fst s) h of
        Inl e \<Rightarrow> (s, Inl e)
      | Inr file \<Rightarrow>
     (case file_Seek os (snd s) file (sint offset) of
        (o_st, Some e) \<Rightarrow> ((fst s, o_st), Inl e)
      | (o_st, None) \<Rightarrow>
     (case file_Read os o_st file n of
        (o_st, Inl e) \<Rightarrow> ((fst s, o_st), Inl e)
      | (o_st, Inr d) \<Rightarrow> ((fst s, o_st), Inr (take n d)))))"

definition osfs_Write :: "'o OS \<Rightarrow> FS \<times> 'o \<Rightarrow> FileHandle \<Rightarrow> 64 word \<Rightarrow> bytes \<Rightarrow> (FS \<times> 'o) \<times> os_error option" where
  "osfs_Write os s h offset d =
     (case getHandle (fst s) h of
        Inl e \<Rightarrow> (s, Some e)
      | Inr file \<Rightarrow>
     (case file_Seek os (snd s) file (sint offset) of
        (o_st, Some e) \<Rightarrow> ((fst s, o_st), Some e)
      | (o_st, None) \<Rightarrow> (case file_Write os o_st file d of (o_st, e) \<Rightarrow> ((fst s, o_st), e))))"

definition osfs_Close :: "'o OS \<Rightarrow> FS \<times> 'o \<Rightarrow> FileHandle \<Rightarrow> (FS \<times> 'o) \<times> os_error option" where
  "osfs_Close os s h =
     (case getHandle (fst s) h of
        Inl e \<Rightarrow> (s, Some e)
      | Inr file \<Rightarrow> (case file_Close os (snd s) file of (o_st, e) \<Rightarrow> ((osfs_drop (fst s) h, o_st), e)))"

fun infos :: "(string \<times> (os_error + FileInfo)) list \<Rightarrow> os_error + FileStat list" where
  "infos [] = Inr []"
| "infos ((_, Inl e) # es) = Inl e"
| "infos ((name, Inr fi) # es) =
     (case infos es of Inl e \<Rightarrow> Inl e | Inr out \<Rightarrow> Inr (statToFileStat name fi # out))"

definition osfs_Readdir :: "'o OS \<Rightarrow> FS \<times> 'o \<Rightarrow> string \<Rightarrow> os_error + FileStat list" where
  "osfs_Readdir os s path =
     (case os_ReadDir os (snd s) (osfs_join (fst s) path) of Inl e \<Rightarrow> Inl e | Inr es \<Rightarrow> infos es)"

definition osfs_Mkdir :: "'o OS \<Rightarrow> FS \<times> 'o \<Rightarrow> string \<Rightarrow> (FS \<times> 'o) \<times> os_error option" where
  "osfs_Mkdir os s path =
     (case os_MkdirAll os (snd s) (osfs_join (fst s) path) of (o_st, e) \<Rightarrow> ((fst s, o_st), e))"

definition osfs_Rmdir :: "'o OS \<Rightarrow> FS \<times> 'o \<Rightarrow> string \<Rightarrow> (FS \<times> 'o) \<times> os_error option" where
  "osfs_Rmdir os s path =
     (case os_RemoveAll os (snd s) (osfs_join (fst s) path) of (o_st, e) \<Rightarrow> ((fst s, o_st), e))"

definition osfs_Remove :: "'o OS \<Rightarrow> FS \<times> 'o \<Rightarrow> string \<Rightarrow> (FS \<times> 'o) \<times> os_error option" where
  "osfs_Remove os s path =
     (case os_Remove os (snd s) (osfs_join (fst s) path) of (o_st, e) \<Rightarrow> ((fst s, o_st), e))"

definition osfs_Rename :: "'o OS \<Rightarrow> FS \<times> 'o \<Rightarrow> string \<Rightarrow> string \<Rightarrow> (FS \<times> 'o) \<times> os_error option" where
  "osfs_Rename os s src dst =
     (case os_Rename os (snd s) (osfs_join (fst s) src) (osfs_join (fst s) dst) of (o_st, e) \<Rightarrow> ((fst s, o_st), e))"

definition osfs :: "'o OS \<Rightarrow> (FS \<times> 'o) Backend" where
  "osfs os =
     \<lparr>be_Stat = osfs_Stat os, be_Lstat = osfs_Lstat os, be_Open = osfs_Open os, be_Read = osfs_Read os,
      be_Write = osfs_Write os, be_Close = osfs_Close os, be_Readdir = osfs_Readdir os, be_Mkdir = osfs_Mkdir os,
      be_Rmdir = osfs_Rmdir os, be_Remove = osfs_Remove os, be_Rename = osfs_Rename os\<rparr>"

section \<open>Lemmas\<close>

interpretation os_backend: sftp_backend "osfs os" for os
  by unfold_locales (auto simp: osfs_def osfs_Read_def split: sum.splits prod.splits option.splits)

lemma show_h1: "wrap64 1 = 1" "show_int 1 = ''1''" "fs_next (osfs_New os o_st r) = 0" "fs_handles (osfs_New os o_st r) = []"
  by (code_simp, code_simp, simp_all add: osfs_New_def)

lemma handle_h1: "handle_name 1 = ''h1''"
  by code_simp

section \<open>Properties\<close>

text \<open>C33: a path without dot-dot elements stays below the root directory of the backend, whatever empty
  elements and dots it has.\<close>

theorem osfs_join_confined:
  assumes "abs_clean (root f)" and "dotdot_free path"
  shows "below (root f) (osfs_join f path)"
  unfolding osfs_join_def by (rule path_Join_below [OF assms(1) dotdot_free_TrimPrefix [OF assms(2)]])

theorem osfs_join_confined_witness:
  "osfs_join \<lparr>root = ''/srv'', fs_handles = [], fs_next = 0\<rparr> ''/./pub//a'' = ''/srv/pub/a'' \<and>
   below ''/srv'' (osfs_join \<lparr>root = ''/srv'', fs_handles = [], fs_next = 0\<rparr> ''/./pub//a'')"
proof -
  have "abs_clean ''/srv''" "dotdot_free ''/./pub//a''" by code_simp+
  then have "below ''/srv'' (osfs_join \<lparr>root = ''/srv'', fs_handles = [], fs_next = 0\<rparr> ''/./pub//a'')"
    using osfs_join_confined [of "\<lparr>root = ''/srv'', fs_handles = [], fs_next = 0\<rparr>"] by simp
  moreover have "osfs_join \<lparr>root = ''/srv'', fs_handles = [], fs_next = 0\<rparr> ''/./pub//a'' = ''/srv/pub/a''" by code_simp
  ultimately show ?thesis by simp
qed

text \<open>the backend lets a client leave its root: a request for \<open>/../etc/passwd\<close> below \<open>/srv\<close> reaches
  \<open>/etc/passwd\<close>, for reading attributes as for opening.\<close>

theorem osfs_join_escapes:
  "osfs_join \<lparr>root = ''/srv'', fs_handles = hs, fs_next = n\<rparr> ''/../etc/passwd'' = ''/etc/passwd'' \<and>
   osfs_Stat os (\<lparr>root = ''/srv'', fs_handles = hs, fs_next = n\<rparr>, o_st) ''/../etc/passwd'' =
     (case os_Stat os o_st ''/etc/passwd'' of Inl e \<Rightarrow> Inl e | Inr fi \<Rightarrow> Inr (statToFileStat (fi_Name fi) fi))"
proof -
  have "path_Join [''/srv'', TrimPrefix ''/../etc/passwd'' ''/''] = ''/etc/passwd''" by code_simp
  then show ?thesis by (simp add: osfs_join_def osfs_Stat_def)
qed

text \<open>over the file backend the session of a client that opens a file and then asks for a listing of its
  handle ends in a panic, for every operating system on which the open succeeds.\<close>

theorem osfs_readdir_panics:
  assumes "os_OpenFile os o_st (osfs_join (osfs_New os o_st r) path) (oflags pFlags) = (o_st', Inr file)"
    and "handlePacket (osfs os) (initState (osfs_New os o_st r, o_st))
           \<lparr>ptype = TypeOpen, Payload = PutUint32 rid @ AppendString [] path @ PutUint32 pFlags\<rparr> = (st1, replies, fl)"
    and "field_str_ok path"
  shows "replies = sendHandle rid ''h1'' \<and>
    handlePacket (osfs os) st1 \<lparr>ptype = TypeReaddir, Payload = PutUint32 rid' @ AppendString [] ''h1''\<rparr> =
      (st1, [], Crash ''slice bounds out of range'')"
proof -
  let ?st = "initState (osfs_New os o_st r, o_st)"
  let ?rest = "AppendString [] path @ PutUint32 pFlags"
  have r: "sftp_ReadString ?rest 0 = Inr (path, length (AppendString [] path))"
    by (rule str.get_put_start [OF assms(3)])
  have u: "ReadUint32 ?rest (length (AppendString [] path)) = Inr (pFlags, length ?rest)"
    using u32.get_put_end [OF TrueI refl, of "AppendString [] path" pFlags] by simp
  have o: "be_Open (osfs os) (osfs_New os o_st r, o_st) path pFlags =
      (((osfs_New os o_st r)\<lparr>fs_next := 1, fs_handles := [(''h1'', file)]\<rparr>, o_st'), Inr ''h1'')"
    using assms(1) show_h1 by (simp add: osfs_def osfs_Open_def osfs_newHandle_def Let_def) (simp add: osfs_New_def)
  have "handleOpen (osfs os) ?st rid ?rest = (st1, replies, fl)"
    using assms(2) by (simp add: handlePacket_def sftp_type_defs Let_def)
  then have "replies = sendHandle rid ''h1''" "resolve st1 ''h1'' = Inr ''h1''" "\<not> isDrained st1 ''h1''"
    using r u o by (auto simp: handleOpen_def initState_def newHandle_eq handle_h1 resolve_def isDrained_def)
  moreover have "sftp_ReadString (AppendString [] ''h1'') 0 = Inr (''h1'', 6)" by code_simp
  ultimately show ?thesis
    by (simp add: handlePacket_def sftp_type_defs Let_def handleReaddir_def)
qed

theorem osfs_readdir_panics_witness:
  "\<exists>st1 replies fl. handlePacket (osfs emptyOS) (initState (osfs_New emptyOS () ''/srv'', ()))
      \<lparr>ptype = TypeOpen, Payload = PutUint32 7 @ AppendString [] ''f'' @ PutUint32 1\<rparr> = (st1, replies, fl) \<and>
    handlePacket (osfs emptyOS) st1 \<lparr>ptype = TypeReaddir, Payload = PutUint32 8 @ AppendString [] ''h1''\<rparr> =
      (st1, [], Crash ''slice bounds out of range'')"
proof -
  obtain st1 replies fl where h: "handlePacket (osfs emptyOS) (initState (osfs_New emptyOS () ''/srv'', ()))
      \<lparr>ptype = TypeOpen, Payload = PutUint32 7 @ AppendString [] ''f'' @ PutUint32 1\<rparr> = (st1, replies, fl)"
    by (rule prod_cases3)
  have f: "field_str_ok ''f''" by (simp add: field_str_ok_def)
  have "os_OpenFile emptyOS () (osfs_join (osfs_New emptyOS () ''/srv'') ''f'') (oflags 1) = ((), Inr 3)"
    by (simp add: emptyOS_def)
  from conjI [OF h conjunct2 [OF osfs_readdir_panics [OF this h f]]] show ?thesis by (intro exI)
qed

end
