(* ===== verification/SftpClient.thy ===== *)
theory SftpClient
  imports SftpServer
begin

text \<open>
  Package \<open>sftp/client\<close>: the pending table and the read loop that hands replies to their callers, the calls
  of the client as functions of a peer that answers packets, and the server of this development as such a
  peer. Contexts are background contexts. When a reply is there and the client has been closed, Go picks
  either; the call then returns the reply.
\<close>

section \<open>Definitions\<close>

subsection \<open>Requests and replies\<close>

datatype client_error = CErr error | StatusError StatusCode string | Blocked

definition StatusError_Error :: "StatusCode \<Rightarrow> string \<Rightarrow> string" where
  "StatusError_Error code msg = ''sftp: status '' @ show_nat (unat code) @ '': '' @ msg"

text \<open>\<open>c_pending\<close> is the table of requests without reply, \<open>None\<close> when it is the nil map; \<open>c_inbox\<close> are the
  packets in the channels of the callers.\<close>

record 's Client =
  c_next :: "32 word"
  c_pending :: "RequestID list option"
  c_inbox :: "(RequestID \<times> Packet) list"
  c_readErr :: "error option"
  c_closed :: bool
  c_peer :: 's

definition ErrClosedPipe :: error where
  "ErrClosedPipe = Errorf ''io: read/write on closed pipe''"

text \<open>One round of \<open>readLoop\<close>, with a packet and with an error.\<close>

definition readStep :: "'s Client \<Rightarrow> Packet \<Rightarrow> 's Client" where
  "readStep c pkt =
     (if length (Payload pkt) < 4 then c
      else let rid = Uint32 (take 4 (Payload pkt))
           in case c_pending c of
                None \<Rightarrow> c
              | Some ids \<Rightarrow>
                  if rid \<in> set ids
                  then c\<lparr>c_pending := Some (removeAll rid ids), c_inbox := AList.update rid pkt (c_inbox c)\<rparr>
                  else c)"

definition readFail :: "'s Client \<Rightarrow> error \<Rightarrow> 's Client" where
  "readFail c e = c\<lparr>c_readErr := Some e, c_pending := None\<rparr>"

definition c_Close :: "'s Client \<Rightarrow> 's Client" where
  "c_Close c = c\<lparr>c_closed := True\<rparr>"

text \<open>The two halves of \<open>do\<close>: the registered request and the packet written, and the end of the wait.\<close>

definition do_send :: "'s Client \<Rightarrow> Type \<Rightarrow> bytes \<Rightarrow> ('s Client \<times> RequestID \<times> Packet) result" where
  "do_send c t payload =
     (case nextRequestID (c_next c) of (n, rid) \<Rightarrow>
        (case c_pending c of
           None \<Rightarrow> Inl (Panic ''assignment to entry in nil map'')
         | Some ids \<Rightarrow>
             Inr (c\<lparr>c_next := n, c_pending := Some (List.insert rid ids)\<rparr>, rid,
                  \<lparr>ptype = t, Payload = AppendUint32 [] rid @ payload\<rparr>)))"

definition do_wait :: "'s Client \<Rightarrow> RequestID \<Rightarrow> 's Client \<times> (client_error + Packet)" where
  "do_wait c rid =
     (case map_of (c_inbox c) rid of
        Some pkt \<Rightarrow> (c\<lparr>c_inbox := AList.delete rid (c_inbox c)\<rparr>, Inr pkt)
      | None \<Rightarrow>
          (c, Inl (case c_readErr c of
                     Some e \<Rightarrow> CErr e
                   | None \<Rightarrow> if c_closed c then CErr ErrClosedPipe else Blocked)))"

text \<open>A peer takes a packet, or fails the write, and gives the packets that arrive before it takes another
  one, with the error of the reader when it closes the channel.\<close>

type_synonym 's peer = "'s \<Rightarrow> Packet \<Rightarrow> 's \<times> (error + Packet list \<times> error option)"

definition arrive :: "'s Client \<Rightarrow> Packet list \<Rightarrow> error option \<Rightarrow> 's Client" where
  "arrive c pkts err =
     (let c = foldl readStep c pkts in case err of None \<Rightarrow> c | Some e \<Rightarrow> readFail c e)"

definition c_do :: "'s peer \<Rightarrow> 's Client \<Rightarrow> Type \<Rightarrow> bytes \<Rightarrow> 's Client \<times> (client_error + Packet)" where
  "c_do srv c t payload =
     (case do_send c t payload of
        Inl e \<Rightarrow> (c, Inl (CErr e))
      | Inr (c, rid, pkt) \<Rightarrow>
     (case srv (c_peer c) pkt of
        (p, Inl e) \<Rightarrow> (c\<lparr>c_peer := p, c_pending := map_option (removeAll rid) (c_pending c)\<rparr>, Inl (CErr e))
      | (p, Inr (pkts, err)) \<Rightarrow> do_wait (arrive (c\<lparr>c_peer := p\<rparr>) pkts err) rid))"

text \<open>The version handshake of \<open>New\<close> on what the peer sends.\<close>

definition c_New :: "'s \<Rightarrow> bytes \<Rightarrow> ('s Client \<times> bytes) result" where
  "c_New p r =
     (case sftp_ReadPacket r of
        Inl e \<Rightarrow> Inl e
      | Inr (pkt, r) \<Rightarrow>
          if ptype pkt \<noteq> TypeVersion then Inl (Errorf ''sftp: expected VERSION'')
          else
     (case ReadInit pkt of
        Inl e \<Rightarrow> Inl e
      | Inr ver \<Rightarrow>
          if ver \<noteq> Version then Inl (Errorf ''sftp: unsupported server version'')
          else Inr (\<lparr>c_next = 0, c_pending = Some [], c_inbox = [], c_readErr = None, c_closed = False, c_peer = p\<rparr>, r)))"

subsection \<open>Calls\<close>

text \<open>\<open>DecodeStatus\<close> with its error dropped: the zero code is \<open>StatusOK\<close>.\<close>

definition statusOfReply :: "Packet \<Rightarrow> StatusCode \<times> string" where
  "statusOfReply pkt =
     (case DecodeStatus (Payload pkt) of Inl _ \<Rightarrow> (0, []) | Inr (_, code, msg) \<Rightarrow> (code, msg))"

definition statusError :: "Packet \<Rightarrow> client_error" where
  "statusError pkt = (case statusOfReply pkt of (code, msg) \<Rightarrow> StatusError code msg)"

text \<open>A call whose reply is only looked at for its status.\<close>

definition statusCall :: "'s peer \<Rightarrow> 's Client \<Rightarrow> Type \<Rightarrow> bytes \<Rightarrow> 's Client \<times> (client_error + unit)" where
  "statusCall srv c t payload =
     (case c_do srv c t payload of
        (c, Inl e) \<Rightarrow> (c, Inl e)
      | (c, Inr pkt) \<Rightarrow>
          (c, if fst (statusOfReply pkt) \<noteq> StatusOK then Inl (statusError pkt) else Inr ()))"

definition lift_res :: "'a result \<Rightarrow> client_error + 'a" where
  "lift_res r = (case r of Inl e \<Rightarrow> Inl (CErr e) | Inr x \<Rightarrow> Inr x)"

definition c_open :: "'s peer \<Rightarrow> 's Client \<Rightarrow> string \<Rightarrow> 32 word \<Rightarrow> 's Client \<times> (client_error + string)" where
  "c_open srv c path pFlags =
     (case c_do srv c TypeOpen (AppendUint32 (AppendString [] path) pFlags) of
        (c, Inl e) \<Rightarrow> (c, Inl e)
      | (c, Inr pkt) \<Rightarrow>
          (c, if ptype pkt = TypeStatus then Inl (statusError pkt)
              else if ptype pkt \<noteq> TypeHandle then Inl (CErr (Errorf ''sftp: OPEN: unexpected reply''))
              else lift_res (map_sum id fst (sftp_ReadString (Payload pkt) 4))))"

record File =
  file_handle :: string
  file_off :: "64 word"

definition openFile :: "'s peer \<Rightarrow> 's Client \<Rightarrow> string \<Rightarrow> 32 word \<Rightarrow> 's Client \<times> (client_error + File)" where
  "openFile srv c path pFlags =
     (case c_open srv c path pFlags of
        (c, Inl e) \<Rightarrow> (c, Inl e)
      | (c, Inr h) \<Rightarrow> (c, Inr \<lparr>file_handle = h, file_off = 0\<rparr>))"

definition c_Open :: "'s peer \<Rightarrow> 's Client \<Rightarrow> string \<Rightarrow> 's Client \<times> (client_error + File)" where
  "c_Open srv c path = openFile srv c path OpenRead"

definition c_Create :: "'s peer \<Rightarrow> 's Client \<Rightarrow> string \<Rightarrow> 's Client \<times> (client_error + File)" where
  "c_Create srv c path = openFile srv c path (OpenWrite OR OpenCreate OR OpenTrunc)"

definition c_Append :: "'s peer \<Rightarrow> 's Client \<Rightarrow> string \<Rightarrow> 's Client \<times> (client_error + File)" where
  "c_Append srv c path = openFile srv c path (OpenWrite OR OpenAppend)"

definition CloseHandle :: "'s peer \<Rightarrow> 's Client \<Rightarrow> string \<Rightarrow> 's Client \<times> (client_error + unit)" where
  "CloseHandle srv c h = statusCall srv c TypeClose (AppendString [] h)"

text \<open>\<open>Read\<close> into a buffer of \<open>n\<close> bytes returns what it puts there.\<close>

definition c_Read :: "'s peer \<Rightarrow> 's Client \<Rightarrow> string \<Rightarrow> 64 word \<Rightarrow> nat \<Rightarrow> 's Client \<times> (client_error + bytes)" where
  "c_Read srv c h offset n =
     (case c_do srv c TypeRead (AppendUint32 (AppendUint64 (AppendString [] h) offset) (word_of_nat n)) of
        (c, Inl e) \<Rightarrow> (c, Inl e)
      | (c, Inr pkt) \<Rightarrow>
          (c, if ptype pkt = TypeStatus then
                (if fst (statusOfReply pkt) = StatusEOF then Inl (CErr IO_EOF) else Inl (statusError pkt))
              else if ptype pkt \<noteq> TypeData then Inl (CErr (Errorf ''sftp: READ: unexpected reply''))
              else lift_res (map_sum id (\<lambda>(s, _). take n (bytes_of s)) (sftp_ReadString (Payload pkt) 4))))"

definition c_Write :: "'s peer \<Rightarrow> 's Client \<Rightarrow> string \<Rightarrow> 64 word \<Rightarrow> bytes \<Rightarrow> 's Client \<times> (client_error + nat)" where
  "c_Write srv c h offset d =
     (case statusCall srv c TypeWrite
             (AppendUint64 (AppendString [] h) offset @ AppendUint32 [] (word_of_nat (length d)) @ d) of
        (c, Inl e) \<Rightarrow> (c, Inl e)
      | (c, Inr _) \<Rightarrow> (c, Inr (length d)))"

definition c_stat :: "'s peer \<Rightarrow> 's Client \<Rightarrow> string \<Rightarrow> Type \<Rightarrow> 's Client \<times> (client_error + FileAttr)" where
  "c_stat srv c path t =
     (case c_do srv c t (AppendString [] path) of
        (c, Inl e) \<Rightarrow> (c, Inl e)
      | (c, Inr pkt) \<Rightarrow>
          (c, if ptype pkt = TypeStatus then Inl (statusError pkt)
              else lift_res (map_sum id fst (DecodeAttrs (Payload pkt) 4))))"

definition c_Stat :: "'s peer \<Rightarrow> 's Client \<Rightarrow> string \<Rightarrow> 's Client \<times> (client_error + FileAttr)" where
  "c_Stat srv c path = c_stat srv c path TypeStat"

definition c_Lstat :: "'s peer \<Rightarrow> 's Client \<Rightarrow> string \<Rightarrow> 's Client \<times> (client_error + FileAttr)" where
  "c_Lstat srv c path = c_stat srv c path TypeLstat"

definition c_Mkdir :: "'s peer \<Rightarrow> 's Client \<Rightarrow> string \<Rightarrow> FileAttr \<Rightarrow> 's Client \<times> (client_error + unit)" where
  "c_Mkdir srv c path attrs = statusCall srv c TypeMkdir (AppendString [] path @ FileAttr_Encode attrs)"

definition simpleStatus :: "'s peer \<Rightarrow> 's Client \<Rightarrow> Type \<Rightarrow> string \<Rightarrow> 's Client \<times> (client_error + unit)" where
  "simpleStatus srv c t path = statusCall srv c t (AppendString [] path)"

definition c_Remove :: "'s peer \<Rightarrow> 's Client \<Rightarrow> string \<Rightarrow> 's Client \<times> (client_error + unit)" where
  "c_Remove srv c path = simpleStatus srv c TypeRemove path"

definition c_Rmdir :: "'s peer \<Rightarrow> 's Client \<Rightarrow> string \<Rightarrow> 's Client \<times> (client_error + unit)" where
  "c_Rmdir srv c path = simpleStatus srv c TypeRmdir path"

definition c_Rename :: "'s peer \<Rightarrow> 's Client \<Rightarrow> string \<Rightarrow> string \<Rightarrow> 's Client \<times> (client_error + unit)" where
  "c_Rename srv c src dst = statusCall srv c TypeRename (AppendString (AppendString [] src) dst)"

subsection \<open>Files\<close>

definition File_Read :: "'s peer \<Rightarrow> 's Client \<Rightarrow> File \<Rightarrow> nat \<Rightarrow> 's Client \<times> File \<times> (client_error + bytes)" where
  "File_Read srv c f n =
     (case c_Read srv c (file_handle f) (file_off f) n of
        (c, Inl e) \<Rightarrow> (c, f, Inl e)
      | (c, Inr d) \<Rightarrow> (c, f\<lparr>file_off := file_off f + word_of_nat (length d)\<rparr>, Inr d))"

definition File_Write :: "'s peer \<Rightarrow> 's Client \<Rightarrow> File \<Rightarrow> bytes \<Rightarrow> 's Client \<times> File \<times> (client_error + nat)" where
  "File_Write srv c f d =
     (case c_Write srv c (file_handle f) (file_off f) d of
        (c, Inl e) \<Rightarrow> (c, f, Inl e)
      | (c, Inr n) \<Rightarrow> (c, f\<lparr>file_off := file_off f + word_of_nat n\<rparr>, Inr n))"

definition File_Close :: "'s peer \<Rightarrow> 's Client \<Rightarrow> File \<Rightarrow> 's Client \<times> (client_error + unit)" where
  "File_Close srv c f =
     (case CloseHandle srv c (file_handle f) of
        (c, r) \<Rightarrow> (c, if r = Inl (CErr ErrClosedPipe) then Inr () else r))"

subsection \<open>Listings\<close>

type_synonym DirEntry = "string \<times> FileAttr"

lemma sftp_ReadString_grows: "sftp_ReadString buf off = Inr (s, off') \<Longrightarrow> off < off'"
  by (auto simp: sftp_ReadString_def Let_def split: if_splits)

lemma optField_grows:
  "optField p get z off = Inr (x, off') \<Longrightarrow> (\<And>y k. get off = Inr (y, k) \<Longrightarrow> off \<le> k) \<Longrightarrow> off \<le> off'"
  by (auto simp: optField_def split: if_splits)

lemma reads_grow:
  "ReadUint32 buf off = Inr (w, off') \<Longrightarrow> off \<le> off'" "ReadUint64 buf off = Inr (v, off') \<Longrightarrow> off \<le> off'"
  "readTime buf off = Inr (t, off') \<Longrightarrow> off \<le> off'" "readPair buf off = Inr (ug, off') \<Longrightarrow> off \<le> off'"
  by (auto simp: ReadUint32_def ReadUint64_def readTime_def readPair_def split: if_splits sum.splits)

lemma opt_reads_grow:
  "optField p (ReadUint32 buf) z off = Inr (w, off') \<Longrightarrow> off \<le> off'"
  "optField p (ReadUint64 buf) y off = Inr (v, off') \<Longrightarrow> off \<le> off'"
  "optField p (readTime buf) x off = Inr (t, off') \<Longrightarrow> off \<le> off'"
  "optField p (readPair buf) q off = Inr (ug, off') \<Longrightarrow> off \<le> off'"
  using optField_grows reads_grow by metis+

lemma DecodeAttrs_grows: "DecodeAttrs buf off = Inr (a, off') \<Longrightarrow> off \<le> off'"
  unfolding DecodeAttrs_def
  by (auto split: sum.splits dest!: opt_reads_grow reads_grow(1))

text \<open>The entries of one NAME reply.\<close>

function parseEntries :: "bytes \<Rightarrow> nat \<Rightarrow> DirEntry list result" where
  "parseEntries payload off =
     (if off < length payload then
        (case sftp_ReadString payload off of
           Inl e \<Rightarrow> Inl e
         | Inr (name, off) \<Rightarrow>
        (case sftp_ReadString payload off of
           Inl e \<Rightarrow> Inl e
         | Inr (_, off) \<Rightarrow>
        (case DecodeAttrs payload off of
           Inl e \<Rightarrow> Inl e
         | Inr (a, off) \<Rightarrow>
        (case parseEntries payload off of
           Inl e \<Rightarrow> Inl e
         | Inr entries \<Rightarrow>
             if name = ''.'' \<or> name = ''..'' then Inr entries else Inr ((name, a) # entries)))))
      else Inr [])"
  by pat_completeness auto
termination
  by (relation "measure (\<lambda>(payload, off). length payload - off)")
    (auto dest!: sftp_ReadString_grows DecodeAttrs_grows)

declare parseEntries.simps [simp del]

text \<open>The loop of \<open>ReadDir\<close>; the number bounds the READDIR requests, and \<open>None\<close> is a loop that needs more.\<close>

fun readDirLoop :: "nat \<Rightarrow> 's peer \<Rightarrow> 's Client \<Rightarrow> string \<Rightarrow> 's Client \<times> (client_error + DirEntry list) option" where
  "readDirLoop 0 srv c h = (c, None)"
| "readDirLoop (Suc n) srv c h =
     (case c_do srv c TypeReaddir (AppendString [] h) of
        (c, Inl e) \<Rightarrow> (c, Some (Inl e))
      | (c, Inr pkt) \<Rightarrow>
          if ptype pkt = TypeStatus then
            (c, Some (if fst (statusOfReply pkt) = StatusEOF then Inr []
                      else Inl (StatusError (fst (statusOfReply pkt)) [])))
          else
     (case parseEntries (Payload pkt) 4 of
        Inl e \<Rightarrow> (c, Some (Inl (CErr e)))
      | Inr entries \<Rightarrow>
     (case readDirLoop n srv c h of
        (c, Some (Inr es)) \<Rightarrow> (c, Some (Inr (entries @ es)))
      | r \<Rightarrow> r)))"

definition c_ReadDir :: "nat \<Rightarrow> 's peer \<Rightarrow> 's Client \<Rightarrow> string \<Rightarrow> 's Client \<times> (client_error + DirEntry list) option" where
  "c_ReadDir n srv c dir =
     (case c_do srv c TypeOpendir (AppendString [] dir) of
        (c, Inl e) \<Rightarrow> (c, Some (Inl e))
      | (c, Inr pkt) \<Rightarrow>
          if ptype pkt = TypeStatus then (c, Some (Inl (statusError pkt)))
          else if ptype pkt \<noteq> TypeHandle then (c, Some (Inl (CErr (Errorf ''sftp: OPENDIR: unexpected reply''))))
          else
     (case sftp_ReadString (Payload pkt) 4 of
        Inl e \<Rightarrow> (c, Some (Inl (CErr e)))
      | Inr (h, _) \<Rightarrow>
     (case readDirLoop n srv c h of
        (c, None) \<Rightarrow> (c, None)
      | (c, Some r) \<Rightarrow> (fst (CloseHandle srv c h), Some r))))"

subsection \<open>The server as the peer of a client\<close>

text \<open>Both directions go over the bytes of the wire. The session of the server is \<open>None\<close> once \<open>Serve\<close> has
  returned; the reader of the client then sees the end of the channel.\<close>

function readPackets :: "bytes \<Rightarrow> Packet list \<times> error option" where
  "readPackets r =
     (if r = [] then ([], None)
      else case sftp_ReadPacket r of
             Inl e \<Rightarrow> ([], Some e)
           | Inr (pkt, r) \<Rightarrow> (case readPackets r of (pkts, err) \<Rightarrow> (pkt # pkts, err)))"
  by pat_completeness auto
termination
  by (relation "measure length") (auto dest: sftp_ReadPacket_shrinks)

declare readPackets.simps [simp del]

fun served :: "'b Backend \<Rightarrow> 'b SftpState option peer" where
  "served B None pkt = (None, Inr ([], Some IO_EOF))"
| "served B (Some st) pkt =
     (case sftp_ReadPacket (WritePacket (ptype pkt) (Payload pkt)) of
        Inl _ \<Rightarrow> (None, Inr ([], Some IO_EOF))
      | Inr (pkt, _) \<Rightarrow>
     (case handlePacket B st pkt of
        (st', replies, Continue) \<Rightarrow> (Some st', Inr (readPackets (wire replies)))
      | (st', replies, _) \<Rightarrow> (None, Inr (fst (readPackets (wire replies)), Some IO_EOF))))"

text \<open>A client with no request under way, connected to a session in a given state.\<close>

definition linked :: "'b SftpState option Client \<Rightarrow> 'b SftpState \<Rightarrow> bool" where
  "linked c st \<longleftrightarrow> c_pending c = Some [] \<and> c_inbox c = [] \<and> c_readErr c = None \<and> c_peer c = Some st"

abbreviation request :: "'b SftpState option Client \<Rightarrow> Type \<Rightarrow> bytes \<Rightarrow> Packet" where
  "request c t payload \<equiv> \<lparr>ptype = t, Payload = PutUint32 (snd (nextRequestID (c_next c))) @ payload\<rparr>"

section \<open>Lemmas\<close>

subsection \<open>Calls on a linked client\<close>

lemma readPackets_single: "packet_ok r \<Longrightarrow> readPackets (wire [r]) = ([r], None)"
proof -
  assume r: "packet_ok r"
  have "wire [r] \<noteq> []" by (simp add: WritePacket_def)
  moreover have "sftp_ReadPacket (wire [r]) = Inr (r, [])" using sftp_codec.dec_enc [OF r, of "[]"] by simp
  ultimately show ?thesis by (subst readPackets.simps) (simp add: readPackets.simps [of "[]"])
qed

lemma request_id_request [simp]: "request_id (request c t payload) = snd (nextRequestID (c_next c))"
  by (simp add: request_id_def)

text \<open>A call on a linked client is one step of the session, and leaves the client linked to its result.\<close>

lemma c_do_served:
  assumes c: "linked c st" and q: "packet_ok (request c t payload)"
    and h: "handlePacket B st (request c t payload) = (st', replies, Continue)"
    and r: "replies = [r]" "packet_ok r"
  obtains c' where "c_do (served B) c t payload = (c', Inr r)" and "linked c' st'" and "c_closed c' = c_closed c"
    and "c_next c' = fst (nextRequestID (c_next c))"
proof -
  obtain n rid where n: "nextRequestID (c_next c) = (n, rid)" by fastforce
  have a: "answers rid replies Continue" using handlePacket_step(2) [OF _ h] n by simp
  then have rr: "4 \<le> length (Payload r)" "Uint32 (take 4 (Payload r)) = rid"
    using r by (auto simp: answers_def)
  let ?c = "c\<lparr>c_next := n, c_pending := Some [rid]\<rparr>"
  have s: "do_send c t payload = Inr (?c, rid, request c t payload)"
    using c n by (simp add: do_send_def linked_def AppendUint32_def List.insert_def)
  have p: "served B (Some st) (request c t payload) = (Some st', Inr ([r], None))"
    using sftp_codec.dec_enc [OF q, of "[]"] h readPackets_single [OF r(2)] r(1) by simp
  let ?d = "?c\<lparr>c_peer := Some st', c_pending := Some []\<rparr>"
  have "arrive (?c\<lparr>c_peer := Some st'\<rparr>) [r] None = ?d\<lparr>c_inbox := [(rid, r)]\<rparr>"
    using c rr by (simp add: arrive_def readStep_def linked_def Let_def)
  then have "c_do (served B) c t payload = (?d\<lparr>c_inbox := []\<rparr>, Inr r)"
    using s p c by (simp add: c_do_def do_wait_def linked_def)
  moreover have "linked (?d\<lparr>c_inbox := []\<rparr>) st'" using c by (simp add: linked_def)
  ultimately show ?thesis using that n by simp
qed

text \<open>The handlers of the requests a client writes.\<close>

lemma handlePacket_request:
  "handlePacket B st \<lparr>ptype = TypeStat, Payload = PutUint32 rid @ rest\<rparr> = handleStat (be_Stat B) st rid rest"
  "handlePacket B st \<lparr>ptype = TypeRead, Payload = PutUint32 rid @ rest\<rparr> = handleRead B st rid rest"
  "handlePacket B st \<lparr>ptype = TypeOpendir, Payload = PutUint32 rid @ rest\<rparr> = handleOpendir B st rid rest"
  "handlePacket B st \<lparr>ptype = TypeReaddir, Payload = PutUint32 rid @ rest\<rparr> = handleReaddir B st rid rest"
  "handlePacket B st \<lparr>ptype = TypeClose, Payload = PutUint32 rid @ rest\<rparr> = handleClose B st rid rest"
  by (simp_all add: handlePacket_def Let_def sftp_type_defs)

lemma ReadString_AppendString [simp]:
  "field_str_ok s \<Longrightarrow> sftp_ReadString (AppendString [] s) 0 = Inr (s, 4 + length s)"
  using str.get_put_start [of s "[]"] by simp

lemma statusOfReply_sendStatus:
  "field_str_ok msg \<Longrightarrow> sendStatus rid code msg = [r] \<Longrightarrow> statusOfReply r = (code, msg) \<and> ptype r = TypeStatus"
  by (auto simp: sendStatus_def statusOfReply_def DecodeStatus_EncodeStatus)

lemma packet_ok_sendStatus: "length msg < 2 ^ 24 - 16 \<Longrightarrow> sendStatus rid code msg = [r] \<Longrightarrow> packet_ok r"
  by (auto simp: sendStatus_def packet_ok_def EncodeStatus_def AppendUint32_def AppendString_def)

lemma length_attr_Encode: "length (FileAttr_Encode a) \<le> 32"
  by (simp add: FileAttr_Encode_def Let_def AppendUint32_def AppendUint64_def)

lemma field_str_ok_short: "length s < 2 ^ 24 \<Longrightarrow> field_str_ok s"
  by (simp add: field_str_ok_def)

text \<open>STAT.\<close>

lemma c_Stat_served:
  assumes "linked c st" and "length path < 2 ^ 24 - 8" and "be_Stat B (backend st) path = Inr fs"
    and "attr_ok (attrOfStat fs)"
  shows "\<exists>c'. c_Stat (served B) c path = (c', Inr (attrOfStat fs)) \<and> linked c' st"
proof -
  let ?rid = "snd (nextRequestID (c_next c))"
  let ?r = "\<lparr>ptype = TypeAttrs, Payload = AppendUint32 [] ?rid @ FileAttr_Encode (attrOfStat fs)\<rparr>"
  have f: "field_str_ok path" using assms(2) by (intro field_str_ok_short) simp
  have h: "handlePacket B st (request c TypeStat (AppendString [] path)) = (st, sendAttrs ?rid fs, Continue)"
    using f assms(3) by (simp add: handlePacket_request handleStat_def)
  have q: "packet_ok (request c TypeStat (AppendString [] path))" using assms(2) by (simp add: packet_ok_def)
  have r: "packet_ok ?r" using length_attr_Encode [of "attrOfStat fs"] by (simp add: packet_ok_def AppendUint32_def)
  obtain c' where c': "c_do (served B) c TypeStat (AppendString [] path) = (c', Inr ?r)" "linked c' st"
    using c_do_served [OF assms(1) q h _ r] by (auto simp: sendAttrs_def)
  have "DecodeAttrs (Payload ?r) 4 = Inr (attrOfStat fs, 4 + length (FileAttr_Encode (attrOfStat fs)))"
    using attrs.get_put_end [OF assms(4), of 4 "PutUint32 ?rid"] by (simp add: AppendUint32_def)
  with c' show ?thesis by (simp add: c_Stat_def c_stat_def lift_res_def sftp_type_defs)
qed

lemma c_Stat_served_error:
  assumes "linked c st" and "length path < 2 ^ 24 - 8" and "be_Stat B (backend st) path = Inl e"
    and "length (os_text e) < 2 ^ 24 - 16"
  shows "\<exists>c'. c_Stat (served B) c path = (c', Inl (StatusError (mapErr (Some e)) (os_text e))) \<and> linked c' st"
proof -
  let ?rid = "snd (nextRequestID (c_next c))"
  have f: "field_str_ok path" "field_str_ok (os_text e)" using assms(2,4) by (auto intro!: field_str_ok_short)
  have h: "handlePacket B st (request c TypeStat (AppendString [] path)) =
      (st, sendStatus ?rid (mapErr (Some e)) (os_text e), Continue)"
    using f assms(3) by (simp add: handlePacket_request handleStat_def)
  have q: "packet_ok (request c TypeStat (AppendString [] path))" using assms(2) by (simp add: packet_ok_def)
  obtain r where r: "sendStatus ?rid (mapErr (Some e)) (os_text e) = [r]" by (simp add: sendStatus_def)
  obtain c' where c': "c_do (served B) c TypeStat (AppendString [] path) = (c', Inr r)" "linked c' st"
    using c_do_served [OF assms(1) q h r packet_ok_sendStatus [OF assms(4) r]] by auto
  with statusOfReply_sendStatus [OF f(2) r] show ?thesis
    by (auto simp: c_Stat_def c_stat_def statusError_def)
qed

text \<open>READ.\<close>

abbreviation readPayload :: "string \<Rightarrow> 64 word \<Rightarrow> nat \<Rightarrow> bytes" where
  "readPayload h off n \<equiv> AppendUint32 (AppendUint64 (AppendString [] h) off) (word_of_nat n)"

lemma handleRead_request:
  assumes "field_str_ok h" and "resolve st h = Inr real" and "n < 2 ^ 32"
    and "be_Read B (backend st) real off n = (b, res)"
  shows "handleRead B st rid (readPayload h off n) =
     (case res of
        Inl ErrEOF \<Rightarrow> (st\<lparr>backend := b\<rparr>, sendStatus rid StatusEOF [], Continue)
      | Inl e \<Rightarrow> (st\<lparr>backend := b\<rparr>, sendStatus rid (mapErr (Some e)) (os_text e), Continue)
      | Inr buf \<Rightarrow>
          if length buf > n then (st\<lparr>backend := b\<rparr>, [], Crash ''slice bounds out of range'')
          else (st\<lparr>backend := b\<rparr>,
                [\<lparr>ptype = TypeData,
                  Payload = AppendUint32 (AppendUint32 [] rid) (word_of_nat (length buf)) @ buf\<rparr>], Continue))"
proof -
  have p: "readPayload h off n = AppendString [] h @ PutUint64 off @ PutUint32 (word_of_nat n)"
    by (simp add: AppendUint32_def AppendUint64_def)
  have n: "unat (word_of_nat n :: 32 word) = n" using assms(3) by (subst unat_of_nat) simp
  have "sftp_ReadString (readPayload h off n) 0 = Inr (h, 4 + length h)"
    unfolding p using str.get_put_start [OF assms(1)] by simp
  moreover have "ReadUint64 (readPayload h off n) (4 + length h) = Inr (off, 12 + length h)"
    unfolding p using u64.get_put [OF TrueI refl, of "AppendString [] h" off] by simp
  moreover have "ReadUint32 (readPayload h off n) (12 + length h) = Inr (word_of_nat n, 16 + length h)"
    unfolding p using u32.get_put_end [OF TrueI refl, of "AppendString [] h @ PutUint64 off" "word_of_nat n"] by simp
  ultimately show ?thesis using assms(2,4) n
    by (simp add: handleRead_def split: sum.splits os_error.splits)
qed

lemma c_Read_served:
  assumes "linked c st" and "length h < 2 ^ 16" and "n < 2 ^ 24 - 8" and "resolve st h = Inr real"
    and "be_Read B (backend st) real off n = (b, Inr d)" and "length d \<le> n"
  shows "\<exists>c'. c_Read (served B) c h off n = (c', Inr d) \<and> linked c' (st\<lparr>backend := b\<rparr>)"
proof -
  let ?rid = "snd (nextRequestID (c_next c))"
  let ?r = "\<lparr>ptype = TypeData, Payload = AppendUint32 (AppendUint32 [] ?rid) (word_of_nat (length d)) @ d\<rparr>"
  have f: "field_str_ok h" using assms(2) by (intro field_str_ok_short) simp
  have h: "handlePacket B st (request c TypeRead (readPayload h off n)) = (st\<lparr>backend := b\<rparr>, [?r], Continue)"
    unfolding handlePacket_request using assms(3,6) handleRead_request [OF f assms(4) _ assms(5)] by simp
  have q: "packet_ok (request c TypeRead (readPayload h off n))"
    using assms(2) by (simp add: packet_ok_def AppendUint32_def AppendUint64_def)
  have r: "packet_ok ?r" using assms(3,6) by (simp add: packet_ok_def AppendUint32_def)
  obtain c' where c': "c_do (served B) c TypeRead (readPayload h off n) = (c', Inr ?r)" "linked c' (st\<lparr>backend := b\<rparr>)"
    using c_do_served [OF assms(1) q h refl r] by auto
  have d: "Payload ?r = PutUint32 ?rid @ AppendString [] (string_of d)"
    by (simp add: AppendUint32_def AppendString_def)
  have "field_str_ok (string_of d)" using assms(3,6) by (simp add: field_str_ok_def string_of_def)
  then have "sftp_ReadString (Payload ?r) 4 = Inr (string_of d, 8 + length d)"
    unfolding d using str.get_put_end [of "string_of d" 4 "PutUint32 ?rid"] by (simp add: string_of_def)
  with c' assms(6) show ?thesis by (simp add: c_Read_def lift_res_def sftp_type_defs)
qed

lemma c_Read_served_EOF:
  assumes "linked c st" and "length h < 2 ^ 16" and "n < 2 ^ 24 - 8" and "resolve st h = Inr real"
    and "be_Read B (backend st) real off n = (b, Inl ErrEOF)"
  shows "\<exists>c'. c_Read (served B) c h off n = (c', Inl (CErr IO_EOF)) \<and> linked c' (st\<lparr>backend := b\<rparr>)"
proof -
  let ?rid = "snd (nextRequestID (c_next c))"
  have f: "field_str_ok h" using assms(2) by (intro field_str_ok_short) simp
  obtain r where r: "sendStatus ?rid StatusEOF [] = [r]" by (simp add: sendStatus_def)
  have h: "handlePacket B st (request c TypeRead (readPayload h off n)) =
      (st\<lparr>backend := b\<rparr>, sendStatus ?rid StatusEOF [], Continue)"
    unfolding handlePacket_request using assms(3) handleRead_request [OF f assms(4) _ assms(5)] by simp
  have q: "packet_ok (request c TypeRead (readPayload h off n))"
    using assms(2) by (simp add: packet_ok_def AppendUint32_def AppendUint64_def)
  obtain c' where "c_do (served B) c TypeRead (readPayload h off n) = (c', Inr r)" "linked c' (st\<lparr>backend := b\<rparr>)"
    using c_do_served [OF assms(1) q h r packet_ok_sendStatus [OF _ r]] by auto
  moreover have "statusOfReply r = (StatusEOF, [])" "ptype r = TypeStatus"
    using statusOfReply_sendStatus [OF field_str_ok_short r] by simp_all
  ultimately show ?thesis by (simp add: c_Read_def)
qed

text \<open>The entries of a NAME reply are read back.\<close>

lemma parseEntries_names:
  assumes "\<forall>e \<in> set es. field_str_ok (fs_Name e) \<and> attr_ok (attrOfStat e)"
  shows "parseEntries (pre @ concat (map nameEntry es)) (length pre) =
    Inr (map (\<lambda>e. (fs_Name e, attrOfStat e)) (filter (\<lambda>e. fs_Name e \<noteq> ''.'' \<and> fs_Name e \<noteq> ''..'') es))"
  using assms
proof (induction es arbitrary: pre)
  case Nil
  then show ?case by (subst parseEntries.simps) simp
next
  case (Cons e es)
  let ?n = "AppendString [] (fs_Name e)" and ?l = "AppendString [] []" and ?a = "FileAttr_Encode (attrOfStat e)"
  let ?rest = "concat (map nameEntry es)"
  let ?p = "pre @ concat (map nameEntry (e # es))"
  have e: "nameEntry e = ?n @ ?l @ ?a" by (simp add: nameEntry_def AppendString_eq [of "AppendString [] (fs_Name e)"])
  have p: "?p = pre @ ?n @ ?l @ ?a @ ?rest" by (simp add: e)
  have n: "sftp_ReadString ?p (length pre) = Inr (fs_Name e, length (pre @ ?n))"
    unfolding p using Cons.prems str.get_put [of "fs_Name e" "length pre" pre "?l @ ?a @ ?rest"] by simp
  have l: "sftp_ReadString ?p (length (pre @ ?n)) = Inr ([], length (pre @ ?n @ ?l))"
    unfolding p using str.get_put [of "[]" "length (pre @ ?n)" "pre @ ?n" "?a @ ?rest"] by (simp add: field_str_ok_def)
  have a: "DecodeAttrs ?p (length (pre @ ?n @ ?l)) = Inr (attrOfStat e, length (pre @ nameEntry e))"
    unfolding p using Cons.prems attrs.get_put [of "attrOfStat e" "length (pre @ ?n @ ?l)" "pre @ ?n @ ?l" ?rest]
    by (simp add: e)
  have i: "parseEntries ?p (length (pre @ nameEntry e)) =
      Inr (map (\<lambda>e. (fs_Name e, attrOfStat e)) (filter (\<lambda>e. fs_Name e \<noteq> ''.'' \<and> fs_Name e \<noteq> ''..'') es))"
    using Cons.IH [of "pre @ nameEntry e"] Cons.prems by simp
  have lt: "length pre < length ?p" by (simp add: e)
  show ?case by (subst parseEntries.simps) (simp only: lt n l a i if_True sum.case prod.case, simp)
qed

lemma length_show_nat: "n < 10 ^ Suc k \<Longrightarrow> length (show_nat n) \<le> Suc k"
proof (induction k arbitrary: n)
  case 0
  then show ?case by (subst show_nat.simps) simp
next
  case (Suc k)
  then have "length (show_nat (n div 10)) \<le> Suc k" by (simp add: less_mult_imp_div_less)
  then show ?case by (subst show_nat.simps) simp
qed

lemma length_handle_name: "length (handle_name k) \<le> 11"
proof -
  have "unat k < 10 ^ Suc 9" using unsigned_less [of k, where 'a = nat] by simp
  from length_show_nat [OF this] show ?thesis by (simp add: handle_name_def)
qed

lemma field_str_ok_handle: "field_str_ok (handle_name k)"
  using length_handle_name [of k] by (intro field_str_ok_short) simp

text \<open>The three requests of a listing.\<close>

lemma opendir_served:
  assumes "linked c st" and "length dir < 2 ^ 24 - 8" and "be_Readdir B (backend st) dir = Inr es"
  obtains c' r where "c_do (served B) c TypeOpendir (AppendString [] dir) = (c', Inr r)"
    and "ptype r = TypeHandle"
    and "sftp_ReadString (Payload r) 4 = Inr (handle_name (nextID st + 1), 8 + length (handle_name (nextID st + 1)))"
    and "linked c' (fst (newHandle st (''dir:'' @ dir)))"
proof -
  let ?rid = "snd (nextRequestID (c_next c))" and ?h = "handle_name (nextID st + 1)"
  let ?r = "\<lparr>ptype = TypeHandle, Payload = PutUint32 ?rid @ AppendString [] ?h\<rparr>"
  have "field_str_ok dir" using assms(2) by (intro field_str_ok_short) simp
  then have h: "handlePacket B st (request c TypeOpendir (AppendString [] dir)) =
      (fst (newHandle st (''dir:'' @ dir)), sendHandle ?rid ?h, Continue)"
    unfolding handlePacket_request using assms(3) by (simp add: handleOpendir_def newHandle_eq)
  have q: "packet_ok (request c TypeOpendir (AppendString [] dir))" using assms(2) by (simp add: packet_ok_def)
  have s: "sendHandle ?rid ?h = [?r]" by (simp add: sendHandle_def AppendUint32_def AppendString_def)
  have r: "packet_ok ?r" using length_handle_name [of "nextID st + 1"] by (simp add: packet_ok_def)
  obtain c' where "c_do (served B) c TypeOpendir (AppendString [] dir) = (c', Inr ?r)"
      "linked c' (fst (newHandle st (''dir:'' @ dir)))"
    using c_do_served [OF assms(1) q h s r] by auto
  moreover have "sftp_ReadString (Payload ?r) 4 = Inr (?h, 8 + length ?h)"
    using str.get_put_end [OF field_str_ok_handle, of 4 "PutUint32 ?rid"] by simp
  ultimately show ?thesis using that by simp
qed

lemma readdir_served:
  assumes "linked c st" and "resolve st (handle_name k) = Inr (''dir:'' @ dir)" and "\<not> isDrained st (handle_name k)"
    and "be_Readdir B (backend st) dir = Inr es" and "length (concat (map nameEntry es)) < 2 ^ 24 - 4"
  obtains c' r where "c_do (served B) c TypeReaddir (AppendString [] (handle_name k)) = (c', Inr r)"
    and "ptype r = TypeName" and "length (Payload r) \<ge> 4" and "drop 4 (Payload r) = concat (map nameEntry es)"
    and "linked c' (markDrained st (handle_name k))"
proof -
  let ?rid = "snd (nextRequestID (c_next c))"
  let ?r = "\<lparr>ptype = TypeName, Payload = AppendUint32 [] ?rid @ concat (map nameEntry es)\<rparr>"
  have h: "handlePacket B st (request c TypeReaddir (AppendString [] (handle_name k))) =
      (markDrained st (handle_name k), [?r], Continue)"
    unfolding handlePacket_request using assms(2-4) field_str_ok_handle by (simp add: handleReaddir_def)
  have q: "packet_ok (request c TypeReaddir (AppendString [] (handle_name k)))"
    using length_handle_name [of k] by (simp add: packet_ok_def)
  have r: "packet_ok ?r" using assms(5) by (simp add: packet_ok_def AppendUint32_def)
  obtain c' where "c_do (served B) c TypeReaddir (AppendString [] (handle_name k)) = (c', Inr ?r)"
      "linked c' (markDrained st (handle_name k))"
    using c_do_served [OF assms(1) q h refl r] by auto
  then show ?thesis by (intro that [of c' ?r]) (simp_all add: AppendUint32_def)
qed

lemma readdir_served_EOF:
  assumes "linked c st" and "isDrained st (handle_name k)"
  obtains c' r where "c_do (served B) c TypeReaddir (AppendString [] (handle_name k)) = (c', Inr r)"
    and "ptype r = TypeStatus" and "statusOfReply r = (StatusEOF, [])" and "linked c' st"
proof -
  let ?rid = "snd (nextRequestID (c_next c))"
  obtain r where r: "sendStatus ?rid StatusEOF [] = [r]" by (simp add: sendStatus_def)
  have h: "handlePacket B st (request c TypeReaddir (AppendString [] (handle_name k))) =
      (st, sendStatus ?rid StatusEOF [], Continue)"
    unfolding handlePacket_request using assms(2) field_str_ok_handle by (simp add: handleReaddir_def)
  have q: "packet_ok (request c TypeReaddir (AppendString [] (handle_name k)))"
    using length_handle_name [of k] by (simp add: packet_ok_def)
  obtain c' where "c_do (served B) c TypeReaddir (AppendString [] (handle_name k)) = (c', Inr r)" "linked c' st"
    using c_do_served [OF assms(1) q h r packet_ok_sendStatus [OF _ r]] by auto
  then show ?thesis using that statusOfReply_sendStatus [OF field_str_ok_short r] by simp
qed

lemma CloseHandle_served:
  assumes "linked c st" and "resolve st (handle_name k) = Inr real"
  obtains c' where "CloseHandle (served B) c (handle_name k) = (c', Inr ())"
    and "linked c' (drop_handle (st\<lparr>backend := fst (be_Close B (backend st) real)\<rparr>) (handle_name k))"
proof -
  let ?rid = "snd (nextRequestID (c_next c))"
  let ?st' = "drop_handle (st\<lparr>backend := fst (be_Close B (backend st) real)\<rparr>) (handle_name k)"
  obtain r where r: "sendStatus ?rid StatusOK [] = [r]" by (simp add: sendStatus_def)
  have h: "handlePacket B st (request c TypeClose (AppendString [] (handle_name k))) =
      (?st', sendStatus ?rid StatusOK [], Continue)"
    unfolding handlePacket_request using assms(2) field_str_ok_handle by (simp add: handleClose_def)
  have q: "packet_ok (request c TypeClose (AppendString [] (handle_name k)))"
    using length_handle_name [of k] by (simp add: packet_ok_def)
  obtain c' where "c_do (served B) c TypeClose (AppendString [] (handle_name k)) = (c', Inr r)" "linked c' ?st'"
    using c_do_served [OF assms(1) q h r packet_ok_sendStatus [OF _ r]] by auto
  then show ?thesis
    using that statusOfReply_sendStatus [OF field_str_ok_short r] by (simp add: CloseHandle_def statusCall_def)
qed

lemma delete_update_new: "k \<notin> fst ` set m \<Longrightarrow> AList.delete k (AList.update k v m) = m"
  by (simp add: alist_update_new AList.delete_eq) (induction m, auto)

text \<open>The names a client reports of a listing.\<close>

definition listing :: "FileStat list \<Rightarrow> DirEntry list" where
  "listing es =
     map (\<lambda>e. (fs_Name e, attrOfStat e)) (filter (\<lambda>e. fs_Name e \<noteq> ''.'' \<and> fs_Name e \<noteq> ''..'') es)"

lemma readDirLoop_served:
  assumes c: "linked c st" and "resolve st (handle_name k) = Inr (''dir:'' @ dir)" and "\<not> isDrained st (handle_name k)"
    and "be_Readdir B (backend st) dir = Inr es" and "length (concat (map nameEntry es)) < 2 ^ 24 - 4"
    and es: "\<forall>e \<in> set es. field_str_ok (fs_Name e) \<and> attr_ok (attrOfStat e)" and "2 \<le> n"
  obtains c' where "readDirLoop n (served B) c (handle_name k) = (c', Some (Inr (listing es)))"
    and "linked c' (markDrained st (handle_name k))"
proof -
  let ?h = "handle_name k" and ?st = "markDrained st (handle_name k)"
  obtain m where n: "n = Suc (Suc m)" using \<open>2 \<le> n\<close> by (metis Suc_le_D numeral_2_eq_2 Suc_le_mono)
  obtain c1 r where r: "c_do (served B) c TypeReaddir (AppendString [] ?h) = (c1, Inr r)" "ptype r = TypeName"
      "4 \<le> length (Payload r)" "drop 4 (Payload r) = concat (map nameEntry es)" "linked c1 ?st"
    by (rule readdir_served [OF c assms(2-5)])
  have "isDrained ?st ?h" by (simp add: isDrained_def markDrained_def)
  then obtain c2 r2 where r2: "c_do (served B) c1 TypeReaddir (AppendString [] ?h) = (c2, Inr r2)"
      "ptype r2 = TypeStatus" "statusOfReply r2 = (StatusEOF, [])" "linked c2 ?st"
    by (rule readdir_served_EOF [OF r(5)])
  have "Payload r = take 4 (Payload r) @ concat (map nameEntry es)" using r(4) by (metis append_take_drop_id)
  then have "parseEntries (Payload r) 4 = Inr (listing es)"
    using parseEntries_names [OF es, of "take 4 (Payload r)"] r(3) by (simp add: listing_def)
  then have "readDirLoop n (served B) c ?h = (c2, Some (Inr (listing es)))"
    using r r2 by (simp add: n sftp_type_defs)
  with r2(4) that show ?thesis by blast
qed

lemma c_ReadDir_served:
  assumes c: "linked c st" and st: "table_ok st" and new: "handle_name (nextID st + 1) \<notin> fst ` set (handles st)"
    and dir: "length dir < 2 ^ 24 - 8" and be: "be_Readdir B (backend st) dir = Inr es"
    and es: "\<forall>e \<in> set es. field_str_ok (fs_Name e) \<and> attr_ok (attrOfStat e)"
    and len: "length (concat (map nameEntry es)) < 2 ^ 24 - 4" and n: "2 \<le> n"
  shows "\<exists>c'. c_ReadDir n (served B) c dir = (c', Some (Inr (listing es))) \<and>
    linked c' (st\<lparr>nextID := nextID st + 1, backend := fst (be_Close B (backend st) (''dir:'' @ dir))\<rparr>)"
proof -
  let ?h = "handle_name (nextID st + 1)" and ?real = "''dir:'' @ dir"
  let ?st1 = "fst (newHandle st ?real)"
  have st1: "?st1 = st\<lparr>nextID := nextID st + 1, handles := AList.update ?h ?real (handles st)\<rparr>"
    by (simp only: newHandle_eq fst_conv)
  have d: "?h \<notin> fst ` set (drained st)" using st new by (auto simp: table_ok_def)
  obtain c1 r where o: "c_do (served B) c TypeOpendir (AppendString [] dir) = (c1, Inr r)" "ptype r = TypeHandle"
      "sftp_ReadString (Payload r) 4 = Inr (?h, 8 + length ?h)" "linked c1 ?st1"
    by (rule opendir_served [OF c dir be])
  have res: "resolve ?st1 ?h = Inr ?real" unfolding st1 by (simp add: resolve_def)
  have nd: "\<not> isDrained ?st1 ?h" unfolding st1 using d by (auto simp: isDrained_def dest!: map_of_SomeD intro: rev_image_eqI)
  have be1: "be_Readdir B (backend ?st1) dir = Inr es" unfolding st1 using be by simp
  obtain c2 where l: "readDirLoop n (served B) c1 ?h = (c2, Some (Inr (listing es)))" "linked c2 (markDrained ?st1 ?h)"
    by (rule readDirLoop_served [OF o(4) res nd be1 len es n])
  have "resolve (markDrained ?st1 ?h) ?h = Inr ?real" using res by (simp add: resolve_def markDrained_def)
  then obtain c3 where c3: "CloseHandle (served B) c2 ?h = (c3, Inr ())"
      "linked c3 (drop_handle ((markDrained ?st1 ?h)\<lparr>backend := fst (be_Close B (backend (markDrained ?st1 ?h)) ?real)\<rparr>) ?h)"
    by (rule CloseHandle_served [OF l(2)])
  moreover have "drop_handle ((markDrained ?st1 ?h)\<lparr>backend := fst (be_Close B (backend (markDrained ?st1 ?h)) ?real)\<rparr>) ?h =
      st\<lparr>nextID := nextID st + 1, backend := fst (be_Close B (backend st) ?real)\<rparr>"
    unfolding st1 using new d by (simp add: drop_handle_def markDrained_def delete_update_new)
  moreover have "c_ReadDir n (served B) c dir = (c3, Some (Inr (listing es)))"
    using o l c3(1) by (simp add: c_ReadDir_def sftp_type_defs)
  ultimately show ?thesis by (intro exI [of _ c3]) simp
qed

subsection \<open>Interleaved calls\<close>

text \<open>Calls of several goroutines and the rounds of the read loop in any order.\<close>

datatype client_event = Call Type bytes | Arrive Packet | Fail error | Wait RequestID

inductive client_step :: "'s Client \<Rightarrow> client_event \<Rightarrow> (RequestID \<times> Packet) option \<Rightarrow> 's Client \<Rightarrow> bool" where
  step_Call: "do_send c t payload = Inr (c', rid, pkt) \<Longrightarrow> client_step c (Call t payload) None c'"
| step_Arrive: "client_step c (Arrive pkt) None (readStep c pkt)"
| step_Fail: "client_step c (Fail e) None (readFail c e)"
| step_Wait: "do_wait c rid = (c', Inr pkt) \<Longrightarrow> client_step c (Wait rid) (Some (rid, pkt)) c'"

definition fresh_client :: "'s Client \<Rightarrow> bool" where
  "fresh_client c \<longleftrightarrow> c_next c = 0 \<and> c_pending c = Some [] \<and> c_inbox c = []"

interpretation client_sys: state_machine fresh_client client_step .

text \<open>Packets wait in the channel of their own request, and they have arrived.\<close>

definition inbox_ok :: "Packet set \<Rightarrow> 's Client \<Rightarrow> bool" where
  "inbox_ok A c \<longleftrightarrow> (\<forall>rid pkt. map_of (c_inbox c) rid = Some pkt \<longrightarrow> request_id pkt = rid \<and> pkt \<in> A)"

lemma inbox_ok_step:
  assumes "client_step c ev out c'" and "inbox_ok A c" and "\<And>pkt. ev = Arrive pkt \<Longrightarrow> pkt \<in> A"
  shows "inbox_ok A c'"
  using assms
proof (cases rule: client_step.cases)
  case (step_Call t payload rid pkt)
  then show ?thesis using assms(2)
    by (auto simp: do_send_def inbox_ok_def split: prod.splits option.splits)
next
  case (step_Arrive pkt)
  then show ?thesis using assms(2) assms(3) [OF step_Arrive(1)]
    by (auto simp: readStep_def inbox_ok_def Let_def request_id_def split: option.splits)
next
  case (step_Fail e)
  then show ?thesis using assms(2) by (simp add: readFail_def inbox_ok_def)
next
  case (step_Wait rid pkt)
  then show ?thesis using assms(2)
    by (auto simp: do_wait_def inbox_ok_def split: option.splits if_splits)
qed

lemma inbox_ok_run:
  "client_sys.run c tr c' \<Longrightarrow> inbox_ok A c \<Longrightarrow> (\<And>pkt out. (Arrive pkt, out) \<in> set tr \<Longrightarrow> pkt \<in> A) \<Longrightarrow> inbox_ok A c'"
proof (induction rule: client_sys.run.induct)
  case (run_Cons c ev out c1 tr c')
  then show ?case using inbox_ok_step [OF run_Cons(1), of A] by auto
qed

text \<open>A client after the handshake.\<close>

abbreviation client0 :: "bytes SftpState \<Rightarrow> bytes SftpState option Client" where
  "client0 st \<equiv> \<lparr>c_next = 0, c_pending = Some [], c_inbox = [], c_readErr = None, c_closed = False, c_peer = Some st\<rparr>"

section \<open>Properties\<close>

text \<open>C14: whatever the interleaving of the calls of several goroutines with the packets that arrive, a call
  that returns a packet returns one that has arrived and carries the id of that call: replies out of
  order, unknown ids, repeated packets and short packets never reach a wrong caller.\<close>

theorem sftp_client_reply_own:
  assumes "fresh_client c0" and "client_sys.run c0 tr c" and "do_wait c rid = (c', Inr pkt)"
  shows "request_id pkt = rid \<and> (\<exists>out. (Arrive pkt, out) \<in> set tr)"
proof -
  let ?A = "{pkt. \<exists>out. (Arrive pkt, out) \<in> set tr}"
  have "inbox_ok ?A c0" using assms(1) by (simp add: fresh_client_def inbox_ok_def)
  then have "inbox_ok ?A c" using inbox_ok_run [OF assms(2), of ?A] by blast
  with assms(3) show ?thesis by (auto simp: do_wait_def inbox_ok_def split: option.splits)
qed

theorem sftp_client_reply_own_witness:
  "\<exists>(c :: bytes SftpState option Client) c'. do_wait c 1 = (c', Inr \<lparr>ptype = TypeData, Payload = [0, 0, 0, 1]\<rparr>) \<and>
     request_id \<lparr>ptype = TypeData, Payload = [0, 0, 0, 1]\<rparr> = 1"
proof -
  let ?c0 = "client0 (initState [])" and ?p = "\<lparr>ptype = TypeData, Payload = [0, 0, 0, 1]\<rparr>"
  let ?c1 = "?c0\<lparr>c_next := 1, c_pending := Some [1]\<rparr>"
  have "do_send ?c0 TypeStat [] = Inr (?c1, 1, \<lparr>ptype = TypeStat, Payload = PutUint32 1\<rparr>)" by code_simp
  then have run: "client_sys.run ?c0 [(Call TypeStat [], None), (Arrive ?p, None)] (readStep ?c1 ?p)"
    by (rule client_sys.run_Cons [OF step_Call client_sys.run_single [OF step_Arrive]])
  have w: "do_wait (readStep ?c1 ?p) 1 = (?c1\<lparr>c_pending := Some []\<rparr>, Inr ?p)" by code_simp
  have "fresh_client ?c0" by (simp add: fresh_client_def)
  from conjI [OF w conjunct1 [OF sftp_client_reply_own [OF this run w]]] show ?thesis by (intro exI)
qed

text \<open>C1: listing a directory through the client, over the wire, from this server returns exactly the entries
  of the backend but for the two dot entries, in order and with their attributes; the loop ends after two
  requests, and no handle is left behind in the server.\<close>

theorem sftp_remote_ReadDir:
  assumes "linked c st" and "table_ok st" and "handle_name (nextID st + 1) \<notin> fst ` set (handles st)"
    and "length dir < 2 ^ 24 - 8" and "be_Readdir B (backend st) dir = Inr es"
    and "\<forall>e \<in> set es. field_str_ok (fs_Name e) \<and> attr_ok (attrOfStat e)"
    and "length (concat (map nameEntry es)) < 2 ^ 24 - 4" and "2 \<le> n"
  shows "\<exists>c'. c_ReadDir n (served B) c dir = (c', Some (Inr (listing es))) \<and>
    linked c' (st\<lparr>nextID := nextID st + 1, backend := fst (be_Close B (backend st) (''dir:'' @ dir))\<rparr>)"
  by (rule c_ReadDir_served [OF assms])

theorem sftp_remote_ReadDir_witness:
  "\<exists>c'. c_ReadDir 2 (served oneFile) (client0 (initState [])) ''d'' = (c', Some (Inr (listing [])))"
  using sftp_remote_ReadDir [of "client0 (initState [])" "initState []" "''d''" oneFile "[]" 2]
  by (auto simp: linked_def oneFile_def initState_def table_ok_def)

text \<open>C34: reading a file through the client, over the wire, is reading it in the backend: the same bytes, the
  end of file reported as such, the offset of the file advanced by what was read, and the session of the
  server left with the state of the backend.\<close>

theorem sftp_remote_Read:
  assumes "linked c st" and "length (file_handle f) < 2 ^ 16" and "n < 2 ^ 24 - 8"
    and "resolve st (file_handle f) = Inr real" and "be_Read B (backend st) real (file_off f) n = (b, r)"
    and "r = Inl ErrEOF \<or> (\<exists>d. r = Inr d \<and> length d \<le> n)"
  shows "\<exists>c'. File_Read (served B) c f n =
      (c', case r of
             Inl _ \<Rightarrow> (f, Inl (CErr IO_EOF))
           | Inr d \<Rightarrow> (f\<lparr>file_off := file_off f + word_of_nat (length d)\<rparr>, Inr d)) \<and>
    linked c' (st\<lparr>backend := b\<rparr>)"
  using c_Read_served [OF assms(1-4)] c_Read_served_EOF [OF assms(1-4)] assms(5,6)
  by (fastforce simp: File_Read_def)

theorem sftp_remote_Read_witness:
  "\<exists>c'. File_Read (served oneFile) (client0 (st_file\<lparr>backend := [1, 2, 3]\<rparr>)) \<lparr>file_handle = ''h1'', file_off = 1\<rparr> 10 =
    (c', \<lparr>file_handle = ''h1'', file_off = 3\<rparr>, Inr [2, 3])"
  using sftp_remote_Read [of "client0 (st_file\<lparr>backend := [1, 2, 3]\<rparr>)" "st_file\<lparr>backend := [1, 2, 3]\<rparr>"
      "\<lparr>file_handle = ''h1'', file_off = 1\<rparr>" 10 "''1''" oneFile "[1, 2, 3]" "Inr [2, 3]"]
  by (auto simp: linked_def resolve_def oneFile_def)

text \<open>the attributes a client reads of a path are those of the backend, and a failure of the backend
  arrives as the status code and message the server maps it to.\<close>

theorem sftp_remote_Stat:
  assumes "linked c st" and "length path < 2 ^ 24 - 8"
    and "case be_Stat B (backend st) path of
           Inl e \<Rightarrow> length (os_text e) < 2 ^ 24 - 16 | Inr fs \<Rightarrow> attr_ok (attrOfStat fs)"
  shows "\<exists>c'. c_Stat (served B) c path =
      (c', case be_Stat B (backend st) path of
             Inl e \<Rightarrow> Inl (StatusError (mapErr (Some e)) (os_text e)) | Inr fs \<Rightarrow> Inr (attrOfStat fs)) \<and>
    linked c' st"
  using assms(3) c_Stat_served [OF assms(1,2)] c_Stat_served_error [OF assms(1,2)] by (auto split: sum.splits)

theorem sftp_remote_Stat_witness:
  "\<exists>c'. c_Stat (served oneFile) (client0 st_file) ''f'' =
    (c', Inr (attrOfStat \<lparr>fs_Name = ''f'', fs_Size = 0, fs_Mode = 420, fs_IsDir = False, fs_Mtime = 0, fs_UID = 0, fs_GID = 0\<rparr>))"
  using sftp_remote_Stat [of "client0 st_file" st_file "''f''" oneFile]
  by (auto simp: linked_def oneFile_def attr_ok_def attrOfStat_def time_ok_def)

text \<open>once the read loop has failed, which empties the table of pending requests, every further call of
  the client panics instead of returning the error.\<close>

theorem sftp_client_panics_after_failure:
  "c_do srv (readFail c e) t payload =
     (readFail c e, Inl (CErr (Panic ''assignment to entry in nil map'')))"
  by (simp add: c_do_def do_send_def readFail_def split: prod.splits)

text \<open>a call that looks only at the status of its reply takes a reply too short to have one for success.\<close>

theorem sftp_client_short_status:
  assumes "c_do srv c t payload = (c', Inr pkt)" and "length (Payload pkt) < 8"
  shows "statusCall srv c t payload = (c', Inr ())"
  using assms by (simp add: statusCall_def statusOfReply_def DecodeStatus_def StatusOK_def)

theorem sftp_client_short_status_witness:
  "\<exists>c'. statusCall (\<lambda>_ _. ((), Inr ([\<lparr>ptype = TypeStatus, Payload = [0, 0, 0, 1]\<rparr>], None)))
     \<lparr>c_next = 0, c_pending = Some [], c_inbox = [], c_readErr = None, c_closed = False, c_peer = ()\<rparr> TypeClose [] =
     (c', Inr ())"
proof -
  let ?c = "\<lparr>c_next = 0, c_pending = Some [], c_inbox = [], c_readErr = None, c_closed = False, c_peer = ()\<rparr>"
  let ?srv = "\<lambda>_ _. ((), Inr ([\<lparr>ptype = TypeStatus, Payload = [0, 0, 0, 1]\<rparr>], None))"
  have "c_do ?srv ?c TypeClose [] = (?c\<lparr>c_next := 1\<rparr>, Inr \<lparr>ptype = TypeStatus, Payload = [0, 0, 0, 1]\<rparr>)" by code_simp
  from sftp_client_short_status [OF this] show ?thesis by (intro exI) simp
qed

end
