(* ===== verification/FtpProto.thy ===== *)
theory FtpProto
  imports GoOs
begin

text \<open>
  Package \<open>ftp/ftp\<close>: commands and replies of the control channel, the scanner that reassembles multi-line
  replies, and the addresses of PASV, EPSV, PORT and EPRT; with the server's half of the address formats,
  so that both ends can be put together. A connection is the string of bytes not yet read.
\<close>

section \<open>Definitions\<close>

type_synonym Code = int

definition CodeReady :: Code where "CodeReady = 220"
definition CodeGoodbye :: Code where "CodeGoodbye = 221"
definition CodeServiceReadyTLS :: Code where "CodeServiceReadyTLS = 234"
definition CodeUserOK :: Code where "CodeUserOK = 331"
definition CodeLoginOK :: Code where "CodeLoginOK = 230"
definition CodeRequestedAction :: Code where "CodeRequestedAction = 250"
definition CodePathCreated :: Code where "CodePathCreated = 257"
definition CodeNeedPassword :: Code where "CodeNeedPassword = 332"
definition CodeOK :: Code where "CodeOK = 200"
definition CodeCommandNotImpl :: Code where "CodeCommandNotImpl = 502"
definition CodeFileStatus :: Code where "CodeFileStatus = 213"
definition CodeDataOpen :: Code where "CodeDataOpen = 150"
definition CodeDataClose :: Code where "CodeDataClose = 226"
definition CodeEnterPASV :: Code where "CodeEnterPASV = 227"
definition CodeEnterEPSV :: Code where "CodeEnterEPSV = 229"
definition CodeCantOpenData :: Code where "CodeCantOpenData = 425"
definition CodeConnClosed :: Code where "CodeConnClosed = 426"
definition CodeSyntaxError :: Code where "CodeSyntaxError = 500"
definition CodeNotLoggedInReq :: Code where "CodeNotLoggedInReq = 530"
definition CodeFileUnavailable :: Code where "CodeFileUnavailable = 550"
definition CodeStorageExceeded :: Code where "CodeStorageExceeded = 552"

lemmas ftp_code_defs = CodeReady_def CodeGoodbye_def CodeServiceReadyTLS_def CodeUserOK_def CodeLoginOK_def
  CodeRequestedAction_def CodePathCreated_def CodeNeedPassword_def CodeOK_def CodeCommandNotImpl_def
  CodeFileStatus_def CodeDataOpen_def CodeDataClose_def CodeEnterPASV_def CodeEnterEPSV_def CodeCantOpenData_def
  CodeConnClosed_def CodeSyntaxError_def CodeNotLoggedInReq_def CodeFileUnavailable_def CodeStorageExceeded_def

subsection \<open>Replies and commands\<close>

record Reply =
  rp_Code :: Code
  rp_Text :: string
  rp_Lines :: "string list"

fun replyLines :: "Code \<Rightarrow> string list \<Rightarrow> string" where
  "replyLines code [] = []"
| "replyLines code [l] = show_int code @ '' '' @ l @ CRLF"
| "replyLines code (l # m # ls) = show_int code @ ''-'' @ l @ CRLF @ replyLines code (m # ls)"

definition Reply_String :: "Reply \<Rightarrow> string" where
  "Reply_String r =
     (if rp_Lines r = [] then show_int (rp_Code r) @ '' '' @ rp_Text r @ CRLF
      else replyLines (rp_Code r) (rp_Lines r))"

definition Reply_Error :: "Reply \<Rightarrow> string" where
  "Reply_Error r = ''ftp: '' @ show_int (rp_Code r) @ '' '' @ rp_Text r"

definition Permanent :: "Reply \<Rightarrow> bool" where
  "Permanent r \<longleftrightarrow> 500 \<le> rp_Code r \<and> rp_Code r < 600"

definition Positive :: "Reply \<Rightarrow> bool" where
  "Positive r \<longleftrightarrow> 200 \<le> rp_Code r \<and> rp_Code r < 400"

definition FormatCode :: "Code \<Rightarrow> string" where
  "FormatCode c = show_int c"

definition NewReply :: "Code \<Rightarrow> string \<Rightarrow> Reply" where
  "NewReply code text = \<lparr>rp_Code = code, rp_Text = text, rp_Lines = []\<rparr>"

definition NewMultiLine :: "Code \<Rightarrow> string list \<Rightarrow> Reply" where
  "NewMultiLine code ls = \<lparr>rp_Code = code, rp_Text = [], rp_Lines = ls\<rparr>"

record Command =
  cmd_Name :: string
  cmd_Arg :: string

definition Command_String :: "Command \<Rightarrow> string" where
  "Command_String c =
     (if cmd_Arg c = [] then cmd_Name c @ CRLF else cmd_Name c @ '' '' @ cmd_Arg c @ CRLF)"

definition IsPrefix :: "Command \<Rightarrow> string list \<Rightarrow> bool" where
  "IsPrefix c ps = list_ex (\<lambda>p. ToUpper (cmd_Name c) = p) ps"

definition ftp_Parse :: "string \<Rightarrow> Command result" where
  "ftp_Parse line =
     (let line = TrimRight line CRLF
      in if line = [] then Inl (Errorf ''ftp: empty command'')
         else case IndexByte line CHR '' '' of
                None \<Rightarrow> Inr \<lparr>cmd_Name = ToUpper line, cmd_Arg = []\<rparr>
              | Some i \<Rightarrow> Inr \<lparr>cmd_Name = ToUpper (take i line), cmd_Arg = drop (Suc i) line\<rparr>)"

subsection \<open>The reply scanner\<close>

fun parseCode :: "int \<Rightarrow> string \<Rightarrow> Code result" where
  "parseCode n [] = Inr n"
| "parseCode n (c # cs) =
     (if \<not> isDigitB c then Inl (Errorf ''ftp: non-digit in reply code'')
      else parseCode (n * 10 + (int (of_char c) - 48)) cs)"

definition splitReplyLine :: "string \<Rightarrow> (Code \<times> string) option" where
  "splitReplyLine line =
     (if length line < 3 then None
      else case parseCode 0 (take 3 line) of
             Inl _ \<Rightarrow> None
           | Inr code \<Rightarrow>
               let rest = drop 3 line
               in if HasPrefix rest '' '' then Some (code, TrimRight (drop 1 rest) CRLF)
                  else if HasPrefix rest ''-'' then Some (code, TrimRight (drop 1 rest) CRLF)
                  else None)"

definition isMultiLineStart :: "string \<Rightarrow> bool" where
  "isMultiLineStart line \<longleftrightarrow> 4 \<le> length line \<and> line ! 3 = CHR ''-''"

text \<open>The loop over the continuation lines: each one uses up input.\<close>

function readContinuation :: "Code \<Rightarrow> string list \<Rightarrow> string \<Rightarrow> (Reply \<times> string) result" where
  "readContinuation firstCode ls r =
     (case ReadString LF r of
        Inl e \<Rightarrow> Inl e
      | Inr (line, r) \<Rightarrow>
     (case splitReplyLine line of
        None \<Rightarrow> Inl (Errorf ''ftp: malformed continuation'')
      | Some (code, text) \<Rightarrow>
          if code \<noteq> firstCode then Inl (Errorf ''ftp: reply code changed mid-message'')
          else if \<not> isMultiLineStart line then Inr (\<lparr>rp_Code = firstCode, rp_Text = [], rp_Lines = ls @ [text]\<rparr>, r)
          else readContinuation firstCode (ls @ [text]) r))"
  by pat_completeness auto
termination
  by (relation "measure (\<lambda>(c, ls, r). length r)") (auto dest: ReadString_shrinks)

declare readContinuation.simps [simp del]

definition ReplyScanner_Read :: "string \<Rightarrow> (Reply \<times> string) result" where
  "ReplyScanner_Read r =
     (case ReadString LF r of
        Inl e \<Rightarrow> Inl e
      | Inr (first, r) \<Rightarrow>
     (case splitReplyLine first of
        None \<Rightarrow> Inl (Errorf ''ftp: malformed reply'')
      | Some (firstCode, firstText) \<Rightarrow>
          if isMultiLineStart first then readContinuation firstCode [firstText] r
          else Inr (\<lparr>rp_Code = firstCode, rp_Text = [], rp_Lines = [firstText]\<rparr>, r)))"

subsection \<open>Addresses\<close>

definition replyText :: "Reply \<Rightarrow> string" where
  "replyText r = (if rp_Lines r \<noteq> [] then last (rp_Lines r) else rp_Text r)"

text \<open>What stands between the first opening and the last closing parenthesis.\<close>

definition parenthesised :: "string \<Rightarrow> string option" where
  "parenthesised text =
     (case IndexByte text CHR ''('' of
        None \<Rightarrow> None
      | Some op \<Rightarrow>
     (case LastIndexByte text CHR '')'' of
        None \<Rightarrow> None
      | Some cl \<Rightarrow> if cl \<le> op then None else Some (take (cl - (op + 1)) (drop (op + 1) text))))"

definition ParseEPSVReply :: "Reply \<Rightarrow> string result" where
  "ParseEPSVReply r =
     (if rp_Code r \<noteq> CodeEnterEPSV then Inl (Errorf ''ftp: expected 229'')
      else case parenthesised (replyText r) of
             None \<Rightarrow> Inl (Errorf ''ftp: malformed EPSV reply'')
           | Some s \<Rightarrow>
               let parts = Split s CHR ''|''
               in if length parts < 4 \<or> length parts > 5 then Inl (Errorf ''ftp: malformed EPSV reply'')
                  else if parts ! 0 \<noteq> [] \<or> parts ! 1 \<noteq> [] then Inl (Errorf ''ftp: malformed EPSV reply'')
                  else Inr (parts ! (length parts - 2)))"

text \<open>Six numbers separated by commas: the four of the address and the two octets of the port.\<close>

definition sixParts :: "string \<Rightarrow> (string \<times> int) option" where
  "sixParts s =
     (let parts = Split s CHR '',''
      in if length parts \<noteq> 6 then None
         else case (ParseInt64 (TrimSpace (parts ! 4)), ParseInt64 (TrimSpace (parts ! 5))) of
                (Some p1, Some p2) \<Rightarrow> Some (Join (take 4 parts) ''.'', wrap64 (p1 * 256 + p2))
              | _ \<Rightarrow> None)"

definition ParsePASVReply :: "Reply \<Rightarrow> (string \<times> int) result" where
  "ParsePASVReply r =
     (if rp_Code r \<noteq> CodeEnterPASV then Inl (Errorf ''ftp: expected 227'')
      else case parenthesised (replyText r) of
             None \<Rightarrow> Inl (Errorf ''ftp: malformed PASV reply'')
           | Some s \<Rightarrow>
               (case sixParts s of None \<Rightarrow> Inl (Errorf ''ftp: malformed PASV reply'') | Some hp \<Rightarrow> Inr hp))"

definition FormatPORT :: "string \<Rightarrow> int \<Rightarrow> string result" where
  "FormatPORT host port =
     (let parts = Split host CHR ''.''
      in if length parts < 4 then Inl (Panic ''index out of range'')
         else Inr (Join (map (\<lambda>i. show_int (atoi_val (parts ! i))) [0, 1, 2, 3] @
                         [show_int (quot_int port 256), show_int (rem_int port 256)]) '',''))"

definition FormatEPRT :: "string \<Rightarrow> string \<Rightarrow> int \<Rightarrow> string" where
  "FormatEPRT proto host port = proto @ ''|'' @ host @ ''|'' @ show_int port @ ''|''"

text \<open>The server's side of the addresses.\<close>

definition parsePORT :: "string \<Rightarrow> (string \<times> int) result" where
  "parsePORT arg = (case sixParts arg of None \<Rightarrow> Inl (Errorf ''bad PORT'') | Some hp \<Rightarrow> Inr hp)"

definition pasvReply :: "string \<Rightarrow> string \<Rightarrow> Reply" where
  "pasvReply host port =
     NewReply CodeEnterPASV
       (''Entering Passive Mode ('' @ map (\<lambda>c. if c = CHR ''.'' then CHR '','' else c) host @ '','' @
        show_int (quot_int (atoi_val port) 256) @ '','' @ show_int (rem_int (atoi_val port) 256) @ '').'')"

definition epsvReply :: "string \<Rightarrow> Reply" where
  "epsvReply port = NewReply CodeEnterEPSV (''Entering Extended Passive Mode (|||'' @ port @ ''|).'')"

definition parseEPRT :: "string \<Rightarrow> (string \<times> int) result" where
  "parseEPRT arg =
     (let parts = Split arg CHR ''|''
      in if length parts \<noteq> 4 then Inl (Errorf ''Bad EPRT'')
         else case ParseInt64 (parts ! 2) of
                None \<Rightarrow> Inl (Errorf ''Bad EPRT port'')
              | Some port \<Rightarrow> Inr (parts ! 1, port))"

subsection \<open>What survives the wire\<close>

definition code_ok :: "Code \<Rightarrow> bool" where
  "code_ok c \<longleftrightarrow> 100 \<le> c \<and> c < 1000"

definition line_ok :: "string \<Rightarrow> bool" where
  "line_ok l \<longleftrightarrow> LF \<notin> set l \<and> (l = [] \<or> last l \<noteq> CR)"

definition reply_ok :: "Reply \<Rightarrow> bool" where
  "reply_ok r \<longleftrightarrow> code_ok (rp_Code r) \<and> line_ok (rp_Text r) \<and> list_all line_ok (rp_Lines r)"

text \<open>What the scanner makes of a reply: its lines, with the text as the only one.\<close>

definition scanned :: "Reply \<Rightarrow> Reply" where
  "scanned r = \<lparr>rp_Code = rp_Code r, rp_Text = [], rp_Lines = (if rp_Lines r = [] then [rp_Text r] else rp_Lines r)\<rparr>"

definition command_ok :: "Command \<Rightarrow> bool" where
  "command_ok c \<longleftrightarrow> cmd_Name c \<noteq> [] \<and> ToUpper (cmd_Name c) = cmd_Name c \<and> CHR '' '' \<notin> set (cmd_Name c) \<and>
     last (cmd_Name c) \<notin> {CR, LF} \<and> (cmd_Arg c = [] \<or> last (cmd_Arg c) \<notin> {CR, LF})"

section \<open>Lemmas\<close>

lemma parseCode_digits: "parse_digits m s = Some n \<Longrightarrow> parseCode (int m) s = Inr (int n)"
proof (induction s arbitrary: m)
  case (Cons c s)
  then have d: "isDigitB c" and p: "parse_digits (m * 10 + (of_char c - 48)) s = Some n"
    by (simp_all split: if_splits)
  have "48 \<le> (of_char c :: nat)" using d by (simp add: isDigitB_def)
  then have eq: "int m * 10 + (int (of_char c) - 48) = int (m * 10 + (of_char c - 48))" by linarith
  show ?case using Cons.IH [OF p] d by (simp only: parseCode.simps eq not_True_eq_False if_False)
qed simp

lemma length_show_nat_3: "100 \<le> n \<Longrightarrow> n < 1000 \<Longrightarrow> length (show_nat n) = 3"
proof -
  assume n: "100 \<le> n" "n < 1000"
  have d: "\<not> n < 10" "\<not> n div 10 < 10" "n div 10 div 10 < 10" using n by linarith+
  have "length (show_nat n) = Suc (length (show_nat (n div 10)))" using d(1) by (subst show_nat.simps) simp
  also have "length (show_nat (n div 10)) = Suc (length (show_nat (n div 10 div 10)))" using d(2) by (subst show_nat.simps) simp
  also have "length (show_nat (n div 10 div 10)) = 1" using d(3) by (subst show_nat.simps) simp
  finally show ?thesis by simp
qed

lemma show_code:
  assumes "code_ok c"
  shows "length (show_int c) = 3" and "parseCode 0 (show_int c) = Inr c" and "LF \<notin> set (show_int c)"
proof -
  have s: "show_int c = show_nat (nat c)" using assms by (simp add: show_int_def code_ok_def)
  show "length (show_int c) = 3" unfolding s by (rule length_show_nat_3) (use assms in \<open>auto simp: code_ok_def\<close>)
  show "parseCode 0 (show_int c) = Inr c"
    unfolding s using parseCode_digits [OF parse_digits_show_nat, of "nat c"] assms by (simp add: code_ok_def)
  show "LF \<notin> set (show_int c)" using show_int_chars [of LF c] by (auto simp: isDigitB_def)
qed

lemma TrimRight_line [simp]: "line_ok l \<Longrightarrow> TrimRight (l @ CRLF) CRLF = l"
proof -
  assume l: "line_ok l"
  have "l \<noteq> [] \<Longrightarrow> last l \<noteq> LF" using l last_in_set unfolding line_ok_def by metis
  then have n: "l = [] \<or> last l \<notin> set CRLF" using l by (auto simp: line_ok_def)
  have "TrimRight (l @ CRLF) CRLF = TrimRight l CRLF" by (rule TrimRight_append_set) simp
  also have "\<dots> = l" by (rule TrimRight_id [OF n])
  finally show ?thesis .
qed

text \<open>One line of a reply, with either separator.\<close>

lemma splitReplyLine_line:
  assumes "code_ok c" and "line_ok l" and "sep = CHR '' '' \<or> sep = CHR ''-''"
  shows "splitReplyLine (show_int c @ sep # l @ CRLF) = Some (c, l)"
    and "isMultiLineStart (show_int c @ sep # l @ CRLF) \<longleftrightarrow> sep = CHR ''-''"
    and "ReadString LF (show_int c @ sep # l @ CRLF @ rest) = Inr (show_int c @ sep # l @ CRLF, rest)"
proof -
  note c = show_code [OF assms(1)]
  show "splitReplyLine (show_int c @ sep # l @ CRLF) = Some (c, l)"
    using assms(3) by (elim disjE) (simp_all add: splitReplyLine_def c TrimRight_line [OF assms(2)])
  show "isMultiLineStart (show_int c @ sep # l @ CRLF) \<longleftrightarrow> sep = CHR ''-''"
    using c(1) by (simp add: isMultiLineStart_def nth_append)
  have "LF \<notin> set (show_int c @ sep # l @ [CR])" using c(3) assms(2,3) by (auto simp: line_ok_def)
  from ReadString_append [OF this, of rest]
  show "ReadString LF (show_int c @ sep # l @ CRLF @ rest) = Inr (show_int c @ sep # l @ CRLF, rest)" by simp
qed

lemma replyLines_rest:
  "replyLines c [l] @ rest = show_int c @ CHR '' '' # l @ CRLF @ rest"
  "replyLines c (l # m # ls) @ rest = show_int c @ CHR ''-'' # l @ CRLF @ (replyLines c (m # ls) @ rest)"
  by simp_all

lemma readContinuation_lines:
  assumes c: "code_ok c"
  shows "ls \<noteq> [] \<Longrightarrow> list_all line_ok ls \<Longrightarrow> readContinuation c acc (replyLines c ls @ rest) =
    Inr (\<lparr>rp_Code = c, rp_Text = [], rp_Lines = acc @ ls\<rparr>, rest)"
proof (induction ls arbitrary: acc)
  case (Cons l ls)
  then have l: "line_ok l" by simp
  show ?case
  proof (cases ls)
    case Nil
    note s = splitReplyLine_line [OF c l disjI1 [OF refl]]
    show ?thesis unfolding Nil replyLines_rest readContinuation.simps [of c acc] s(3)
      by (simp add: s(1,2) del: append_Cons append_assoc)
  next
    case (Cons m ms)
    note s = splitReplyLine_line [OF c l disjI2 [OF refl]]
    have "readContinuation c (acc @ [l]) (replyLines c (m # ms) @ rest) =
        Inr (\<lparr>rp_Code = c, rp_Text = [], rp_Lines = (acc @ [l]) @ ls\<rparr>, rest)"
      using Cons.IH [of "acc @ [l]"] Cons.prems Cons by simp
    then show ?thesis unfolding Cons replyLines_rest readContinuation.simps [of c acc] s(3)
      by (simp add: s(1,2) del: append_Cons append_assoc replyLines.simps)
  qed
qed simp

lemma ReplyScanner_Read_String:
  assumes "reply_ok r"
  shows "ReplyScanner_Read (Reply_String r @ rest) = Inr (scanned r, rest)"
proof -
  let ?c = "rp_Code r"
  define ls where "ls = (if rp_Lines r = [] then [rp_Text r] else rp_Lines r)"
  have c: "code_ok ?c" and ls: "ls \<noteq> []" "list_all line_ok ls"
    using assms by (auto simp: reply_ok_def ls_def)
  have w: "Reply_String r = replyLines ?c ls" by (simp add: Reply_String_def ls_def)
  have sc: "scanned r = \<lparr>rp_Code = ?c, rp_Text = [], rp_Lines = ls\<rparr>" by (simp add: scanned_def ls_def)
  obtain l ms where l: "ls = l # ms" using ls(1) by (cases ls) auto
  then have lo: "line_ok l" "list_all line_ok ms" using ls(2) by auto
  show ?thesis
  proof (cases ms)
    case Nil
    note s = splitReplyLine_line [OF c lo(1) disjI1 [OF refl]]
    show ?thesis unfolding w sc l Nil replyLines_rest ReplyScanner_Read_def s(3)
      by (simp add: s(1,2) del: append_Cons append_assoc)
  next
    case (Cons m ns)
    note s = splitReplyLine_line [OF c lo(1) disjI2 [OF refl]]
    have "readContinuation ?c [l] (replyLines ?c (m # ns) @ rest) =
        Inr (\<lparr>rp_Code = ?c, rp_Text = [], rp_Lines = [l] @ ms\<rparr>, rest)"
      using readContinuation_lines [OF c, of ms "[l]" rest] lo(2) Cons by simp
    then show ?thesis unfolding w sc l Cons replyLines_rest ReplyScanner_Read_def s(3)
      by (simp add: s(1,2) del: append_Cons append_assoc replyLines.simps)
  qed
qed

interpretation reply_codec: prefix_codec Reply_String ReplyScanner_Read "\<lambda>r. reply_ok r \<and> scanned r = r"
  by unfold_locales (simp add: ReplyScanner_Read_String)

lemma ftp_Parse_Command_String:
  assumes "command_ok c"
  shows "ftp_Parse (Command_String c) = Inr c"
proof -
  have n: "cmd_Name c \<noteq> []" "last (cmd_Name c) \<notin> set CRLF" "CHR '' '' \<notin> set (cmd_Name c)" "ToUpper (cmd_Name c) = cmd_Name c"
    and a: "cmd_Arg c = [] \<or> last (cmd_Arg c) \<notin> set CRLF"
    using assms by (auto simp: command_ok_def)
  show ?thesis
  proof (cases "cmd_Arg c = []")
    case True
    have "TrimRight (cmd_Name c @ CRLF) CRLF = cmd_Name c"
      using TrimRight_append_set [of CRLF CRLF "cmd_Name c"] TrimRight_id [of "cmd_Name c" CRLF] n by simp
    with True n show ?thesis by (simp add: ftp_Parse_def Command_String_def Let_def)
  next
    case False
    let ?l = "cmd_Name c @ '' '' @ cmd_Arg c"
    have "TrimRight (?l @ CRLF) CRLF = ?l"
      using TrimRight_append_set [of CRLF CRLF ?l] TrimRight_id [of ?l CRLF] a False by simp
    moreover have "IndexByte ?l CHR '' '' = Some (length (cmd_Name c))" using IndexByte_append [OF n(3)] by simp
    ultimately show ?thesis using False n by (simp add: ftp_Parse_def Command_String_def Let_def)
  qed
qed

subsection \<open>Addresses\<close>

lemma TrimSpace_id: "(\<And>c. c \<in> set s \<Longrightarrow> \<not> isSpace c) \<Longrightarrow> TrimSpace s = s"
proof -
  assume s: "\<And>c. c \<in> set s \<Longrightarrow> \<not> isSpace c"
  have "dropWhile isSpace t = t" if "set t \<subseteq> set s" for t using that s by (cases t) auto
  then show ?thesis by (simp add: TrimSpace_def)
qed

lemma TrimSpace_show_int [simp]: "TrimSpace (show_int x) = show_int x"
proof (rule TrimSpace_id)
  fix c assume "c \<in> set (show_int x)"
  then show "\<not> isSpace c" using show_int_chars [of c x] by (auto simp: isSpace_def isDigitB_def)
qed

lemma show_int_of_nat: "show_int (int n) = show_nat n"
  by (simp add: show_int_def)

lemma atoi_show_nat: "n < 2 ^ 63 \<Longrightarrow> atoi_val (show_nat n) = int n"
  using ParseInt64_show_int [of "int n"] by (simp add: atoi_val_def show_int_of_nat int64_def)

lemma sep_notin_show_int: "sep \<noteq> CHR ''-'' \<Longrightarrow> \<not> isDigitB sep \<Longrightarrow> sep \<notin> set (show_int x)"
  using show_int_chars by blast

lemma sixParts_Join:
  assumes "length hs = 4" and "\<forall>h \<in> set hs. CHR '','' \<notin> set h" and "int64 p1" and "int64 p2"
  shows "sixParts (Join (hs @ [show_int p1, show_int p2]) '','') = Some (Join hs ''.'', wrap64 (p1 * 256 + p2))"
proof -
  let ?ps = "hs @ [show_int p1, show_int p2]"
  have "CHR '','' \<notin> set (show_int x)" for x by (rule sep_notin_show_int) (auto simp: isDigitB_def)
  then have "Split (Join ?ps '','') CHR '','' = ?ps" using assms(2) by (intro Split_Join) auto
  then show ?thesis using assms by (simp add: sixParts_def Let_def nth_append)
qed

lemma port_octets:
  assumes "n < 65536"
  shows "quot_int (int n) 256 = int (n div 256)" and "rem_int (int n) 256 = int (n mod 256)"
proof -
  show q: "quot_int (int n) 256 = int (n div 256)" by (cases "n = 0") (simp_all add: quot_int_def zdiv_int)
  show "rem_int (int n) 256 = int (n mod 256)"
    unfolding rem_int_def q by (simp add: zmod_int minus_div_mult_eq_mod zdiv_int)
qed

lemma port_join: "n < 65536 \<Longrightarrow> wrap64 (int (n div 256) * 256 + int (n mod 256)) = int n"
proof -
  assume n: "n < 65536"
  have "int (n div 256) * 256 + int (n mod 256) = int n"
    by (metis div_mult_mod_eq of_nat_add of_nat_mult of_nat_numeral)
  moreover have "int64 (int n)" using n by (simp add: int64_def)
  ultimately show ?thesis by simp
qed

lemma parenthesised_mid:
  assumes "CHR ''('' \<notin> set a"
  shows "parenthesised (a @ ''('' @ m @ '').'') = Some m"
proof -
  have "IndexByte (a @ ''('' @ m @ '').'') CHR ''('' = Some (length a)" using IndexByte_append [OF assms(1)] by simp
  moreover have "LastIndexByte (a @ ''('' @ m @ '').'') CHR '')'' = Some (length a + length m + 1)"
    by (simp add: LastIndexByte_def)
  ultimately show ?thesis by (simp add: parenthesised_def)
qed

lemma Split_dots_commas:
  "CHR '','' \<notin> set host \<Longrightarrow>
   Split (map (\<lambda>c. if c = CHR ''.'' then CHR '','' else c) host) CHR '','' = Split host CHR ''.''"
  by (induction host) (auto split: list.splits)

lemma Split_set: "w \<in> set (Split s c) \<Longrightarrow> set w \<subseteq> set s"
proof (induction s arbitrary: w)
  case (Cons a s)
  obtain v vs where v: "Split s c = v # vs" by (cases "Split s c") auto
  with Cons.IH [of v] Cons.IH [of w] Cons.prems show ?case by (auto split: if_splits)
qed simp

lemma pasv_line:
  assumes "CHR '','' \<notin> set host" and "n < 65536"
  shows "rp_Text (pasvReply host (show_nat n)) =
    ''Entering Passive Mode '' @ ''('' @
      Join (Split host CHR ''.'' @ [show_int (int (n div 256)), show_int (int (n mod 256))]) '','' @ '').''"
proof -
  let ?m = "map (\<lambda>c. if c = CHR ''.'' then CHR '','' else c) host"
  have "Join (Split host CHR ''.'') '','' = ?m"
    using Join_Split [of ?m "CHR '',''"] by (simp add: Split_dots_commas [OF assms(1)])
  then have "Join (Split host CHR ''.'' @ [x, y]) '','' = ?m @ '','' @ x @ '','' @ y" for x y
    by (simp add: Join_append)
  then show ?thesis using assms(2)
    by (simp add: pasvReply_def NewReply_def atoi_show_nat port_octets)
qed

lemma ParsePASVReply_pasv:
  assumes "length (Split host CHR ''.'') = 4" and "CHR '','' \<notin> set host" and "n < 65536"
  shows "ParsePASVReply (scanned (pasvReply host (show_nat n))) = Inr (host, int n)"
proof -
  let ?hs = "Split host CHR ''.''" and ?q = "show_int (int (n div 256))" and ?r = "show_int (int (n mod 256))"
  have "sixParts (Join (?hs @ [?q, ?r]) '','') = Some (Join ?hs ''.'', wrap64 (int (n div 256) * 256 + int (n mod 256)))"
    using assms Split_set [of _ host "CHR ''.''"]
    by (intro sixParts_Join) (auto simp: int64_def)
  moreover have "parenthesised (rp_Text (pasvReply host (show_nat n))) = Some (Join (?hs @ [?q, ?r]) '','')"
    unfolding pasv_line [OF assms(2,3)] by (rule parenthesised_mid) simp
  ultimately show ?thesis
    using port_join [OF assms(3)] Join_Split [of host "CHR ''.''"]
    by (simp add: ParsePASVReply_def scanned_def replyText_def pasvReply_def NewReply_def)
qed

lemma ParseEPSVReply_epsv:
  assumes "CHR ''|'' \<notin> set port"
  shows "ParseEPSVReply (scanned (epsvReply port)) = Inr port"
proof -
  have "parenthesised (''Entering Extended Passive Mode '' @ ''('' @ (''|||'' @ port @ ''|'') @ '').'') = Some (''|||'' @ port @ ''|'')"
    by (rule parenthesised_mid) simp
  moreover have "Split (''|||'' @ port @ ''|'') CHR ''|'' = [[], [], [], port, []]"
    using Split_append_sep [OF assms, of "[]"] by simp
  ultimately show ?thesis
    by (simp add: ParseEPSVReply_def scanned_def replyText_def epsvReply_def NewReply_def)
qed

lemma parsePORT_FormatPORT:
  assumes "a < 256" "b < 256" "c < 256" "e < 256" and n: "n < 65536"
  shows "\<exists>arg. FormatPORT (Join (map show_nat [a, b, c, e]) ''.'') (int n) = Inr arg \<and>
    parsePORT arg = Inr (Join (map show_nat [a, b, c, e]) ''.'', int n)"
proof -
  let ?hs = "map show_nat [a, b, c, e]" and ?q = "show_int (int (n div 256))" and ?r = "show_int (int (n mod 256))"
  have d: "c \<notin> set (show_nat k)" if "\<not> isDigitB c" for c k using that show_nat_digits by blast
  have "Split (Join ?hs ''.'') CHR ''.'' = ?hs" by (intro Split_Join) (auto simp: d isDigitB_def)
  then have "FormatPORT (Join ?hs ''.'') (int n) = Inr (Join (?hs @ [?q, ?r]) '','')"
    unfolding FormatPORT_def Let_def using assms
    by (simp del: Join.simps add: atoi_show_nat show_int_of_nat port_octets)
  moreover have "sixParts (Join (?hs @ [?q, ?r]) '','') =
      Some (Join ?hs ''.'', wrap64 (int (n div 256) * 256 + int (n mod 256)))"
    by (rule sixParts_Join) (use n in \<open>auto simp: d isDigitB_def int64_def\<close>)
  then have "parsePORT (Join (?hs @ [?q, ?r]) '','') = Inr (Join ?hs ''.'', int n)"
    unfolding parsePORT_def port_join [OF n] by simp
  ultimately show ?thesis by blast
qed

section \<open>Properties\<close>

text \<open>the scanner reads back a reply of one or more lines from the control channel, whatever follows it,
  as the list of its lines; a one-line reply comes back with its text as the only line and an empty text.\<close>

theorem ftp_reply_roundtrip:
  assumes "reply_ok r"
  shows "ReplyScanner_Read (Reply_String r @ rest) =
    Inr (\<lparr>rp_Code = rp_Code r, rp_Text = [], rp_Lines = (if rp_Lines r = [] then [rp_Text r] else rp_Lines r)\<rparr>, rest)"
  using ReplyScanner_Read_String [OF assms] by (simp add: scanned_def)

theorem ftp_reply_roundtrip_witness:
  "ReplyScanner_Read (Reply_String (NewMultiLine 211 [''Features:'', '' UTF8'', ''End'']) @ ''x'') =
    Inr (\<lparr>rp_Code = 211, rp_Text = [], rp_Lines = [''Features:'', '' UTF8'', ''End'']\<rparr>, ''x'')"
  by (subst ftp_reply_roundtrip)
    (simp_all add: reply_ok_def NewMultiLine_def code_ok_def line_ok_def)

text \<open>parsing a command line gives back the command it was written from, when the verb is in upper case
  without spaces and nothing ends in a line terminator.\<close>

theorem ftp_command_roundtrip:
  assumes "command_ok c"
  shows "ftp_Parse (Command_String c) = Inr c"
  by (rule ftp_Parse_Command_String [OF assms])

theorem ftp_command_roundtrip_witness:
  "ftp_Parse (Command_String \<lparr>cmd_Name = ''RETR'', cmd_Arg = ''a b''\<rparr>) = Inr \<lparr>cmd_Name = ''RETR'', cmd_Arg = ''a b''\<rparr>"
  by (rule ftp_command_roundtrip) code_simp

text \<open>the client finds the data connection where the server listens: from the PASV reply of the server,
  sent over the control channel, it reads the host and the port the server wrote, and from the EPSV reply
  the port, for every port number.\<close>

theorem ftp_passive_address:
  assumes "length (Split host CHR ''.'') = 4" and "CHR '','' \<notin> set host" and "LF \<notin> set host" and "n < 65536"
  shows "\<exists>r e. ReplyScanner_Read (Reply_String (pasvReply host (show_nat n)) @ rest) = Inr (r, rest) \<and>
      ParsePASVReply r = Inr (host, int n) \<and>
      ReplyScanner_Read (Reply_String (epsvReply (show_nat n)) @ rest) = Inr (e, rest) \<and>
      ParseEPSVReply e = Inr (show_nat n)"
proof -
  have d: "c \<notin> set (show_nat k)" "c \<notin> set (show_int (int k))" if "\<not> isDigitB c" for c k
    using that show_nat_digits by (auto simp: show_int_of_nat)
  have "LF \<notin> set (map (\<lambda>c. if c = CHR ''.'' then CHR '','' else c) host)" using assms(3) by auto
  then have "reply_ok (pasvReply host (show_nat n))"
    using assms(4) by (simp add: reply_ok_def pasvReply_def NewReply_def code_ok_def line_ok_def
        ftp_code_defs atoi_show_nat port_octets d isDigitB_def)
  moreover have "reply_ok (epsvReply (show_nat n))"
    by (simp add: reply_ok_def epsvReply_def NewReply_def code_ok_def line_ok_def ftp_code_defs d isDigitB_def)
  moreover have "CHR ''|'' \<notin> set (show_nat n)" by (rule d) (simp add: isDigitB_def)
  ultimately show ?thesis
    using ParsePASVReply_pasv [OF assms(1,2,4)] ParseEPSVReply_epsv ReplyScanner_Read_String by metis
qed

theorem ftp_passive_address_witness:
  "\<exists>r. ReplyScanner_Read (Reply_String (pasvReply ''10.0.0.7'' (show_nat 2121)) @ []) = Inr (r, []) \<and>
     ParsePASVReply r = Inr (''10.0.0.7'', 2121)"
  using ftp_passive_address [of "''10.0.0.7''" 2121 "[]"] by auto

text \<open>the server dials the address a client sends with PORT: the argument \<open>FormatPORT\<close> writes for an IPv4
  address and a port is parsed back to both.\<close>

theorem ftp_active_address:
  assumes "a < 256" "b < 256" "c < 256" "e < 256" and "n < 65536"
  shows "\<exists>arg. FormatPORT (Join (map show_nat [a, b, c, e]) ''.'') (int n) = Inr arg \<and>
    parsePORT arg = Inr (Join (map show_nat [a, b, c, e]) ''.'', int n)"
  by (rule parsePORT_FormatPORT [OF assms])

theorem ftp_active_address_witness:
  "\<exists>arg. FormatPORT (Join (map show_nat [127, 0, 0, 1]) ''.'') (int 5000) = Inr arg \<and>
    parsePORT arg = Inr (Join (map show_nat [127, 0, 0, 1]) ''.'', int 5000)"
  by (rule ftp_active_address) simp_all

text \<open>the forms of extended passive and active mode that do not work: an EPSV reply without the last bar
  gives an empty port, and an EPRT argument in the form of RFC 2428, with a bar in front, is refused, while
  the client's own form without it is taken.\<close>

theorem ftp_extended_forms:
  "ParseEPSVReply (NewReply CodeEnterEPSV ''Entering Extended Passive Mode (|||80)'') = Inr [] \<and>
   parseEPRT ''|1|132.235.1.2|80|'' = Inl (Errorf ''Bad EPRT'') \<and>
   parseEPRT (FormatEPRT ''1'' ''132.235.1.2'' 80) = Inr (''132.235.1.2'', 80)"
  by (intro conjI; code_simp)

end
