(* ===== verification/FtpFs.thy ===== *)
theory FtpFs
  imports FtpProto
begin

text \<open>
  Packages \<open>ftp/server/auth\<close> and \<open>ftp/server/fs\<close>: the two authenticators, and the filesystem on the
  operating system with its own path cleaning. An authenticator and a filesystem are what the server calls
  through its interfaces; errors are their texts.
\<close>

section \<open>Definitions\<close>

subsection \<open>Authenticators\<close>

record User =
  u_Name :: string
  u_Home :: string

definition noUser :: User where
  "noUser = \<lparr>u_Name = [], u_Home = []\<rparr>"

type_synonym Authenticator = "string \<Rightarrow> string \<Rightarrow> string + User"

text \<open>\<open>Static\<close>: the rows by lower-case user name.\<close>

type_synonym Static = "(string \<times> (string \<times> User)) list"

definition NewStatic :: Static where
  "NewStatic = []"

definition Static_Add :: "Static \<Rightarrow> string \<Rightarrow> string \<Rightarrow> Static" where
  "Static_Add rows user pass = AList.update (ToLower user) (pass, \<lparr>u_Name = user, u_Home = []\<rparr>) rows"

definition Static_Authenticate :: "Static \<Rightarrow> Authenticator" where
  "Static_Authenticate rows user pass =
     (case map_of rows (ToLower user) of
        None \<Rightarrow> Inl ''login incorrect''
      | Some (p, u) \<Rightarrow> if p \<noteq> pass then Inl ''login incorrect'' else Inr u)"

record AnonymousConfig =
  an_User :: string
  an_AllowedPasswords :: "string list"

definition NewAnonymous :: "AnonymousConfig \<Rightarrow> AnonymousConfig" where
  "NewAnonymous cfg = (if an_User cfg = [] then cfg\<lparr>an_User := ''anonymous''\<rparr> else cfg)"

definition AllowAnonymous :: AnonymousConfig where
  "AllowAnonymous = \<lparr>an_User = ''anonymous'', an_AllowedPasswords = []\<rparr>"

definition Anonymous_Authenticate :: "AnonymousConfig \<Rightarrow> Authenticator" where
  "Anonymous_Authenticate cfg user pass =
     (if \<not> EqualFold user (an_User cfg) then Inl ''login incorrect''
      else if pass = [] then Inl ''password required''
      else if length (an_AllowedPasswords cfg) > 0 \<and> pass \<notin> set (an_AllowedPasswords cfg) then Inl ''login incorrect''
      else Inr \<lparr>u_Name = user, u_Home = []\<rparr>)"

subsection \<open>Paths\<close>

definition pathClean_step :: "string \<Rightarrow> string \<Rightarrow> string" where
  "pathClean_step out seg =
     (if seg = [] \<or> seg = ''.'' then out
      else if seg = ''..'' then
        (case LastIndexByte out CHR ''/'' of None \<Rightarrow> out | Some i \<Rightarrow> take i out)
      else out @ ''/'' @ seg)"

definition pathClean :: "string \<Rightarrow> string" where
  "pathClean p =
     (let out = foldl pathClean_step [] (Split p CHR ''/'') in if out = [] then ''/'' else out)"

definition fs_full :: "string \<Rightarrow> User \<Rightarrow> string \<Rightarrow> string" where
  "fs_full rt u p =
     (if u_Home u \<noteq> [] then path_Join [rt, u_Home u, TrimPrefix p ''/'']
      else path_Join [rt, TrimPrefix p ''/''])"

definition fs_Resolve :: "User \<Rightarrow> string \<Rightarrow> string \<Rightarrow> string + string" where
  "fs_Resolve u cwd arg =
     (if arg = [] then Inr cwd
      else let arg = (if \<not> HasPrefix arg ''/'' then cwd @ ''/'' @ arg else arg); clean = pathClean arg
           in if \<not> HasPrefix clean ''/'' then Inl ''bad path'' else Inr clean)"

subsection \<open>The filesystem\<close>

record fs_Entry =
  en_Name :: string
  en_Size :: int
  en_IsDir :: bool
  en_ModTime :: int
  en_Owner :: string
  en_Group :: string

definition pathError :: "string \<Rightarrow> string \<Rightarrow> os_error option \<Rightarrow> string option" where
  "pathError op path err =
     (case err of None \<Rightarrow> None | Some e \<Rightarrow> Some (op @ '' '' @ path @ '': '' @ os_text e))"

definition pathErr :: "string \<Rightarrow> string \<Rightarrow> os_error \<Rightarrow> string" where
  "pathErr op path e = op @ '' '' @ path @ '': '' @ os_text e"

definition entryFromInfo :: "FileInfo \<Rightarrow> fs_Entry" where
  "entryFromInfo fi =
     \<lparr>en_Name = fi_Name fi, en_Size = fi_Size fi, en_IsDir = fi_IsDir fi, en_ModTime = fi_ModTime fi,
      en_Owner = ''-'', en_Group = ''-''\<rparr>"

text \<open>The interface the server calls, over a state. A transfer takes or gives the bytes of the data
  connection.\<close>

record 'e Filesystem =
  f_Resolve :: "User \<Rightarrow> string \<Rightarrow> string \<Rightarrow> string + string"
  f_Stat :: "'e \<Rightarrow> User \<Rightarrow> string \<Rightarrow> string + fs_Entry"
  f_List :: "'e \<Rightarrow> User \<Rightarrow> string \<Rightarrow> 'e \<times> (string + fs_Entry list)"
  f_Mkdir :: "'e \<Rightarrow> User \<Rightarrow> string \<Rightarrow> 'e \<times> string option"
  f_Remove :: "'e \<Rightarrow> User \<Rightarrow> string \<Rightarrow> 'e \<times> string option"
  f_Rename :: "'e \<Rightarrow> User \<Rightarrow> string \<Rightarrow> string \<Rightarrow> 'e \<times> string option"
  f_SendFile :: "'e \<Rightarrow> User \<Rightarrow> string \<Rightarrow> int \<Rightarrow> 'e \<times> bytes \<times> string option"
  f_RecvFile :: "'e \<Rightarrow> User \<Rightarrow> string \<Rightarrow> bytes \<Rightarrow> 'e \<times> string option"
  f_AppendFile :: "'e \<Rightarrow> User \<Rightarrow> string \<Rightarrow> bytes \<Rightarrow> 'e \<times> string option"

definition NewOS :: "'o OS \<Rightarrow> 'o \<Rightarrow> string \<Rightarrow> string" where
  "NewOS os o_st rt = (case os_Abs os o_st rt of Inl _ \<Rightarrow> rt | Inr a \<Rightarrow> a)"

definition fs_Stat :: "'o OS \<Rightarrow> string \<Rightarrow> 'o \<Rightarrow> User \<Rightarrow> string \<Rightarrow> string + fs_Entry" where
  "fs_Stat os rt o_st u p =
     (case os_Stat os o_st (fs_full rt u p) of
        Inl e \<Rightarrow> Inl (pathErr ''stat'' p e) | Inr st \<Rightarrow> Inr (entryFromInfo st))"

definition fs_List :: "'o OS \<Rightarrow> string \<Rightarrow> 'o \<Rightarrow> User \<Rightarrow> string \<Rightarrow> 'o \<times> (string + fs_Entry list)" where
  "fs_List os rt o_st u p =
     (case os_OpenFile os o_st (fs_full rt u p) O_RDONLY of
        (o_st, Inl e) \<Rightarrow> (o_st, Inl (pathErr ''list'' p e))
      | (o_st, Inr f) \<Rightarrow>
          (fst (file_Close os o_st f),
           case file_Readdir os o_st f of
             Inl e \<Rightarrow> Inl (pathErr ''list'' p e) | Inr is \<Rightarrow> Inr (map entryFromInfo is)))"

definition fs_Mkdir :: "'o OS \<Rightarrow> string \<Rightarrow> 'o \<Rightarrow> User \<Rightarrow> string \<Rightarrow> 'o \<times> string option" where
  "fs_Mkdir os rt o_st u p =
     (case os_MkdirAll os o_st (fs_full rt u p) of (o_st, e) \<Rightarrow> (o_st, pathError ''mkdir'' p e))"

definition fs_Remove :: "'o OS \<Rightarrow> string \<Rightarrow> 'o \<Rightarrow> User \<Rightarrow> string \<Rightarrow> 'o \<times> string option" where
  "fs_Remove os rt o_st u p =
     (case os_RemoveAll os o_st (fs_full rt u p) of (o_st, e) \<Rightarrow> (o_st, pathError ''remove'' p e))"

definition fs_Rename :: "'o OS \<Rightarrow> string \<Rightarrow> 'o \<Rightarrow> User \<Rightarrow> string \<Rightarrow> string \<Rightarrow> 'o \<times> string option" where
  "fs_Rename os rt o_st u src dst =
     (case os_Rename os o_st (fs_full rt u src) (fs_full rt u dst) of
        (o_st, e) \<Rightarrow> (o_st, pathError ''rename'' (src @ ''->'' @ dst) e))"

definition fs_SendFile :: "'o OS \<Rightarrow> string \<Rightarrow> 'o \<Rightarrow> User \<Rightarrow> string \<Rightarrow> int \<Rightarrow> 'o \<times> bytes \<times> string option" where
  "fs_SendFile os rt o_st u p offset =
     (case os_OpenFile os o_st (fs_full rt u p) O_RDONLY of
        (o_st, Inl e) \<Rightarrow> (o_st, [], Some (pathErr ''retr'' p e))
      | (o_st, Inr f) \<Rightarrow>
     (case (if offset > 0 then file_Seek os o_st f offset else (o_st, None)) of
        (o_st, Some e) \<Rightarrow> (fst (file_Close os o_st f), [], Some (os_text e))
      | (o_st, None) \<Rightarrow>
     (case file_Rest os o_st f of
        (o_st, d, e) \<Rightarrow> (fst (file_Close os o_st f), d, map_option os_text e))))"

definition fs_RecvFile :: "'o OS \<Rightarrow> string \<Rightarrow> 'o \<Rightarrow> User \<Rightarrow> string \<Rightarrow> bytes \<Rightarrow> 'o \<times> string option" where
  "fs_RecvFile os rt o_st u p d =
     (case os_OpenFile os o_st (fs_full rt u p) (O_RDWR OR O_CREATE OR O_TRUNC) of
        (o_st, Inl e) \<Rightarrow> (o_st, Some (pathErr ''stor'' p e))
      | (o_st, Inr f) \<Rightarrow>
     (case file_Write os o_st f d of
        (o_st, e) \<Rightarrow> (fst (file_Close os o_st f), map_option os_text e)))"

definition fs_AppendFile :: "'o OS \<Rightarrow> string \<Rightarrow> 'o \<Rightarrow> User \<Rightarrow> string \<Rightarrow> bytes \<Rightarrow> 'o \<times> string option" where
  "fs_AppendFile os rt o_st u p d =
     (case os_OpenFile os o_st (fs_full rt u p) (O_APPEND OR O_CREATE OR O_WRONLY) of
        (o_st, Inl e) \<Rightarrow> (o_st, Some (pathErr ''appe'' p e))
      | (o_st, Inr f) \<Rightarrow>
     (case file_Write os o_st f d of
        (o_st, e) \<Rightarrow> (fst (file_Close os o_st f), map_option os_text e)))"

definition osFilesystem :: "'o OS \<Rightarrow> string \<Rightarrow> 'o Filesystem" where
  "osFilesystem os rt =
     \<lparr>f_Resolve = fs_Resolve, f_Stat = fs_Stat os rt, f_List = fs_List os rt, f_Mkdir = fs_Mkdir os rt,
      f_Remove = fs_Remove os rt, f_Rename = fs_Rename os rt, f_SendFile = fs_SendFile os rt,
      f_RecvFile = fs_RecvFile os rt, f_AppendFile = fs_AppendFile os rt\<rparr>"

section \<open>Lemmas\<close>

text \<open>The output of the cleaning loop is the elements kept, each with a slash in front.\<close>

definition slashed :: "string list \<Rightarrow> string" where
  "slashed xs = concat (map (\<lambda>x. ''/'' @ x) xs)"

lemma slashed_snoc [simp]: "slashed (xs @ [x]) = slashed xs @ ''/'' @ x"
  by (simp add: slashed_def)

lemma slashed_Nil [simp]: "slashed [] = []" and slashed_Nil_iff [simp]: "slashed xs = [] \<longleftrightarrow> xs = []"
  by (auto simp: slashed_def)

lemma slashed_Join: "xs \<noteq> [] \<Longrightarrow> slashed xs = ''/'' @ Join xs ''/''"
proof (induction xs)
  case (Cons x xs)
  then show ?case by (cases xs) (auto simp: slashed_def)
qed simp

lemma LastIndexByte_slashed: "CHR ''/'' \<notin> set x \<Longrightarrow> LastIndexByte (slashed xs @ ''/'' @ x) CHR ''/'' = Some (length (slashed xs))"
proof -
  assume "CHR ''/'' \<notin> set x"
  then have "IndexByte (rev x @ CHR ''/'' # rev (slashed xs)) CHR ''/'' = Some (length x)"
    using IndexByte_append [of "CHR ''/''" "rev x"] by simp
  then show ?thesis by (simp add: LastIndexByte_def)
qed

lemma pathClean_loop:
  assumes "\<forall>x \<in> set st. CHR ''/'' \<notin> set x \<and> x \<noteq> ''..''" and "\<forall>c \<in> set cs. CHR ''/'' \<notin> set c"
  shows "foldl pathClean_step (slashed (rev st)) cs = slashed (clean_elems True st cs)"
  using assms
proof (induction cs arbitrary: st)
  case (Cons c cs)
  consider "c = [] \<or> c = ''.''" | "c = ''..''" "st = []" | x xs where "c = ''..''" "st = x # xs"
    | "c \<noteq> []" "c \<noteq> ''.''" "c \<noteq> ''..''" by (cases st) auto
  then show ?case
  proof cases
    case 2
    have "pathClean_step [] ''..'' = []" by (simp add: pathClean_step_def LastIndexByte_def)
    with 2 show ?thesis using Cons.IH [of "[]"] Cons.prems by simp
  next
    case 3
    then show ?thesis using Cons LastIndexByte_slashed [of x "rev xs"] by (simp add: pathClean_step_def)
  next
    case 4
    then show ?thesis using Cons.prems Cons.IH [of "c # st"] by (simp add: pathClean_step_def)
  qed (use Cons in \<open>auto simp: pathClean_step_def\<close>)
qed simp

lemma pathClean_elems:
  "pathClean p = ''/'' @ Join (clean_elems True [] (Split p CHR ''/'')) ''/''"
proof -
  have "foldl pathClean_step [] (Split p CHR ''/'') = slashed (clean_elems True [] (Split p CHR ''/''))"
    using pathClean_loop [of "[]" "Split p CHR ''/''"] Split_no_sep_in [of _ p "CHR ''/''"] by simp
  then show ?thesis by (simp add: pathClean_def Let_def slashed_Join)
qed

lemma clean_elems_set:
  "set (clean_elems True st cs) \<subseteq> set st \<union> {c \<in> set cs. c \<noteq> [] \<and> c \<noteq> ''.'' \<and> c \<noteq> ''..''}"
  by (induction "True" st cs rule: clean_elems.induct) (auto split: list.splits if_splits)

lemma pathClean_dotdot_free: "dotdot_free (pathClean p)"
proof -
  let ?es = "clean_elems True [] (Split p CHR ''/'')"
  have es: "\<forall>e \<in> set ?es. CHR ''/'' \<notin> set e \<and> e \<noteq> ''..''"
    using clean_elems_set [of "[]" "Split p CHR ''/''"] Split_no_sep_in [of _ p "CHR ''/''"] by auto
  have "Split (pathClean p) CHR ''/'' = [] # (if ?es = [] then [[]] else ?es)"
    using es Split_Join [of ?es "CHR ''/''"] by (simp add: pathClean_elems)
  then show ?thesis using es by (auto simp: dotdot_free_def)
qed

lemma dotdot_free_append: "dotdot_free (p @ ''/'' @ q) \<longleftrightarrow> dotdot_free p \<and> dotdot_free q"
  using Split_append [of p "CHR ''/''" q] by (simp add: dotdot_free_def)

lemma fs_full_below:
  assumes "abs_clean rt" and "dotdot_free (u_Home u)" and "dotdot_free p"
  shows "below rt (fs_full rt u p)"
proof (cases "u_Home u = []")
  case True
  then show ?thesis
    using path_Join_below [OF assms(1) dotdot_free_TrimPrefix [OF assms(3)]] by (simp add: fs_full_def)
next
  case False
  have "dotdot_free (u_Home u @ ''/'' @ TrimPrefix p ''/'')"
    unfolding dotdot_free_append using assms(2) dotdot_free_TrimPrefix [OF assms(3)] by blast
  from path_Clean_below [OF assms(1) this] show ?thesis
    using False abs_clean_not_Nil [OF assms(1)] by (simp add: fs_full_def path_Join_def)
qed

lemma fs_Resolve_clean:
  assumes "fs_Resolve u cwd arg = Inr p" and "dotdot_free cwd" and "HasPrefix cwd ''/''"
  shows "dotdot_free p \<and> HasPrefix p ''/''"
proof (cases "arg = []")
  case True
  then show ?thesis using assms by (simp add: fs_Resolve_def)
next
  case False
  have r: "HasPrefix (pathClean q) ''/''" for q by (simp add: pathClean_elems)
  from False have "p = pathClean (if \<not> HasPrefix arg ''/'' then cwd @ ''/'' @ arg else arg)"
    using assms(1) by (simp only: fs_Resolve_def Let_def if_False r not_True_eq_False sum.inject)
  then show ?thesis using pathClean_dotdot_free r by (simp only: simp_thms)
qed

section \<open>Properties\<close>

text \<open>C36: the path cleaning of the server is the lexical cleaning of the standard library on paths made
  absolute, for every input: empty elements, dots, and dot-dot elements that would climb above the root.\<close>

theorem ftp_pathClean_is_Clean: "pathClean p = path_Clean (''/'' @ p)"
  using path_Clean_rooted [of "''/'' @ p"] by (simp add: pathClean_elems)

text \<open>no argument of a client leads out of the served directory: a path resolved against a working
  directory that is itself below the root gives, for a home without dot-dot elements, a path of the
  operating system below the root, whatever the argument.\<close>

theorem ftp_fs_confined:
  assumes "abs_clean rt" and "dotdot_free (u_Home u)" and "dotdot_free cwd" and "HasPrefix cwd ''/''"
    and "fs_Resolve u cwd arg = Inr p"
  shows "below rt (fs_full rt u p) \<and> dotdot_free p \<and> HasPrefix p ''/''"
  using fs_Resolve_clean [OF assms(5,3,4)] fs_full_below [OF assms(1,2)] by blast

theorem ftp_fs_confined_witness:
  "fs_Resolve noUser ''/pub'' ''../../etc/passwd'' = Inr ''/etc/passwd'' \<and>
   below ''/srv'' (fs_full ''/srv'' noUser ''/etc/passwd'') \<and> dotdot_free ''/etc/passwd'' \<and> HasPrefix ''/etc/passwd'' ''/''"
proof (rule conjI)
  show r: "fs_Resolve noUser ''/pub'' ''../../etc/passwd'' = Inr ''/etc/passwd''" by code_simp
  show "below ''/srv'' (fs_full ''/srv'' noUser ''/etc/passwd'') \<and> dotdot_free ''/etc/passwd'' \<and> HasPrefix ''/etc/passwd'' ''/''"
    by (rule ftp_fs_confined [OF _ _ _ _ r]; code_simp)
qed

text \<open>the static authenticator accepts a login exactly when the name, up to case, was last registered with
  this password, and then returns the user as registered.\<close>

theorem ftp_static_auth:
  "Static_Authenticate (foldl (\<lambda>rows (n, p). Static_Add rows n p) NewStatic regs) user pass =
     (case find (\<lambda>(n, p). ToLower n = ToLower user) (rev regs) of
        None \<Rightarrow> Inl ''login incorrect''
      | Some (n, p) \<Rightarrow> if p \<noteq> pass then Inl ''login incorrect'' else Inr \<lparr>u_Name = n, u_Home = []\<rparr>)"
proof (induction regs rule: rev_induct)
  case Nil
  then show ?case by (simp add: Static_Authenticate_def NewStatic_def)
next
  case (snoc r regs)
  obtain n p where r: "r = (n, p)" by fastforce
  show ?case using snoc by (auto simp: r Static_Authenticate_def Static_Add_def)
qed

text \<open>the default authenticator, documented to accept any login, accepts exactly the user anonymous, in any
  case, with a password that is not empty.\<close>

theorem ftp_anonymous_auth:
  "(\<exists>u. Anonymous_Authenticate AllowAnonymous user pass = Inr u) \<longleftrightarrow>
     EqualFold user ''anonymous'' \<and> pass \<noteq> []"
  by (simp add: Anonymous_Authenticate_def AllowAnonymous_def)

end
