(* ===== verification/GoText.thy ===== *)
theory GoText
  imports Go_Prelude
begin

text \<open>
  Further parts of the Go standard library: the standard encoding of \<open>encoding/base64\<close> with its strict
  decoder, \<open>fmt.Sscan\<close> into an \<open>int\<close>, the verb \<open>%q\<close>, and \<open>strings.Contains\<close>. The decoder inverts the encoder.
\<close>

section \<open>Definitions\<close>

definition Contains :: "string \<Rightarrow> string \<Rightarrow> bool" where
  "Contains s t \<longleftrightarrow> list_ex (\<lambda>i. HasPrefix (drop i s) t) [0..<Suc (length s)]"

subsection \<open>Package encoding/base64\<close>

definition b64char :: "nat \<Rightarrow> char" where
  "b64char n =
     (if n < 26 then char_of (65 + n) else if n < 52 then char_of (71 + n)
      else if n < 62 then char_of (n - 4) else if n = 62 then CHR ''+'' else CHR ''/'')"

definition b64val :: "char \<Rightarrow> nat option" where
  "b64val c =
     (let n = (of_char c :: nat)
      in if 65 \<le> n \<and> n \<le> 90 then Some (n - 65) else if 97 \<le> n \<and> n \<le> 122 then Some (n - 71)
         else if 48 \<le> n \<and> n \<le> 57 then Some (n + 4)
         else if c = CHR ''+'' then Some 62 else if c = CHR ''/'' then Some 63 else None)"

fun b64_EncodeToString :: "string \<Rightarrow> string" where
  "b64_EncodeToString [] = []"
| "b64_EncodeToString [x] =
     (let n = of_char x * 16 in [b64char (n div 64), b64char (n mod 64), CHR ''='', CHR ''=''])"
| "b64_EncodeToString [x, y] =
     (let n = (of_char x * 256 + of_char y) * 4
      in [b64char (n div 4096), b64char (n div 64 mod 64), b64char (n mod 64), CHR ''=''])"
| "b64_EncodeToString (x # y # z # r) =
     (let n = of_char x * 65536 + of_char y * 256 + of_char z
      in [b64char (n div 262144), b64char (n div 4096 mod 64), b64char (n div 64 mod 64), b64char (n mod 64)] @
         b64_EncodeToString r)"

text \<open>One quantum of four characters; the strict decoder refuses bits behind the last byte.\<close>

definition b64_last1 :: "nat \<Rightarrow> nat \<Rightarrow> string option" where
  "b64_last1 a b = (let n = a * 64 + b in if n mod 16 = 0 then Some [char_of (n div 16)] else None)"

definition b64_last2 :: "nat \<Rightarrow> nat \<Rightarrow> nat \<Rightarrow> string option" where
  "b64_last2 a b c =
     (let n = a * 4096 + b * 64 + c
      in if n mod 4 = 0 then Some [char_of (n div 1024), char_of (n div 4 mod 256)] else None)"

definition b64_three :: "nat \<Rightarrow> nat \<Rightarrow> nat \<Rightarrow> nat \<Rightarrow> string" where
  "b64_three a b c d =
     (let n = a * 262144 + b * 4096 + c * 64 + d
      in [char_of (n div 65536), char_of (n div 256 mod 256), char_of (n mod 256)])"

fun b64_quanta :: "string \<Rightarrow> string option" where
  "b64_quanta [] = Some []"
| "b64_quanta (p # q # u # v # r) =
     (case (b64val p, b64val q) of
        (Some a, Some b) \<Rightarrow>
          if u = CHR ''='' \<and> v = CHR ''='' \<and> r = [] then b64_last1 a b
          else (case b64val u of
             None \<Rightarrow> None
           | Some c \<Rightarrow>
               if v = CHR ''='' \<and> r = [] then b64_last2 a b c
               else (case b64val v of
                  None \<Rightarrow> None
                | Some d \<Rightarrow> (case b64_quanta r of None \<Rightarrow> None | Some s \<Rightarrow> Some (b64_three a b c d @ s))))
      | _ \<Rightarrow> None)"
| "b64_quanta _ = None"

text \<open>\<open>StdEncoding.Strict().DecodeString\<close>: line breaks are skipped anywhere.\<close>

definition b64_DecodeStrict :: "string \<Rightarrow> string option" where
  "b64_DecodeStrict s = b64_quanta (filter (\<lambda>c. c \<noteq> CR \<and> c \<noteq> LF) s)"

subsection \<open>Package fmt: Sscan into an int\<close>

definition digitVal :: "char \<Rightarrow> nat option" where
  "digitVal c =
     (let n = (of_char c :: nat)
      in if 48 \<le> n \<and> n \<le> 57 then Some (n - 48) else if 97 \<le> n \<and> n \<le> 102 then Some (n - 87)
         else if 65 \<le> n \<and> n \<le> 70 then Some (n - 55) else None)"

text \<open>The digits of a base with underscores between them; the digit or prefix before the first
  character is \<open>prev\<close>.\<close>

fun parse_base :: "nat \<Rightarrow> bool \<Rightarrow> nat \<Rightarrow> string \<Rightarrow> nat option" where
  "parse_base base prev acc [] = (if prev then Some acc else None)"
| "parse_base base prev acc (c # cs) =
     (if c = CHR ''_'' then (if prev then parse_base base False acc cs else None)
      else case digitVal c of
             None \<Rightarrow> None
           | Some d \<Rightarrow> if d < base then parse_base base True (acc * base + d) cs else None)"

text \<open>The token of an integer after its sign: the base and the prefix, and the digits accepted.\<close>

definition scanBase :: "string \<Rightarrow> nat \<times> bool \<times> string" where
  "scanBase s =
     (case s of
        c # d # r \<Rightarrow>
          if c = CHR ''0'' then
            (if List.member ''bB'' d then (2, True, r) else if List.member ''oO'' d then (8, True, r)
             else if List.member ''xX'' d then (16, True, r) else (8, True, d # r))
          else (10, False, s)
      | [c] \<Rightarrow> if c = CHR ''0'' then (8, True, []) else (10, False, s)
      | [] \<Rightarrow> (10, False, s))"

definition digitOf :: "nat \<Rightarrow> char \<Rightarrow> bool" where
  "digitOf base c \<longleftrightarrow> c = CHR ''_'' \<or> (case digitVal c of None \<Rightarrow> False | Some d \<Rightarrow> d < base)"

text \<open>The value stored; \<open>None\<close> for an error, which leaves the variable alone. The prefix 0x needs
  digits behind it, a lone 0 is zero.\<close>

definition Sscan_int :: "string \<Rightarrow> int option" where
  "Sscan_int s =
     (let s = dropWhile isSpace s;
          neg = (s \<noteq> [] \<and> hd s = CHR ''-'');
          u = (if s \<noteq> [] \<and> List.member ''+-'' (hd s) then tl s else s);
          (base, pre, rest) = scanBase u;
          tok = takeWhile (digitOf base) rest
      in if tok = [] \<and> \<not> (pre \<and> length u - length rest = 1) then None
         else case parse_base base pre 0 tok of
                None \<Rightarrow> None
              | Some n \<Rightarrow> (let v = (if neg then - int n else int n) in if int64 v then Some v else None))"

text \<open>The verb \<open>%q\<close>: quotes, backslashes and control characters are escaped; bytes of longer UTF-8 sequences
  are printable and stay as they are.\<close>

definition hex_digit :: "nat \<Rightarrow> char" where
  "hex_digit d = (if d < 10 then char_of (48 + d) else char_of (87 + d))"

definition quote_char :: "char \<Rightarrow> string" where
  "quote_char c =
     (if c = CHR 0x22 then [CHR 0x5C, CHR 0x22]
      else if c = CHR 0x5C then [CHR 0x5C, CHR 0x5C]
      else if c = CHR 0x07 then CHR 0x5C # ''a''
      else if c = CHR 0x08 then CHR 0x5C # ''b''
      else if c = CHR 0x0C then CHR 0x5C # ''f''
      else if c = LF then CHR 0x5C # ''n''
      else if c = CR then CHR 0x5C # ''r''
      else if c = CHR 0x09 then CHR 0x5C # ''t''
      else if c = CHR 0x0B then CHR 0x5C # ''v''
      else if (of_char c :: nat) < 32 \<or> c = CHR 0x7F
           then CHR 0x5C # ''x'' @ [hex_digit (of_char c div 16), hex_digit (of_char c mod 16)]
      else [c])"

definition quote :: "string \<Rightarrow> string" where
  "quote s = CHR 0x22 # concat (map quote_char s) @ [CHR 0x22]"

section \<open>Library lemmas\<close>

text \<open>Code equations on integers, whose arithmetic evaluates in binary.\<close>

lemma b64_val_code [code]:
  "b64val c =
     (let n = (of_char c :: int)
      in if 65 \<le> n \<and> n \<le> 90 then Some (nat (n - 65)) else if 97 \<le> n \<and> n \<le> 122 then Some (nat (n - 71))
         else if 48 \<le> n \<and> n \<le> 57 then Some (nat (n + 4))
         else if c = CHR ''+'' then Some 62 else if c = CHR ''/'' then Some 63 else None)"
proof -
  have e: "(of_char c :: int) = int (of_char c)" by (rule of_nat_of_char [symmetric])
  show ?thesis unfolding b64val_def e by (auto simp: Let_def nat_diff_distrib' nat_add_distrib)
qed

lemma char_of_int: "char_of (int n) = char_of n"
  by (simp add: char_of_def bit_simps)

lemma int_divmod: "int n div numeral k = int (n div numeral k)" "int n mod numeral k = int (n mod numeral k)"
  by (simp_all add: zdiv_int zmod_int)

lemma b64_last1_code [code]:
  "b64_last1 a b = (let n = int a * 64 + int b in if n mod 16 = 0 then Some [char_of (n div 16)] else None)"
proof -
  have e: "int a * 64 + int b = int (a * 64 + b)" by simp
  show ?thesis by (simp only: b64_last1_def e Let_def int_divmod char_of_int of_nat_eq_0_iff)
qed

lemma b64_last2_code [code]:
  "b64_last2 a b c =
     (let n = int a * 4096 + int b * 64 + int c
      in if n mod 4 = 0 then Some [char_of (n div 1024), char_of (n div 4 mod 256)] else None)"
proof -
  have e: "int a * 4096 + int b * 64 + int c = int (a * 4096 + b * 64 + c)" by simp
  show ?thesis by (simp only: b64_last2_def e Let_def int_divmod char_of_int of_nat_eq_0_iff)
qed

lemma b64_three_code [code]:
  "b64_three a b c d =
     (let n = int a * 262144 + int b * 4096 + int c * 64 + int d
      in [char_of (n div 65536), char_of (n div 256 mod 256), char_of (n mod 256)])"
proof -
  have e: "int a * 262144 + int b * 4096 + int c * 64 + int d = int (a * 262144 + b * 4096 + c * 64 + d)" by simp
  show ?thesis by (simp only: b64_three_def e Let_def int_divmod char_of_int)
qed

lemma b64_index [simp]: "n < 64 \<Longrightarrow> b64val (b64char n) = Some n"
proof -
  assume "n < 64"
  then consider "n < 26" | "26 \<le> n" "n < 52" | "52 \<le> n" "n < 62" | "n = 62" | "n = 63" by linarith
  then show ?thesis
  proof cases
    case 4
    then show ?thesis by (simp add: b64val_def b64char_def)
  next
    case 5
    then show ?thesis by (simp add: b64val_def b64char_def)
  next
    case 3
    then obtain m where "n = 52 + m" by (metis le_Suc_ex)
    with 3 show ?thesis by (simp add: b64val_def b64char_def Let_def)
  qed (simp_all add: b64val_def b64char_def Let_def)
qed

lemma b64char_not_pad [simp]: "n < 64 \<Longrightarrow> b64char n \<noteq> CHR ''=''"
  using b64_index [of n] by (auto simp: b64val_def)

lemma b64val_bound: "b64val c = Some n \<Longrightarrow> n < 64 \<and> b64char n = c"
proof -
  assume v: "b64val c = Some n"
  have c: "char_of (of_char c :: nat) = c" by simp
  have "(of_char c :: nat) < 256" by simp
  with v c show ?thesis
    unfolding b64val_def b64char_def Let_def
    by (auto split: if_splits)
qed


lemma of_char_less [simp]: "(of_char (c :: char) :: nat) < 256"
  by simp

lemma base64_digits:
  fixes n :: nat
  shows "n div 64 mod 64 * 64 + n mod 64 + n div 4096 * 4096 = n"
    and "n div 262144 * 262144 + n div 4096 mod 64 * 4096 + n div 64 mod 64 * 64 + n mod 64 = n"
proof -
  have e: "n div 4096 = n div 64 div 64" "n div 262144 = n div 64 div 64 div 64" by (simp_all flip: div_mult2_eq)
  have d: "n = n div 64 * 64 + n mod 64" "n div 64 = n div 64 div 64 * 64 + n div 64 mod 64"
    "n div 64 div 64 = n div 64 div 64 div 64 * 64 + n div 64 div 64 mod 64" by (simp_all only: div_mult_mod_eq)
  show "n div 64 mod 64 * 64 + n mod 64 + n div 4096 * 4096 = n" unfolding e using d by linarith
  show "n div 262144 * 262144 + n div 4096 mod 64 * 4096 + n div 64 mod 64 * 64 + n mod 64 = n"
    unfolding e using d by linarith
qed

lemma base64_bytes:
  fixes x y z :: nat
  assumes "x < 256" "y < 256" "z < 256"
  defines "n \<equiv> x * 65536 + y * 256 + z"
  shows "n div 262144 < 64" "n div 65536 = x" "n div 256 mod 256 = y" "n mod 256 = z"
proof -
  have r: "y * 256 + z < 65536" using assms(2,3) by linarith
  show "n div 262144 < 64" using assms(1-3) unfolding n_def by (simp add: less_mult_imp_div_less)
  have "n = 65536 * x + (y * 256 + z)" by (simp add: n_def)
  then show "n div 65536 = x" using r by (simp add: div_mult_self3)
  have m: "n = 256 * (x * 256 + y) + z" by (simp add: n_def)
  then show "n mod 256 = z" using assms(3) by (simp only: mod_mult_self4 mod_less)
  have "n div 256 = x * 256 + y" using assms(3) m by (simp add: div_mult_self3)
  then show "n div 256 mod 256 = y" using assms(2) by simp
qed

lemma b64_three_digits:
  fixes x y z :: char
  defines "n \<equiv> (of_char x * 65536 + of_char y * 256 + of_char z :: nat)"
  shows "b64_three (n div 262144) (n div 4096 mod 64) (n div 64 mod 64) (n mod 64) = [x, y, z]"
  unfolding b64_three_def Let_def base64_digits(2) n_def
  by (simp only: base64_bytes [OF of_char_less of_char_less of_char_less] char_of_char)

lemma b64_Encode_cases:
  fixes x y z :: char
  defines "n1 \<equiv> of_char x * 16" and "n2 \<equiv> (of_char x * 256 + of_char y :: nat) * 4"
    and "n3 \<equiv> of_char x * 65536 + of_char y * 256 + of_char z"
  shows "n1 div 64 < 64" "n2 div 4096 < 64" "n3 div 262144 < 64"
    and "b64_last1 (n1 div 64) (n1 mod 64) = Some [x]"
    and "b64_last2 (n2 div 4096) (n2 div 64 mod 64) (n2 mod 64) = Some [x, y]"
    and "b64_three (n3 div 262144) (n3 div 4096 mod 64) (n3 div 64 mod 64) (n3 mod 64) = [x, y, z]"
proof -
  have b: "of_char x < (256::nat)" "of_char y < (256::nat)" by simp_all
  show "n1 div 64 < 64" using b unfolding n1_def by (intro less_mult_imp_div_less) linarith
  have "of_char x \<le> (255::nat)" "of_char y \<le> (255::nat)" using b by linarith+
  moreover have "i \<le> 255 \<Longrightarrow> j \<le> 255 \<Longrightarrow> (i * 256 + j) * 4 < 64 * (4096::nat)" for i j by simp
  ultimately have "n2 < 64 * 4096" unfolding n2_def by blast
  then show "n2 div 4096 < 64" by (rule less_mult_imp_div_less)
  show "n3 div 262144 < 64" unfolding n3_def by (rule base64_bytes(1)) simp_all
  have q1: "n1 mod 16 = 0" "n1 div 16 = of_char x" by (simp_all add: n1_def)
  show "b64_last1 (n1 div 64) (n1 mod 64) = Some [x]"
    unfolding b64_last1_def div_mult_mod_eq Let_def q1 by (simp only: char_of_char refl if_True)
  have n2: "n2 = 1024 * of_char x + 4 * of_char y" "n2 div 4 = 256 * of_char x + of_char y" by (simp_all add: n2_def)
  have q2: "n2 mod 4 = 0" by (simp add: n2_def)
  have q3: "n2 div 1024 = of_char x" unfolding n2(1) using b by (simp add: div_mult_self3)
  have q4: "n2 div 4 mod 256 = of_char y" using b unfolding n2(2) by (simp only: mod_mult_self4 mod_less)
  have q5: "n2 div 4096 * 4096 + n2 div 64 mod 64 * 64 + n2 mod 64 = n2" using base64_digits(1) [of n2] by linarith
  show "b64_last2 (n2 div 4096) (n2 div 64 mod 64) (n2 mod 64) = Some [x, y]"
    unfolding b64_last2_def q5 Let_def q2 q3 q4 by (simp only: char_of_char refl if_True)
  show "b64_three (n3 div 262144) (n3 div 4096 mod 64) (n3 div 64 mod 64) (n3 mod 64) = [x, y, z]"
    unfolding n3_def by (rule b64_three_digits)
qed

lemma mod_64 [simp]: "n mod 64 < (64::nat)"
  by simp

lemma b64_quanta_Encode [simp]: "b64_quanta (b64_EncodeToString s) = Some s"
proof (induction s rule: b64_EncodeToString.induct)
  case (2 x)
  show ?case unfolding b64_EncodeToString.simps Let_def
    by (simp only: b64_quanta.simps b64_index b64_Encode_cases(1,4) mod_64 option.case prod.case if_True simp_thms)
next
  case (3 x y)
  show ?case unfolding b64_EncodeToString.simps Let_def
    by (simp only: b64_quanta.simps b64_index b64_Encode_cases(2,5) mod_64 b64char_not_pad option.case prod.case if_True if_False simp_thms)
next
  case (4 x y z r)
  then show ?case unfolding b64_EncodeToString.simps Let_def append.simps
    by (simp only: b64_quanta.simps b64_index b64_Encode_cases(3,6) mod_64 b64char_not_pad option.case prod.case if_False simp_thms append.simps)
qed simp

lemma b64_alphabet: "set (b64_EncodeToString s) \<subseteq> insert (CHR ''='') (b64char ` {..<64})"
proof (induction s rule: b64_EncodeToString.induct)
  case (2 x)
  show ?case unfolding b64_EncodeToString.simps Let_def using b64_Encode_cases(1) [of x] mod_64 by auto
next
  case (3 x y)
  show ?case unfolding b64_EncodeToString.simps Let_def using b64_Encode_cases(2) [of x y] mod_64 by auto
next
  case (4 x y z r)
  then show ?case unfolding b64_EncodeToString.simps Let_def set_append
    using b64_Encode_cases(3) [of x y z] mod_64 by auto
qed simp

lemma b64_Decode_Encode [simp]: "b64_DecodeStrict (b64_EncodeToString s) = Some s"
proof -
  have "b64val CR = None" "b64val LF = None" by (simp_all add: b64val_def)
  then have "b64char n \<noteq> CR \<and> b64char n \<noteq> LF" if "n < 64" for n using b64_index [OF that] by fastforce
  then have a: "\<forall>c \<in> insert (CHR ''='') (b64char ` {..<64}). c \<noteq> CR \<and> c \<noteq> LF" by simp
  have "\<forall>c \<in> set (b64_EncodeToString s). c \<noteq> CR \<and> c \<noteq> LF" by (rule ballI) (rule bspec [OF a subsetD [OF b64_alphabet]])
  then have "filter (\<lambda>c. c \<noteq> CR \<and> c \<noteq> LF) (b64_EncodeToString s) = b64_EncodeToString s" by (simp add: filter_id_conv)
  then show ?thesis by (simp add: b64_DecodeStrict_def)
qed

end
