(* ===== verification/FtpSession.thy ===== *)
theory FtpSession
  imports FtpFs GoText
begin

text \<open>
  Package \<open>ftp/server\<close>: one session of the server, with one definition per command, the dispatcher and the
  loop over the control channel. The filesystem, the authenticator, the network and the formatting of
  times are fields of the configuration, over an environment \<open>'e\<close>. A data connection is the bytes its peer
  sends; what the server sends on data connections is the list of their contents. Writes to the control
  channel succeed.
\<close>

section \<open>Definitions\<close>

subsection \<open>Commands\<close>

definition CmdUSER :: string where "CmdUSER = ''USER''"
definition CmdPASS :: string where "CmdPASS = ''PASS''"
definition CmdACCT :: string where "CmdACCT = ''ACCT''"
definition CmdCWD :: string where "CmdCWD = ''CWD''"
definition CmdCDUP :: string where "CmdCDUP = ''CDUP''"
definition CmdQUIT :: string where "CmdQUIT = ''QUIT''"
definition CmdPORT :: string where "CmdPORT = ''PORT''"
definition CmdPASV :: string where "CmdPASV = ''PASV''"
definition CmdTYPE :: string where "CmdTYPE = ''TYPE''"
definition CmdRETR :: string where "CmdRETR = ''RETR''"
definition CmdSTOR :: string where "CmdSTOR = ''STOR''"
definition CmdAPPE :: string where "CmdAPPE = ''APPE''"
definition CmdREST :: string where "CmdREST = ''REST''"
definition CmdRNFR :: string where "CmdRNFR = ''RNFR''"
definition CmdRNTO :: string where "CmdRNTO = ''RNTO''"
definition CmdDELE :: string where "CmdDELE = ''DELE''"
definition CmdRMD :: string where "CmdRMD = ''RMD''"
definition CmdMKD :: string where "CmdMKD = ''MKD''"
definition CmdPWD :: string where "CmdPWD = ''PWD''"
definition CmdLIST :: string where "CmdLIST = ''LIST''"
definition CmdNLST :: string where "CmdNLST = ''NLST''"
definition CmdSYST :: string where "CmdSYST = ''SYST''"
definition CmdHELP :: string where "CmdHELP = ''HELP''"
definition CmdNOOP :: string where "CmdNOOP = ''NOOP''"
definition CmdFEAT :: string where "CmdFEAT = ''FEAT''"
definition CmdOPTS :: string where "CmdOPTS = ''OPTS''"
definition CmdAUTH :: string where "CmdAUTH = ''AUTH''"
definition CmdPBSZ :: string where "CmdPBSZ = ''PBSZ''"
definition CmdPROT :: string where "CmdPROT = ''PROT''"
definition CmdCCC :: string where "CmdCCC = ''CCC''"
definition CmdSIZE :: string where "CmdSIZE = ''SIZE''"
definition CmdMDTM :: string where "CmdMDTM = ''MDTM''"
definition CmdEPSV :: string where "CmdEPSV = ''EPSV''"
definition CmdEPRT :: string where "CmdEPRT = ''EPRT''"

lemmas ftp_cmd_defs = CmdUSER_def CmdPASS_def CmdACCT_def CmdCWD_def CmdCDUP_def CmdQUIT_def CmdPORT_def CmdPASV_def
  CmdTYPE_def CmdRETR_def CmdSTOR_def CmdAPPE_def CmdREST_def CmdRNFR_def CmdRNTO_def CmdDELE_def CmdRMD_def
  CmdMKD_def CmdPWD_def CmdLIST_def CmdNLST_def CmdSYST_def CmdHELP_def CmdNOOP_def CmdFEAT_def CmdOPTS_def
  CmdAUTH_def CmdPBSZ_def CmdPROT_def CmdCCC_def CmdSIZE_def CmdMDTM_def CmdEPSV_def CmdEPRT_def

subsection \<open>Package fmt\<close>

definition padRight :: "nat \<Rightarrow> string \<Rightarrow> string" where
  "padRight n s = s @ replicate (n - length s) CHR '' ''"

definition padLeft :: "nat \<Rightarrow> string \<Rightarrow> string" where
  "padLeft n s = replicate (n - length s) CHR '' '' @ s"

definition JoinHostPort :: "string \<Rightarrow> string \<Rightarrow> string" where
  "JoinHostPort host port =
     (if CHR '':'' \<in> set host \<or> CHR ''%'' \<in> set host then ''['' @ host @ '']:'' @ port else host @ '':'' @ port)"

subsection \<open>Configuration and state\<close>

record Listener =
  ln_id :: nat
  ln_host :: string
  ln_port :: string

record 'e FtpConfig =
  fc_Banner :: string
  fc_WelcomeMessage :: string
  fc_PortStart :: int
  fc_PortEnd :: int
  fc_Authenticator :: Authenticator
  fc_Filesystem :: "'e Filesystem"
  net_Listen :: "'e \<Rightarrow> int \<Rightarrow> 'e \<times> (string + Listener)"
  net_Accept :: "'e \<Rightarrow> Listener \<Rightarrow> 'e \<times> (string + bytes)"
  net_Dial :: "'e \<Rightarrow> string \<Rightarrow> 'e \<times> (string + bytes)"
  fmt_mdtm :: "int \<Rightarrow> string"
  fmt_list :: "int \<Rightarrow> string"

record passiveListener =
  pl_ln :: "Listener option"
  pl_remote :: string

record 'e session =
  s_user :: string
  s_auth :: User
  s_logged :: bool
  s_cwd :: string
  s_renameTo :: string
  s_rest :: int
  s_type :: string
  s_passive :: "passiveListener option"
  s_dataTLS :: bool
  s_env :: 'e

definition newSession :: "'e \<Rightarrow> 'e session" where
  "newSession e =
     \<lparr>s_user = [], s_auth = noUser, s_logged = False, s_cwd = ''/'', s_renameTo = [], s_rest = 0, s_type = ''A'',
      s_passive = None, s_dataTLS = False, s_env = e\<rparr>"

datatype session_error = ErrQuit | SErr string

text \<open>What a handler does: the new state, the replies written, the contents sent on data connections, and
  the error it returns.\<close>

type_synonym 'e handled = "'e session \<times> Reply list \<times> bytes list \<times> session_error option"

definition reply1 :: "'e session \<Rightarrow> Code \<Rightarrow> string \<Rightarrow> 'e handled" where
  "reply1 s code text = (s, [NewReply code text], [], None)"

definition greet :: "'e FtpConfig \<Rightarrow> Reply" where
  "greet cfg = NewReply CodeReady (fc_Banner cfg)"

subsection \<open>Login and navigation\<close>

definition handleUSER :: "'e session \<Rightarrow> string \<Rightarrow> 'e handled" where
  "handleUSER s arg =
     reply1 (s\<lparr>s_user := arg, s_auth := noUser, s_logged := False\<rparr>) CodeUserOK ''Password required''"

definition handlePASS :: "'e FtpConfig \<Rightarrow> 'e session \<Rightarrow> string \<Rightarrow> 'e handled" where
  "handlePASS cfg s arg =
     (if s_user s = [] then reply1 s CodeNotLoggedInReq ''Login with USER first''
      else case fc_Authenticator cfg (s_user s) arg of
             Inl e \<Rightarrow> reply1 s 530 e
           | Inr u \<Rightarrow>
               reply1 (s\<lparr>s_auth := u, s_logged := True, s_cwd := ''/''\<rparr>) CodeLoginOK
                 (if fc_WelcomeMessage cfg = [] then ''Login successful'' else fc_WelcomeMessage cfg))"

definition cwd2 :: "'e FtpConfig \<Rightarrow> 'e session \<Rightarrow> string \<Rightarrow> 'e handled" where
  "cwd2 cfg s arg =
     (case f_Resolve (fc_Filesystem cfg) (s_auth s) (s_cwd s) arg of
        Inl e \<Rightarrow> reply1 s CodeFileUnavailable e
      | Inr target \<Rightarrow>
     (case f_Stat (fc_Filesystem cfg) (s_env s) (s_auth s) target of
        Inl e \<Rightarrow> reply1 s CodeFileUnavailable e
      | Inr stat \<Rightarrow>
          if \<not> en_IsDir stat then reply1 s CodeFileUnavailable ''Not a directory''
          else reply1 (s\<lparr>s_cwd := target\<rparr>) CodeRequestedAction ''CWD successful''))"

definition type2 :: "'e session \<Rightarrow> string \<Rightarrow> 'e handled" where
  "type2 s arg =
     (let arg = ToUpper arg
      in if arg \<noteq> ''A'' \<and> arg \<noteq> ''I'' then reply1 s CodeSyntaxError ''Unsupported type''
         else reply1 (s\<lparr>s_type := arg\<rparr>) 200 (''Type set to '' @ arg))"

subsection \<open>Data connections\<close>

fun tryPorts :: "'e FtpConfig \<Rightarrow> 'e \<Rightarrow> int list \<Rightarrow> 'e \<times> (string + Listener)" where
  "tryPorts cfg e [] = (e, Inl ''no passive port available'')"
| "tryPorts cfg e (p # ps) =
     (case net_Listen cfg e p of (e, Inr ln) \<Rightarrow> (e, Inr ln) | (e, Inl _) \<Rightarrow> tryPorts cfg e ps)"

definition openPassive :: "'e FtpConfig \<Rightarrow> 'e \<Rightarrow> 'e \<times> (string + Listener)" where
  "openPassive cfg e =
     (if fc_PortEnd cfg > 0 then tryPorts cfg e [fc_PortStart cfg..fc_PortEnd cfg] else net_Listen cfg e 0)"

definition pasv :: "'e FtpConfig \<Rightarrow> 'e session \<Rightarrow> 'e handled" where
  "pasv cfg s =
     (case openPassive cfg (s_env s) of
        (e, Inl m) \<Rightarrow> reply1 (s\<lparr>s_env := e\<rparr>) CodeCantOpenData m
      | (e, Inr ln) \<Rightarrow>
          (s\<lparr>s_env := e, s_passive := Some \<lparr>pl_ln = Some ln, pl_remote = []\<rparr>\<rparr>,
           [pasvReply (ln_host ln) (ln_port ln)], [], None))"

definition epsv :: "'e FtpConfig \<Rightarrow> 'e session \<Rightarrow> 'e handled" where
  "epsv cfg s =
     (case openPassive cfg (s_env s) of
        (e, Inl m) \<Rightarrow> reply1 (s\<lparr>s_env := e\<rparr>) CodeCantOpenData m
      | (e, Inr ln) \<Rightarrow>
          (s\<lparr>s_env := e, s_passive := Some \<lparr>pl_ln = Some ln, pl_remote = []\<rparr>\<rparr>, [epsvReply (ln_port ln)], [], None))"

definition port :: "'e session \<Rightarrow> string \<Rightarrow> 'e handled" where
  "port s arg =
     (case parsePORT arg of
        Inl e \<Rightarrow> reply1 s CodeSyntaxError (err_text e)
      | Inr (host, p) \<Rightarrow>
          reply1 (s\<lparr>s_passive := Some \<lparr>pl_ln = None, pl_remote = JoinHostPort host (show_int p)\<rparr>\<rparr>)
            200 ''PORT command successful'')"

definition eprt :: "'e session \<Rightarrow> string \<Rightarrow> 'e handled" where
  "eprt s arg =
     (case parseEPRT arg of
        Inl e \<Rightarrow> reply1 s CodeSyntaxError (err_text e)
      | Inr (host, p) \<Rightarrow>
          reply1 (s\<lparr>s_passive := Some \<lparr>pl_ln = None, pl_remote = JoinHostPort host (show_int p)\<rparr>\<rparr>)
            200 ''EPRT command successful'')"

definition acceptData :: "'e FtpConfig \<Rightarrow> 'e session \<Rightarrow> 'e session \<times> (string + bytes)" where
  "acceptData cfg s =
     (case s_passive s of
        None \<Rightarrow> (s, Inl ''no data channel set up'')
      | Some p \<Rightarrow>
     (case pl_ln p of
        Some ln \<Rightarrow>
          (case net_Accept cfg (s_env s) ln of (e, r) \<Rightarrow> (s\<lparr>s_env := e, s_passive := None\<rparr>, r))
      | None \<Rightarrow>
          if pl_remote p \<noteq> [] then
            (case net_Dial cfg (s_env s) (pl_remote p) of (e, r) \<Rightarrow> (s\<lparr>s_env := e, s_passive := None\<rparr>, r))
          else (s, Inl ''no data channel'')))"

subsection \<open>Transfers\<close>

definition formatListEntry :: "'e FtpConfig \<Rightarrow> fs_Entry \<Rightarrow> string" where
  "formatListEntry cfg e =
     (if en_IsDir e then ''drwxr-xr-x'' else ''-rw-r--r--'') @ ''   1 '' @ padRight 8 (en_Owner e) @ '' '' @
     padRight 8 (en_Group e) @ '' '' @ padLeft 12 (show_int (en_Size e)) @ '' '' @ fmt_list cfg (en_ModTime e) @ '' '' @
     en_Name e"

abbreviation openingReply :: Reply where
  "openingReply \<equiv> NewReply CodeDataOpen ''Opening data connection''"

definition ftp_list :: "'e FtpConfig \<Rightarrow> 'e session \<Rightarrow> string \<Rightarrow> 'e handled" where
  "ftp_list cfg s arg =
     (case (if arg \<noteq> [] then f_Resolve (fc_Filesystem cfg) (s_auth s) (s_cwd s) arg else Inr (s_cwd s)) of
        Inl e \<Rightarrow> reply1 s CodeFileUnavailable e
      | Inr target \<Rightarrow>
     (case f_List (fc_Filesystem cfg) (s_env s) (s_auth s) target of
        (env, Inl e) \<Rightarrow> reply1 (s\<lparr>s_env := env\<rparr>) CodeFileUnavailable e
      | (env, Inr entries) \<Rightarrow>
     (case acceptData cfg (s\<lparr>s_env := env\<rparr>) of
        (s, Inl e) \<Rightarrow> reply1 s CodeCantOpenData e
      | (s, Inr _) \<Rightarrow>
          (s, [openingReply, NewReply CodeDataClose ''Transfer complete''],
           [bytes_of (concat (map (\<lambda>e. formatListEntry cfg e @ CRLF) entries))], None))))"

definition retr :: "'e FtpConfig \<Rightarrow> 'e session \<Rightarrow> string \<Rightarrow> 'e handled" where
  "retr cfg s arg =
     (case f_Resolve (fc_Filesystem cfg) (s_auth s) (s_cwd s) arg of
        Inl e \<Rightarrow> reply1 s CodeFileUnavailable e
      | Inr target \<Rightarrow>
     (case acceptData cfg s of
        (s, Inl e) \<Rightarrow> reply1 s CodeCantOpenData e
      | (s, Inr _) \<Rightarrow>
     (case f_SendFile (fc_Filesystem cfg) (s_env s) (s_auth s) target (s_rest s) of
        (env, d, Some e) \<Rightarrow> (s\<lparr>s_env := env\<rparr>, [openingReply, NewReply CodeConnClosed e], [d], None)
      | (env, d, None) \<Rightarrow>
          (s\<lparr>s_env := env\<rparr>, [openingReply, NewReply CodeDataClose ''Transfer complete''], [d], None))))"

text \<open>STOR and APPE differ in the method of the filesystem.\<close>

definition receive ::
  "('e \<Rightarrow> User \<Rightarrow> string \<Rightarrow> bytes \<Rightarrow> 'e \<times> string option) \<Rightarrow> 'e FtpConfig \<Rightarrow> 'e session \<Rightarrow> string \<Rightarrow> 'e handled" where
  "receive recv cfg s arg =
     (case f_Resolve (fc_Filesystem cfg) (s_auth s) (s_cwd s) arg of
        Inl e \<Rightarrow> reply1 s CodeFileUnavailable e
      | Inr target \<Rightarrow>
     (case acceptData cfg s of
        (s, Inl e) \<Rightarrow> reply1 s CodeCantOpenData e
      | (s, Inr d) \<Rightarrow>
     (case recv (s_env s) (s_auth s) target d of
        (env, Some e) \<Rightarrow> (s\<lparr>s_env := env\<rparr>, [openingReply, NewReply CodeStorageExceeded e], [], None)
      | (env, None) \<Rightarrow>
          (s\<lparr>s_env := env\<rparr>, [openingReply, NewReply CodeDataClose ''Transfer complete''], [], None))))"

definition stor :: "'e FtpConfig \<Rightarrow> 'e session \<Rightarrow> string \<Rightarrow> 'e handled" where
  "stor cfg s arg = receive (f_RecvFile (fc_Filesystem cfg)) cfg s arg"

definition appe :: "'e FtpConfig \<Rightarrow> 'e session \<Rightarrow> string \<Rightarrow> 'e handled" where
  "appe cfg s arg = receive (f_AppendFile (fc_Filesystem cfg)) cfg s arg"

subsection \<open>Files and directories\<close>

definition dele :: "'e FtpConfig \<Rightarrow> 'e session \<Rightarrow> string \<Rightarrow> 'e handled" where
  "dele cfg s arg =
     (case f_Resolve (fc_Filesystem cfg) (s_auth s) (s_cwd s) arg of
        Inl e \<Rightarrow> reply1 s CodeFileUnavailable e
      | Inr target \<Rightarrow>
     (case f_Remove (fc_Filesystem cfg) (s_env s) (s_auth s) target of
        (env, Some e) \<Rightarrow> reply1 (s\<lparr>s_env := env\<rparr>) CodeFileUnavailable e
      | (env, None) \<Rightarrow> reply1 (s\<lparr>s_env := env\<rparr>) 250 ''Deleted''))"

definition rmd :: "'e FtpConfig \<Rightarrow> 'e session \<Rightarrow> string \<Rightarrow> 'e handled" where
  "rmd cfg s arg =
     (case f_Resolve (fc_Filesystem cfg) (s_auth s) (s_cwd s) arg of
        Inl e \<Rightarrow> reply1 s CodeFileUnavailable e
      | Inr target \<Rightarrow>
     (case f_Remove (fc_Filesystem cfg) (s_env s) (s_auth s) target of
        (env, Some e) \<Rightarrow> reply1 (s\<lparr>s_env := env\<rparr>) CodeFileUnavailable e
      | (env, None) \<Rightarrow> reply1 (s\<lparr>s_env := env\<rparr>) 250 ''Removed''))"

definition mkd :: "'e FtpConfig \<Rightarrow> 'e session \<Rightarrow> string \<Rightarrow> 'e handled" where
  "mkd cfg s arg =
     (case f_Resolve (fc_Filesystem cfg) (s_auth s) (s_cwd s) arg of
        Inl e \<Rightarrow> reply1 s CodeFileUnavailable e
      | Inr target \<Rightarrow>
     (case f_Mkdir (fc_Filesystem cfg) (s_env s) (s_auth s) target of
        (env, Some e) \<Rightarrow> reply1 (s\<lparr>s_env := env\<rparr>) CodeFileUnavailable e
      | (env, None) \<Rightarrow> reply1 (s\<lparr>s_env := env\<rparr>) CodePathCreated (quote target @ '' created'')))"

definition rnfr :: "'e FtpConfig \<Rightarrow> 'e session \<Rightarrow> string \<Rightarrow> 'e handled" where
  "rnfr cfg s arg =
     (case f_Resolve (fc_Filesystem cfg) (s_auth s) (s_cwd s) arg of
        Inl e \<Rightarrow> reply1 s CodeFileUnavailable e
      | Inr target \<Rightarrow> reply1 (s\<lparr>s_renameTo := target\<rparr>) 350 ''RNFR accepted'')"

definition rnto :: "'e FtpConfig \<Rightarrow> 'e session \<Rightarrow> string \<Rightarrow> 'e handled" where
  "rnto cfg s arg =
     (if s_renameTo s = [] then reply1 s CodeSyntaxError ''Bad sequence''
      else case f_Resolve (fc_Filesystem cfg) (s_auth s) (s_cwd s) arg of
             Inl e \<Rightarrow> reply1 s CodeFileUnavailable e
           | Inr target \<Rightarrow>
     (case f_Rename (fc_Filesystem cfg) (s_env s) (s_auth s) (s_renameTo s) target of
        (env, Some e) \<Rightarrow> reply1 (s\<lparr>s_env := env\<rparr>) CodeFileUnavailable e
      | (env, None) \<Rightarrow> reply1 (s\<lparr>s_env := env, s_renameTo := []\<rparr>) 250 ''Rename ok''))"

definition rest2 :: "'e session \<Rightarrow> string \<Rightarrow> 'e handled" where
  "rest2 s arg =
     (case ParseInt64 (TrimSpace arg) of
        None \<Rightarrow> reply1 s CodeSyntaxError ''Bad REST''
      | Some off \<Rightarrow> reply1 (s\<lparr>s_rest := off\<rparr>) 350 ''Restart ok'')"

definition ftp_size :: "'e FtpConfig \<Rightarrow> 'e session \<Rightarrow> string \<Rightarrow> 'e handled" where
  "ftp_size cfg s arg =
     (case f_Resolve (fc_Filesystem cfg) (s_auth s) (s_cwd s) arg of
        Inl e \<Rightarrow> reply1 s CodeFileUnavailable e
      | Inr target \<Rightarrow>
     (case f_Stat (fc_Filesystem cfg) (s_env s) (s_auth s) target of
        Inl e \<Rightarrow> reply1 s CodeFileUnavailable e
      | Inr st \<Rightarrow> reply1 s CodeFileStatus (show_int (en_Size st))))"

definition mdtm :: "'e FtpConfig \<Rightarrow> 'e session \<Rightarrow> string \<Rightarrow> 'e handled" where
  "mdtm cfg s arg =
     (case f_Resolve (fc_Filesystem cfg) (s_auth s) (s_cwd s) arg of
        Inl e \<Rightarrow> reply1 s CodeFileUnavailable e
      | Inr target \<Rightarrow>
     (case f_Stat (fc_Filesystem cfg) (s_env s) (s_auth s) target of
        Inl e \<Rightarrow> reply1 s CodeFileUnavailable e
      | Inr st \<Rightarrow> reply1 s CodeFileStatus (fmt_mdtm cfg (en_ModTime st))))"

definition auth2 :: "'e session \<Rightarrow> string \<Rightarrow> 'e handled" where
  "auth2 s arg = reply1 s CodeCommandNotImpl ''AUTH not supported on this server''"

definition prot :: "'e session \<Rightarrow> string \<Rightarrow> 'e handled" where
  "prot s arg =
     (if ToUpper arg = ''C'' then reply1 (s\<lparr>s_dataTLS := False\<rparr>) 200 (''PROT '' @ ToUpper arg)
      else if ToUpper arg = ''P'' then reply1 (s\<lparr>s_dataTLS := True\<rparr>) 200 (''PROT '' @ ToUpper arg)
      else reply1 s CodeSyntaxError ''Bad PROT'')"

subsection \<open>The dispatcher and the loop\<close>

definition openCommands :: "string list" where
  "openCommands = [CmdUSER, CmdPASS, CmdQUIT, CmdAUTH, CmdFEAT, CmdNOOP, CmdHELP, CmdSYST, CmdPBSZ, CmdPROT, CmdCCC]"

text \<open>The switch of \<open>dispatch\<close>.\<close>

definition perform :: "'e FtpConfig \<Rightarrow> 'e session \<Rightarrow> Command \<Rightarrow> 'e handled" where
  "perform cfg s c =
     (let n = cmd_Name c; arg = cmd_Arg c
      in if n = CmdUSER then handleUSER s arg
         else if n = CmdPASS then handlePASS cfg s arg
         else if n = CmdQUIT then (s, [NewReply CodeGoodbye ''Goodbye''], [], Some ErrQuit)
         else if n = CmdNOOP then reply1 s CodeOK ''NOOP ok''
         else if n = CmdSYST then reply1 s 215 ''UNIX Type: L8''
         else if n = CmdFEAT then (s, [NewMultiLine 211 [''End'']], [], None)
         else if n = CmdHELP then reply1 s 214 ''Help me help you''
         else if n = CmdPWD then reply1 s CodePathCreated (quote (s_cwd s))
         else if n = CmdCWD then cwd2 cfg s arg
         else if n = CmdCDUP then cwd2 cfg s ''..''
         else if n = CmdTYPE then type2 s arg
         else if n = CmdPASV then pasv cfg s
         else if n = CmdEPSV then epsv cfg s
         else if n = CmdPORT then port s arg
         else if n = CmdEPRT then eprt s arg
         else if n = CmdLIST then ftp_list cfg s arg
         else if n = CmdNLST then ftp_list cfg s arg
         else if n = CmdRETR then retr cfg s arg
         else if n = CmdSTOR then stor cfg s arg
         else if n = CmdAPPE then appe cfg s arg
         else if n = CmdDELE then dele cfg s arg
         else if n = CmdRMD then rmd cfg s arg
         else if n = CmdMKD then mkd cfg s arg
         else if n = CmdRNFR then rnfr cfg s arg
         else if n = CmdRNTO then rnto cfg s arg
         else if n = CmdREST then rest2 s arg
         else if n = CmdSIZE then ftp_size cfg s arg
         else if n = CmdMDTM then mdtm cfg s arg
         else if n = CmdAUTH then auth2 s arg
         else if n = CmdPBSZ then reply1 s 200 ''PBSZ set to 0''
         else if n = CmdPROT then prot s arg
         else reply1 s CodeCommandNotImpl ''Not implemented'')"

definition dispatch :: "'e FtpConfig \<Rightarrow> 'e session \<Rightarrow> Command \<Rightarrow> 'e handled" where
  "dispatch cfg s c =
     (if \<not> s_logged s \<and> cmd_Name c \<notin> set openCommands then (s, [], [], Some (SErr ''please log in''))
      else perform cfg s c)"

text \<open>One round of \<open>serve\<close> on a line; the flag says that the session is over.\<close>

definition serveLine :: "'e FtpConfig \<Rightarrow> 'e session \<Rightarrow> string \<Rightarrow> 'e session \<times> Reply list \<times> bytes list \<times> bool" where
  "serveLine cfg s line =
     (case ftp_Parse line of
        Inl _ \<Rightarrow> (s, [NewReply CodeSyntaxError ''Syntax error''], [], False)
      | Inr cmd \<Rightarrow>
     (case dispatch cfg s cmd of
        (s, rs, ds, None) \<Rightarrow> (s, rs, ds, False)
      | (s, rs, ds, Some ErrQuit) \<Rightarrow> (s, rs, ds, True)
      | (s, rs, ds, Some (SErr m)) \<Rightarrow> (s, rs @ [NewReply CodeNotLoggedInReq m], ds, False)))"

function serve :: "'e FtpConfig \<Rightarrow> 'e session \<Rightarrow> string \<Rightarrow> 'e session \<times> Reply list \<times> bytes list" where
  "serve cfg s r =
     (case ReadString LF r of
        Inl _ \<Rightarrow> (s, [], [])
      | Inr (line, r) \<Rightarrow>
     (case serveLine cfg s line of
        (s, rs, ds, True) \<Rightarrow> (s, rs, ds)
      | (s, rs, ds, False) \<Rightarrow> (case serve cfg s r of (s, rs', ds') \<Rightarrow> (s, rs @ rs', ds @ ds'))))"
  by pat_completeness auto
termination
  by (relation "measure (\<lambda>(cfg, s, r). length r)") (auto dest: ReadString_shrinks)

declare serve.simps [simp del]

definition handleConn :: "'e FtpConfig \<Rightarrow> 'e \<Rightarrow> string \<Rightarrow> 'e session \<times> Reply list \<times> bytes list" where
  "handleConn cfg e r =
     (case serve cfg (newSession e) r of (s, rs, ds) \<Rightarrow> (s, greet cfg # rs, ds))"

section \<open>Lemmas\<close>

subsection \<open>Replies\<close>

text \<open>The replies to a command: one final reply, after the announcement of a data connection at most.\<close>

definition final_reply :: "Reply \<Rightarrow> bool" where
  "final_reply r \<longleftrightarrow> 200 \<le> rp_Code r \<and> rp_Code r < 600"

definition well_replied :: "Reply list \<Rightarrow> bool" where
  "well_replied rs \<longleftrightarrow> (\<exists>r. final_reply r \<and> (rs = [r] \<or> rs = [openingReply, r]))"

text \<open>A command other than those of the login leaves the login alone.\<close>

definition keeps_login :: "'e session \<Rightarrow> 'e session \<Rightarrow> bool" where
  "keeps_login s s' \<longleftrightarrow> s_user s' = s_user s \<and> s_auth s' = s_auth s \<and> s_logged s' = s_logged s"

definition plain :: "'e session \<Rightarrow> 'e handled \<Rightarrow> bool" where
  "plain s out \<longleftrightarrow>
     (case out of (s', rs, ds, err) \<Rightarrow> keeps_login s s' \<and> well_replied rs \<and> err = None)"

lemma plain_reply1 [simp]:
  "plain s (reply1 s' code text) \<longleftrightarrow> keeps_login s s' \<and> 200 \<le> code \<and> code < 600"
  by (auto simp: plain_def reply1_def well_replied_def final_reply_def NewReply_def)

lemma plain_single [simp]:
  "plain s (s', [r], ds, None) \<longleftrightarrow> keeps_login s s' \<and> final_reply r"
  by (auto simp: plain_def well_replied_def)

lemma plain_transfer [simp]:
  "plain s (s', [openingReply, NewReply code text], ds, None) \<longleftrightarrow> keeps_login s s' \<and> 200 \<le> code \<and> code < 600"
  by (auto simp: plain_def well_replied_def final_reply_def NewReply_def)

lemma keeps_login_refl [simp]: "keeps_login s s"
  by (simp add: keeps_login_def)

lemma keeps_login_update [simp]:
  "keeps_login s (s\<lparr>s_env := e\<rparr>)" "keeps_login s (s\<lparr>s_cwd := d\<rparr>)" "keeps_login s (s\<lparr>s_renameTo := d\<rparr>)"
  "keeps_login s (s\<lparr>s_rest := n\<rparr>)" "keeps_login s (s\<lparr>s_type := t\<rparr>)" "keeps_login s (s\<lparr>s_passive := p\<rparr>)"
  "keeps_login s (s\<lparr>s_dataTLS := b\<rparr>)" "keeps_login s (s\<lparr>s_env := e, s_renameTo := d\<rparr>)"
  "keeps_login s (s\<lparr>s_env := e, s_passive := p\<rparr>)"
  by (simp_all add: keeps_login_def)

lemma acceptData_keeps: "acceptData cfg s = (s', r) \<Longrightarrow> keeps_login s s'"
  by (auto simp: acceptData_def keeps_login_def split: option.splits if_splits prod.splits)

lemma keeps_login_env: "keeps_login s s' \<Longrightarrow> keeps_login s (s'\<lparr>s_env := e\<rparr>)"
  by (simp add: keeps_login_def)

lemma keeps_login_env_first: "keeps_login (s\<lparr>s_env := e\<rparr>) s' \<Longrightarrow> keeps_login s s'"
  by (simp add: keeps_login_def)

lemma plain_handlers [simp]:
  "plain s (type2 s arg)" "plain s (port s arg)" "plain s (eprt s arg)" "plain s (rest2 s arg)" "plain s (auth2 s arg)"
  "plain s (prot s arg)"
  by (auto simp: type2_def port_def eprt_def rest2_def auth2_def prot_def ftp_code_defs Let_def
      split: sum.splits option.splits)

lemma plain_cfg_handlers [simp]:
  "plain s (cwd2 cfg s arg)" "plain s (dele cfg s arg)" "plain s (rmd cfg s arg)" "plain s (mkd cfg s arg)"
  "plain s (rnfr cfg s arg)" "plain s (rnto cfg s arg)" "plain s (ftp_size cfg s arg)" "plain s (mdtm cfg s arg)"
  by (auto simp: cwd2_def dele_def rmd_def mkd_def rnfr_def rnto_def ftp_size_def mdtm_def ftp_code_defs
      split: sum.splits option.splits prod.splits)

lemma plain_passive [simp]: "plain s (pasv cfg s)" "plain s (epsv cfg s)"
  by (auto simp: pasv_def epsv_def ftp_code_defs final_reply_def pasvReply_def epsvReply_def NewReply_def
      split: sum.splits prod.splits)

lemma plain_transfers [simp]:
  "plain s (ftp_list cfg s arg)" "plain s (retr cfg s arg)" "plain s (receive recv cfg s arg)"
  by (auto simp: ftp_list_def retr_def receive_def CodeFileUnavailable_def
      CodeCantOpenData_def CodeConnClosed_def CodeDataClose_def CodeStorageExceeded_def
      dest: acceptData_keeps intro: keeps_login_env keeps_login_env_first
      split: sum.splits option.splits prod.splits)

lemma plain_stor_appe [simp]: "plain s (stor cfg s arg)" "plain s (appe cfg s arg)"
  by (simp_all add: stor_def appe_def)

lemma plain_perform:
  "cmd_Name c \<notin> {CmdUSER, CmdPASS, CmdQUIT} \<Longrightarrow> plain s (perform cfg s c)"
  by (simp add: perform_def Let_def final_reply_def NewMultiLine_def CodeOK_def CodePathCreated_def
      CodeCommandNotImpl_def)

lemma perform_login:
  "cmd_Name c = CmdUSER \<Longrightarrow> perform cfg s c = handleUSER s (cmd_Arg c)"
  "cmd_Name c = CmdPASS \<Longrightarrow> perform cfg s c = handlePASS cfg s (cmd_Arg c)"
  "cmd_Name c = CmdQUIT \<Longrightarrow> perform cfg s c = (s, [NewReply CodeGoodbye ''Goodbye''], [], Some ErrQuit)"
  by (simp_all add: perform_def Let_def ftp_cmd_defs)

lemma perform_error:
  assumes "perform cfg s c = (s', rs, ds, err)"
  shows "err = None \<or> err = Some ErrQuit"
proof (cases "cmd_Name c \<in> {CmdUSER, CmdPASS, CmdQUIT}")
  case True
  then show ?thesis using assms perform_login [of c cfg s]
    by (auto simp: handleUSER_def handlePASS_def reply1_def split: if_splits sum.splits)
next
  case False
  then show ?thesis using assms plain_perform [OF False, of s cfg] by (simp add: plain_def)
qed

text \<open>A round of the loop is the syntax error, the refusal before the login, or the command itself.\<close>

lemma serveLine_cases [consumes 1, case_names Syntax Refused Done]:
  assumes "serveLine cfg s line = (s', rs, ds, fin)"
  obtains "s' = s" "rs = [NewReply CodeSyntaxError ''Syntax error'']" "ds = []" "\<not> fin"
  | c :: Command where "\<not> s_logged s" "cmd_Name c \<notin> set openCommands" "s' = s"
      "rs = [NewReply CodeNotLoggedInReq ''please log in'']" "ds = []" "\<not> fin"
  | c :: Command and err where "s_logged s \<or> cmd_Name c \<in> set openCommands" "perform cfg s c = (s', rs, ds, err)"
      "err = (if fin then Some ErrQuit else None)"
proof (cases "ftp_Parse line")
  case (Inl e)
  then have "serveLine cfg s line = (s, [NewReply CodeSyntaxError ''Syntax error''], [], False)"
    by (simp add: serveLine_def)
  then show ?thesis using assms by (intro that(1)) simp_all
next
  case (Inr c)
  show ?thesis
  proof (cases "\<not> s_logged s \<and> cmd_Name c \<notin> set openCommands")
    case True
    then have "serveLine cfg s line = (s, [NewReply CodeNotLoggedInReq ''please log in''], [], False)"
      using Inr by (simp add: serveLine_def dispatch_def)
    then show ?thesis using assms True by (intro that(2) [of c]) simp_all
  next
    case False
    obtain s1 rs1 ds1 err where p: "perform cfg s c = (s1, rs1, ds1, err)" by (metis prod_cases4)
    have "dispatch cfg s c = (s1, rs1, ds1, err)" unfolding dispatch_def using False p by (simp only: if_False)
    moreover have e: "err = None \<or> err = Some ErrQuit" using perform_error [OF p] .
    ultimately have l: "serveLine cfg s line = (s1, rs1, ds1, err \<noteq> None)"
      using Inr by (auto simp: serveLine_def)
    show ?thesis
      by (rule that(3) [of c err]) (use assms p e l False in auto)
  qed
qed

lemma serveLine_well_replied:
  assumes "serveLine cfg s line = (s', rs, ds, fin)"
  shows "well_replied rs"
  using assms
proof (cases rule: serveLine_cases)
  case (Done c err)
  then show ?thesis
    using plain_perform [of c s cfg] perform_login [of c cfg s]
    by (cases "cmd_Name c \<in> {CmdUSER, CmdPASS, CmdQUIT}")
      (auto simp: plain_def handleUSER_def handlePASS_def reply1_def well_replied_def final_reply_def NewReply_def
        ftp_code_defs split: if_splits sum.splits)
qed (auto simp: well_replied_def final_reply_def NewReply_def ftp_code_defs)

subsection \<open>The login\<close>

text \<open>A session is a machine that reads lines and writes replies and data.\<close>

interpretation ftp_sys: state_machine "\<lambda>s. s = newSession e"
    "\<lambda>s line out s'. \<exists>fin. serveLine cfg s line = (s', fst out, snd out, fin)" for cfg e .

definition authentic :: "'e FtpConfig \<Rightarrow> 'e session \<Rightarrow> bool" where
  "authentic cfg s \<longleftrightarrow>
     (s_logged s \<longrightarrow> s_user s \<noteq> [] \<and> (\<exists>pass. fc_Authenticator cfg (s_user s) pass = Inr (s_auth s)))"

lemma authentic_keeps: "authentic cfg s \<Longrightarrow> keeps_login s s' \<Longrightarrow> authentic cfg s'"
  by (simp add: authentic_def keeps_login_def)

lemma authentic_step:
  assumes "serveLine cfg s line = (s', rs, ds, fin)" and "authentic cfg s"
  shows "authentic cfg s'"
  using assms(1)
proof (cases rule: serveLine_cases)
  case (Done c err)
  show ?thesis
  proof (cases "cmd_Name c \<in> {CmdUSER, CmdPASS, CmdQUIT}")
    case True
    then show ?thesis using Done(2) assms(2) perform_login [of c cfg s]
      by (auto simp: handleUSER_def handlePASS_def reply1_def authentic_def split: if_splits sum.splits)
  next
    case False
    then show ?thesis using Done(2) plain_perform [OF False, of s cfg] authentic_keeps [OF assms(2)]
      by (auto simp: plain_def)
  qed
qed (use assms(2) in simp_all)

text \<open>Before the login only the commands of \<open>openCommands\<close> run, and they leave the environment alone.\<close>

lemma perform_open:
  assumes "cmd_Name c \<in> set openCommands" and "perform cfg s c = (s', rs, ds, err)"
  shows "s_env s' = s_env s \<and> ds = [] \<and> (s_logged s' \<longrightarrow> s_logged s \<or> (\<exists>r \<in> set rs. rp_Code r = CodeLoginOK))"
  using assms
  by (auto simp: openCommands_def perform_def Let_def ftp_cmd_defs handleUSER_def handlePASS_def reply1_def auth2_def
      prot_def NewReply_def split: if_splits sum.splits)

lemma serveLine_before_login:
  assumes "serveLine cfg s line = (s', rs, ds, fin)" and "\<not> s_logged s"
    and "\<forall>r \<in> set rs. rp_Code r \<noteq> CodeLoginOK"
  shows "s_env s' = s_env s \<and> ds = [] \<and> \<not> s_logged s'"
  using assms(1)
proof (cases rule: serveLine_cases)
  case (Done c err)
  then show ?thesis using perform_open [of c cfg s] assms(2,3) by blast
qed (use assms(2) in simp_all)

subsection \<open>Confinement\<close>

text \<open>An operating system that refuses every path outside a directory.\<close>

definition confine :: "string \<Rightarrow> 'o OS \<Rightarrow> 'o OS" where
  "confine rt os =
     os\<lparr>os_Stat := \<lambda>o_st p. if below rt p then os_Stat os o_st p else Inl (ErrOther ''outside''),
        os_Lstat := \<lambda>o_st p. if below rt p then os_Lstat os o_st p else Inl (ErrOther ''outside''),
        os_OpenFile := \<lambda>o_st p fl. if below rt p then os_OpenFile os o_st p fl else (o_st, Inl (ErrOther ''outside'')),
        os_ReadDir := \<lambda>o_st p. if below rt p then os_ReadDir os o_st p else Inl (ErrOther ''outside''),
        os_MkdirAll := \<lambda>o_st p. if below rt p then os_MkdirAll os o_st p else (o_st, Some (ErrOther ''outside'')),
        os_Remove := \<lambda>o_st p. if below rt p then os_Remove os o_st p else (o_st, Some (ErrOther ''outside'')),
        os_RemoveAll := \<lambda>o_st p. if below rt p then os_RemoveAll os o_st p else (o_st, Some (ErrOther ''outside'')),
        os_Rename := \<lambda>o_st p q. if below rt p \<and> below rt q then os_Rename os o_st p q
                                  else (o_st, Some (ErrOther ''outside''))\<rparr>"

definition onOS :: "'e FtpConfig \<Rightarrow> string \<Rightarrow> 'e OS \<Rightarrow> 'e FtpConfig" where
  "onOS cfg rt os = cfg\<lparr>fc_Filesystem := osFilesystem os rt\<rparr>"

text \<open>Working directory, rename source and home have no dot-dot elements.\<close>

definition tidy :: "'e session \<Rightarrow> bool" where
  "tidy s \<longleftrightarrow> dotdot_free (s_cwd s) \<and> HasPrefix (s_cwd s) ''/'' \<and> (s_renameTo s = [] \<or> dotdot_free (s_renameTo s)) \<and>
     dotdot_free (u_Home (s_auth s))"

lemma tidy_Resolve: "tidy s \<Longrightarrow> fs_Resolve u (s_cwd s) arg = Inr p \<Longrightarrow> dotdot_free p \<and> HasPrefix p ''/''"
  using fs_Resolve_clean unfolding tidy_def by blast

lemma tidy_env [simp]: "tidy (s\<lparr>s_env := e\<rparr>) = tidy s" "tidy (s\<lparr>s_env := e, s_passive := p\<rparr>) = tidy s"
  by (simp_all add: tidy_def)

lemma tidy_acceptData: "acceptData cfg s = (s', r) \<Longrightarrow> tidy s' = tidy s \<and> s_auth s' = s_auth s"
  by (auto simp: acceptData_def tidy_def split: option.splits if_splits prod.splits)

lemma net_onOS:
  "net_Listen (onOS cfg rt os) = net_Listen cfg" "net_Accept (onOS cfg rt os) = net_Accept cfg"
  "net_Dial (onOS cfg rt os) = net_Dial cfg"
  by (simp_all add: onOS_def)

lemma acceptData_onOS [simp]: "acceptData (onOS cfg rt os) s = acceptData cfg s"
  unfolding acceptData_def net_onOS ..

lemma file_confine:
  "file_Seek (confine rt os) = file_Seek os" "file_Read (confine rt os) = file_Read os"
  "file_Write (confine rt os) = file_Write os" "file_Close (confine rt os) = file_Close os"
  "file_Readdir (confine rt os) = file_Readdir os" "file_Rest (confine rt os) = file_Rest os"
  by (simp_all add: confine_def)

lemma os_confine:
  "below rt p \<Longrightarrow> os_Stat (confine rt os) o_st p = os_Stat os o_st p"
  "below rt p \<Longrightarrow> os_OpenFile (confine rt os) o_st p fl = os_OpenFile os o_st p fl"
  "below rt p \<Longrightarrow> os_MkdirAll (confine rt os) o_st p = os_MkdirAll os o_st p"
  "below rt p \<Longrightarrow> os_RemoveAll (confine rt os) o_st p = os_RemoveAll os o_st p"
  "below rt p \<Longrightarrow> below rt q \<Longrightarrow> os_Rename (confine rt os) o_st p q = os_Rename os o_st p q"
  by (simp_all add: confine_def)

text \<open>On tidy paths the filesystem does not notice the confinement.\<close>

lemma fs_confine:
  assumes "abs_clean rt" and "dotdot_free (u_Home u)" and "dotdot_free p"
  shows "fs_Stat (confine rt os) rt o_st u p = fs_Stat os rt o_st u p"
    and "fs_List (confine rt os) rt o_st u p = fs_List os rt o_st u p"
    and "fs_Mkdir (confine rt os) rt o_st u p = fs_Mkdir os rt o_st u p"
    and "fs_Remove (confine rt os) rt o_st u p = fs_Remove os rt o_st u p"
    and "dotdot_free q \<Longrightarrow> fs_Rename (confine rt os) rt o_st u p q = fs_Rename os rt o_st u p q"
    and "fs_SendFile (confine rt os) rt o_st u p off = fs_SendFile os rt o_st u p off"
    and "fs_RecvFile (confine rt os) rt o_st u p d = fs_RecvFile os rt o_st u p d"
    and "fs_AppendFile (confine rt os) rt o_st u p d = fs_AppendFile os rt o_st u p d"
  using fs_full_below [OF assms] fs_full_below [OF assms(1,2), of q]
  unfolding fs_Stat_def fs_List_def fs_Mkdir_def fs_Remove_def fs_Rename_def fs_SendFile_def
      fs_RecvFile_def fs_AppendFile_def file_confine
  by (simp_all add: os_confine)

lemma onOS_Filesystem [simp]:
  "f_Resolve (fc_Filesystem (onOS cfg rt os)) = fs_Resolve" "f_Stat (fc_Filesystem (onOS cfg rt os)) = fs_Stat os rt"
  "f_List (fc_Filesystem (onOS cfg rt os)) = fs_List os rt" "f_Mkdir (fc_Filesystem (onOS cfg rt os)) = fs_Mkdir os rt"
  "f_Remove (fc_Filesystem (onOS cfg rt os)) = fs_Remove os rt" "f_Rename (fc_Filesystem (onOS cfg rt os)) = fs_Rename os rt"
  "f_SendFile (fc_Filesystem (onOS cfg rt os)) = fs_SendFile os rt"
  "f_RecvFile (fc_Filesystem (onOS cfg rt os)) = fs_RecvFile os rt"
  "f_AppendFile (fc_Filesystem (onOS cfg rt os)) = fs_AppendFile os rt"
  by (simp_all add: onOS_def osFilesystem_def)

lemma onOS_rest [simp]:
  "fc_Authenticator (onOS cfg rt os) = fc_Authenticator cfg" "fc_WelcomeMessage (onOS cfg rt os) = fc_WelcomeMessage cfg"
  "openPassive (onOS cfg rt os) = openPassive cfg" "fmt_mdtm (onOS cfg rt os) = fmt_mdtm cfg"
  "formatListEntry (onOS cfg rt os) = formatListEntry cfg"
proof -
  have "tryPorts (onOS cfg rt os) e ps = tryPorts cfg e ps" for e ps
    by (induction ps arbitrary: e) (simp_all add: net_onOS split: prod.splits sum.splits)
  then show "openPassive (onOS cfg rt os) = openPassive cfg"
    by (intro ext) (simp add: openPassive_def net_onOS, simp add: onOS_def)
  show "formatListEntry (onOS cfg rt os) = formatListEntry cfg" by (intro ext) (simp add: formatListEntry_def onOS_def)
qed (simp_all add: onOS_def)

lemma tidy_home: "tidy s \<Longrightarrow> dotdot_free (u_Home (s_auth s))"
  by (simp add: tidy_def)

text \<open>So no command notices it.\<close>

lemma path_commands_confine:
  assumes rt: "abs_clean rt" and s: "tidy s"
  shows "cwd2 (onOS cfg rt (confine rt os)) s arg = cwd2 (onOS cfg rt os) s arg"
    and "dele (onOS cfg rt (confine rt os)) s arg = dele (onOS cfg rt os) s arg"
    and "rmd (onOS cfg rt (confine rt os)) s arg = rmd (onOS cfg rt os) s arg"
    and "mkd (onOS cfg rt (confine rt os)) s arg = mkd (onOS cfg rt os) s arg"
    and "rnfr (onOS cfg rt (confine rt os)) s arg = rnfr (onOS cfg rt os) s arg"
    and "rnto (onOS cfg rt (confine rt os)) s arg = rnto (onOS cfg rt os) s arg"
    and "ftp_size (onOS cfg rt (confine rt os)) s arg = ftp_size (onOS cfg rt os) s arg"
    and "mdtm (onOS cfg rt (confine rt os)) s arg = mdtm (onOS cfg rt os) s arg"
proof -
  have r: "s_renameTo s = [] \<or> dotdot_free (s_renameTo s)" using s by (simp add: tidy_def)
  have t: "fs_Resolve (s_auth s) (s_cwd s) arg = Inr p \<Longrightarrow> dotdot_free p" for p
    using tidy_Resolve [OF s] by blast
  note c = fs_confine [OF rt tidy_home [OF s]]
  show "cwd2 (onOS cfg rt (confine rt os)) s arg = cwd2 (onOS cfg rt os) s arg"
    "dele (onOS cfg rt (confine rt os)) s arg = dele (onOS cfg rt os) s arg"
    "rmd (onOS cfg rt (confine rt os)) s arg = rmd (onOS cfg rt os) s arg"
    "mkd (onOS cfg rt (confine rt os)) s arg = mkd (onOS cfg rt os) s arg"
    "rnfr (onOS cfg rt (confine rt os)) s arg = rnfr (onOS cfg rt os) s arg"
    "rnto (onOS cfg rt (confine rt os)) s arg = rnto (onOS cfg rt os) s arg"
    "ftp_size (onOS cfg rt (confine rt os)) s arg = ftp_size (onOS cfg rt os) s arg"
    "mdtm (onOS cfg rt (confine rt os)) s arg = mdtm (onOS cfg rt os) s arg"
    using r t
    by (cases "fs_Resolve (s_auth s) (s_cwd s) arg";
        auto simp: cwd2_def dele_def rmd_def mkd_def rnfr_def rnto_def ftp_size_def mdtm_def c split: sum.splits)+
qed

lemma transfers_confine:
  assumes rt: "abs_clean rt" and s: "tidy s"
  shows "ftp_list (onOS cfg rt (confine rt os)) s arg = ftp_list (onOS cfg rt os) s arg"
    and "retr (onOS cfg rt (confine rt os)) s arg = retr (onOS cfg rt os) s arg"
    and "stor (onOS cfg rt (confine rt os)) s arg = stor (onOS cfg rt os) s arg"
    and "appe (onOS cfg rt (confine rt os)) s arg = appe (onOS cfg rt os) s arg"
proof -
  note c = fs_confine [OF rt tidy_home [OF s]]
  have t: "fs_Resolve (s_auth s) (s_cwd s) arg = Inr p \<Longrightarrow> dotdot_free p" for p
    using tidy_Resolve [OF s] by blast
  have d: "dotdot_free (s_cwd s)" using s by (simp add: tidy_def)
  show "ftp_list (onOS cfg rt (confine rt os)) s arg = ftp_list (onOS cfg rt os) s arg"
    using t d by (cases "fs_Resolve (s_auth s) (s_cwd s) arg") (auto simp: ftp_list_def c)
  obtain s1 r where a: "acceptData cfg s = (s1, r)" by fastforce
  then have u: "s_auth s1 = s_auth s" using tidy_acceptData by blast
  show "retr (onOS cfg rt (confine rt os)) s arg = retr (onOS cfg rt os) s arg"
    "stor (onOS cfg rt (confine rt os)) s arg = stor (onOS cfg rt os) s arg"
    "appe (onOS cfg rt (confine rt os)) s arg = appe (onOS cfg rt os) s arg"
    using t by (cases "fs_Resolve (s_auth s) (s_cwd s) arg"; cases r;
        auto simp: retr_def stor_def appe_def receive_def a u c)+
qed

lemma passive_onOS:
  "pasv (onOS cfg rt os) s = pasv cfg s" "epsv (onOS cfg rt os) s = epsv cfg s"
  "handlePASS (onOS cfg rt os) s arg = handlePASS cfg s arg"
  unfolding pasv_def epsv_def handlePASS_def onOS_rest by simp_all

lemma serveLine_confine:
  assumes "abs_clean rt" and "tidy s"
  shows "serveLine (onOS cfg rt (confine rt os)) s line = serveLine (onOS cfg rt os) s line"
proof -
  have "perform (onOS cfg rt (confine rt os)) s c = perform (onOS cfg rt os) s c" for c
    unfolding perform_def passive_onOS path_commands_confine [OF assms] transfers_confine [OF assms] ..
  then have d: "dispatch (onOS cfg rt (confine rt os)) s c = dispatch (onOS cfg rt os) s c" for c
    by (simp add: dispatch_def)
  show ?thesis unfolding serveLine_def d ..
qed

text \<open>Sessions stay tidy when the homes of the users are.\<close>

lemma tidy_handlers:
  assumes "tidy s"
  shows "tidy (fst (type2 s arg))" "tidy (fst (port s arg))" "tidy (fst (eprt s arg))" "tidy (fst (rest2 s arg))"
    "tidy (fst (auth2 s arg))" "tidy (fst (prot s arg))" "tidy (fst (handleUSER s arg))"
    "tidy (fst (pasv cfg s))" "tidy (fst (epsv cfg s))"
  using assms
  by (auto simp: type2_def port_def eprt_def rest2_def auth2_def prot_def handleUSER_def reply1_def pasv_def epsv_def
      tidy_def noUser_def dotdot_free_def Let_def split: sum.splits option.splits prod.splits)

lemma tidy_path_commands:
  assumes "tidy s"
  shows "tidy (fst (cwd2 (onOS cfg rt os) s arg))" "tidy (fst (dele (onOS cfg rt os) s arg))"
    "tidy (fst (rmd (onOS cfg rt os) s arg))" "tidy (fst (mkd (onOS cfg rt os) s arg))"
    "tidy (fst (rnfr (onOS cfg rt os) s arg))" "tidy (fst (rnto (onOS cfg rt os) s arg))"
    "tidy (fst (ftp_size (onOS cfg rt os) s arg))" "tidy (fst (mdtm (onOS cfg rt os) s arg))"
proof -
  have t: "fs_Resolve (s_auth s) (s_cwd s) arg = Inr p \<Longrightarrow> dotdot_free p \<and> HasPrefix p ''/''" for p arg
    using tidy_Resolve [OF assms] by blast
  show "tidy (fst (cwd2 (onOS cfg rt os) s arg))" "tidy (fst (rnfr (onOS cfg rt os) s arg))"
    using assms t [of arg] by (auto simp: cwd2_def rnfr_def reply1_def tidy_def split: sum.splits)
  show "tidy (fst (dele (onOS cfg rt os) s arg))" "tidy (fst (rmd (onOS cfg rt os) s arg))"
    "tidy (fst (mkd (onOS cfg rt os) s arg))" "tidy (fst (rnto (onOS cfg rt os) s arg))"
    "tidy (fst (ftp_size (onOS cfg rt os) s arg))" "tidy (fst (mdtm (onOS cfg rt os) s arg))"
    using assms
    by (auto simp: dele_def rmd_def mkd_def rnto_def ftp_size_def mdtm_def reply1_def tidy_def
        split: sum.splits option.splits prod.splits)
qed

lemma tidy_transfers:
  assumes "tidy s"
  shows "tidy (fst (ftp_list cfg s arg))" "tidy (fst (retr cfg s arg))" "tidy (fst (receive recv cfg s arg))"
  using assms
  by (auto simp: ftp_list_def retr_def receive_def reply1_def dest!: tidy_acceptData
      split: sum.splits option.splits prod.splits)

lemma tidy_PASS:
  assumes "tidy s" and "\<And>user pass u. fc_Authenticator cfg user pass = Inr u \<Longrightarrow> dotdot_free (u_Home u)"
  shows "tidy (fst (handlePASS cfg s arg))"
  using assms by (auto simp: handlePASS_def reply1_def tidy_def dotdot_free_def split: sum.splits)

lemma tidy_serveLine:
  assumes s: "tidy s" and h: "\<And>user pass u. fc_Authenticator cfg user pass = Inr u \<Longrightarrow> dotdot_free (u_Home u)"
    and "serveLine (onOS cfg rt os) s line = (s', rs, ds, fin)"
  shows "tidy s'"
  using assms(3)
proof (cases rule: serveLine_cases)
  case (Done c err)
  have "tidy (fst (perform (onOS cfg rt os) s c))"
    unfolding perform_def Let_def passive_onOS
    by (simp add: reply1_def stor_def appe_def s tidy_handlers [OF s] tidy_path_commands [OF s] tidy_transfers [OF s]
        tidy_PASS [OF s h])
  then show ?thesis using Done(2) by simp
qed (use s in simp_all)

text \<open>A server for concrete sessions: anonymous users on the operating system of empty files.\<close>

definition demo :: "unit FtpConfig" where
  "demo =
     \<lparr>fc_Banner = ''Welcome'', fc_WelcomeMessage = [], fc_PortStart = 0, fc_PortEnd = 0,
      fc_Authenticator = Anonymous_Authenticate AllowAnonymous, fc_Filesystem = osFilesystem emptyOS ''/srv'',
      net_Listen = \<lambda>e p. (e, Inr \<lparr>ln_id = 1, ln_host = ''0.0.0.0'', ln_port = ''2000''\<rparr>),
      net_Accept = \<lambda>e ln. (e, Inr []), net_Dial = \<lambda>e a. (e, Inl ''refused''),
      fmt_mdtm = \<lambda>t. [], fmt_list = \<lambda>t. []\<rparr>"

lemma demo_run:
  "ftp_sys.run demo (newSession ()) [(''USER anonymous'', ([NewReply CodeUserOK ''Password required''], []))]
     ((newSession ())\<lparr>s_user := ''anonymous''\<rparr>)"
proof -
  have "serveLine demo (newSession ()) ''USER anonymous'' =
      ((newSession ())\<lparr>s_user := ''anonymous''\<rparr>, [NewReply CodeUserOK ''Password required''], [], False)" by code_simp
  then show ?thesis by (intro ftp_sys.run_single) auto
qed

section \<open>Properties\<close>

text \<open>C35: the server answers every line of the control channel with exactly one final reply, preceded at most
  by the announcement of a data connection: syntax errors, commands before the login, unknown commands and
  failed transfers included, whatever the filesystem, the authenticator and the network do.\<close>

theorem ftp_serve_replies:
  assumes "serveLine cfg s line = (s', rs, ds, fin)"
  shows "well_replied rs"
  by (rule serveLine_well_replied [OF assms])

theorem ftp_serve_replies_witness:
  "well_replied [NewReply CodeNotLoggedInReq ''please log in'']"
proof -
  have "serveLine demo (newSession ()) ''RETR x'' =
      (newSession (), [NewReply CodeNotLoggedInReq ''please log in''], [], False)" by code_simp
  then show ?thesis by (rule ftp_serve_replies)
qed

text \<open>C11: in every state a session reaches, being logged in means that the authenticator accepted the current
  user name with some password and returned the current user: no sequence of commands, failed passwords
  and changes of user included, reaches the logged-in state or another user's identity in any other way.\<close>

theorem ftp_login_authentic:
  assumes "ftp_sys.reachable e cfg s" and "s_logged s"
  shows "s_user s \<noteq> [] \<and> (\<exists>pass. fc_Authenticator cfg (s_user s) pass = Inr (s_auth s))"
proof -
  have "authentic cfg s"
  proof (rule ftp_sys.reachable_invariant [OF _ _ assms(1)])
    show "authentic cfg t" if "t = newSession e" for t using that by (simp add: authentic_def newSession_def)
    show "authentic cfg t'" if "authentic cfg t" "\<exists>fin. serveLine cfg t line = (t', fst out, snd out, fin)" for t line out t'
      using that authentic_step by blast
  qed
  with assms(2) show ?thesis by (simp add: authentic_def)
qed

theorem ftp_login_authentic_witness:
  "\<exists>s. ftp_sys.reachable () demo s \<and> s_logged s \<and> s_user s \<noteq> []"
proof -
  let ?s = "(newSession ())\<lparr>s_user := ''anonymous'', s_auth := \<lparr>u_Name = ''anonymous'', u_Home = []\<rparr>, s_logged := True\<rparr>"
  have "serveLine demo ((newSession ())\<lparr>s_user := ''anonymous''\<rparr>) ''PASS me'' =
      (?s, [NewReply CodeLoginOK ''Login successful''], [], False)" by code_simp
  moreover have "serveLine demo (newSession ()) ''USER anonymous'' =
      ((newSession ())\<lparr>s_user := ''anonymous''\<rparr>, [NewReply CodeUserOK ''Password required''], [], False)" by code_simp
  ultimately have "ftp_sys.run demo (newSession ()) [(''USER anonymous'', ([NewReply CodeUserOK ''Password required''], [])),
      (''PASS me'', ([NewReply CodeLoginOK ''Login successful''], []))] ?s"
    by (intro ftp_sys.run_Cons [OF _ ftp_sys.run_single]) auto
  then have r: "ftp_sys.reachable () demo ?s" unfolding ftp_sys.reachable_def by blast
  have l: "s_logged ?s" by simp
  from r l conjunct1 [OF ftp_login_authentic [OF r l]] show ?thesis by blast
qed



text \<open>C2: a session never leaves the served directory: in every state it reaches over the operating system,
  every command behaves as on an operating system that refuses all paths outside the root, for clean
  roots and for users whose home has no dot-dot elements; so no argument, relative or with dot-dot
  elements, no working directory and no rename source reads or changes anything outside.\<close>

theorem ftp_session_confined:
  assumes "abs_clean rt" and "\<And>user pass u. fc_Authenticator cfg user pass = Inr u \<Longrightarrow> dotdot_free (u_Home u)"
    and "ftp_sys.reachable e (onOS cfg rt os) s"
  shows "serveLine (onOS cfg rt (confine rt os)) s line = serveLine (onOS cfg rt os) s line"
proof -
  have "tidy s"
  proof (rule ftp_sys.reachable_invariant [OF _ _ assms(3)])
    show "tidy t" if "t = newSession e" for t
      using that by (simp add: tidy_def newSession_def noUser_def dotdot_free_def)
    fix t line out t'
    assume t: "tidy t" and "\<exists>fin. serveLine (onOS cfg rt os) t line = (t', fst out, snd out, fin)"
    then obtain fin where l: "serveLine (onOS cfg rt os) t line = (t', fst out, snd out, fin)" by blast
    show "tidy t'" by (rule tidy_serveLine [OF t assms(2) l])
  qed
  then show ?thesis by (rule serveLine_confine [OF assms(1)])
qed

theorem ftp_session_confined_witness:
  "serveLine (onOS demo ''/srv'' (confine ''/srv'' emptyOS)) (newSession ()) ''CWD ../..'' =
   serveLine (onOS demo ''/srv'' emptyOS) (newSession ()) ''CWD ../..''"
proof (rule ftp_session_confined)
  show "abs_clean ''/srv''" by code_simp
  show "dotdot_free (u_Home u)" if "fc_Authenticator demo user pass = Inr u" for user pass u
    using that by (auto simp: demo_def Anonymous_Authenticate_def dotdot_free_def split: if_splits)
  show "ftp_sys.reachable () (onOS demo ''/srv'' emptyOS) (newSession ())"
    unfolding ftp_sys.reachable_def using ftp_sys.run_Nil by blast
qed

text \<open>the restart offset of REST is not taken back by the transfer it was meant for: after a RETR, complete
  or not, the offset is still set and applies to the next one.\<close>

theorem ftp_rest_persists: "s_rest (fst (retr cfg s arg)) = s_rest s"
proof (cases "acceptData cfg s")
  case (Pair s1 r)
  then have "s_rest s1 = s_rest s" by (auto simp: acceptData_def split: option.splits if_splits prod.splits)
  moreover have "s_rest (fst (retr cfg s arg)) \<in> {s_rest s, s_rest s1}"
    unfolding retr_def Pair reply1_def by (simp split: sum.split prod.split option.split)
  ultimately show ?thesis by simp
qed

end
