(* ===== verification/FtpClient.thy ===== *)
theory FtpClient
  imports FtpSession
begin

text \<open>
  Directory \<open>ftp/client\<close>: the control channel of a client and the commands on it (\<open>client.go\<close>, \<open>session.go\<close>), and the data channels
  (\<open>data.go\<close>). The other side of the control channel is a parameter: a function from its state and the bytes of a command to
  its new state and the bytes it answers. The server of this repository is one such function. Dialling a data connection and the
  TLS handshake are parameters; deadlines are not modelled.
\<close>

section \<open>Definitions\<close>

subsection \<open>The control channel\<close>

datatype ftp_error = FReply Reply | FErr error | FWrap string ftp_error

type_synonym 's control = "'s \<Rightarrow> string \<Rightarrow> 's \<times> string"

text \<open>The client, the bytes of the control channel it has not read, and the state of the other side.\<close>

record 's FtpClient =
  fcl_DisableEPSV :: bool
  fcl_host :: string
  fcl_features :: "string list"
  fcl_in :: string
  fcl_open :: bool
  fcl_peer :: 's

type_synonym ('s, 'a) call = "'s FtpClient \<Rightarrow> 's FtpClient \<times> (ftp_error + 'a)"

text \<open>Sending on a channel that was closed fails.\<close>

definition SendCommand :: "'s control \<Rightarrow> string \<Rightarrow> string \<Rightarrow> ('s, unit) call" where
  "SendCommand P name arg c =
     (if \<not> fcl_open c then (c, Inl (FErr (Errorf ''use of closed network connection'')))
      else case P (fcl_peer c) (Command_String \<lparr>cmd_Name = name, cmd_Arg = arg\<rparr>) of (p, answer) \<Rightarrow>
        (c\<lparr>fcl_peer := p, fcl_in := fcl_in c @ answer\<rparr>, Inr ()))"

text \<open>What a failed read of a reply leaves in the buffer: the lines it has read are gone.\<close>

function continuationRest :: "Code \<Rightarrow> string \<Rightarrow> string" where
  "continuationRest firstCode r =
     (case ReadString LF r of
        Inl _ \<Rightarrow> []
      | Inr (line, r) \<Rightarrow>
     (case splitReplyLine line of
        None \<Rightarrow> r
      | Some (code, text) \<Rightarrow>
          if code \<noteq> firstCode \<or> \<not> isMultiLineStart line then r else continuationRest firstCode r))"
  by pat_completeness auto
termination
  by (relation "measure (\<lambda>(c, r). length r)") (auto dest: ReadString_shrinks)

declare continuationRest.simps [simp del]

definition scannerRest :: "string \<Rightarrow> string" where
  "scannerRest r =
     (case ReadString LF r of
        Inl _ \<Rightarrow> []
      | Inr (first, r) \<Rightarrow>
     (case splitReplyLine first of
        None \<Rightarrow> r
      | Some (firstCode, _) \<Rightarrow> if isMultiLineStart first then continuationRest firstCode r else r))"

definition readReply :: "('s, Reply) call" where
  "readReply c =
     (case ReplyScanner_Read (fcl_in c) of
        Inl e \<Rightarrow> (c\<lparr>fcl_in := scannerRest (fcl_in c)\<rparr>, Inl (FErr e))
      | Inr (r, rest) \<Rightarrow> (c\<lparr>fcl_in := rest\<rparr>, Inr r))"

definition ftpc_Do :: "'s control \<Rightarrow> string \<Rightarrow> string \<Rightarrow> ('s, Reply) call" where
  "ftpc_Do P name arg c =
     (case SendCommand P name arg c of (c, Inl e) \<Rightarrow> (c, Inl e) | (c, Inr _) \<Rightarrow> readReply c)"

text \<open>\<open>net.SplitHostPort\<close>: the last colon separates the port, and a host with colons stands in brackets.\<close>

definition SplitHostPort :: "string \<Rightarrow> (string \<times> string) result" where
  "SplitHostPort hp =
     (case LastIndexByte hp CHR '':'' of
        None \<Rightarrow> Inl (Errorf ''missing port in address'')
      | Some i \<Rightarrow>
          if hp ! 0 = CHR ''['' then
            (case IndexByte hp CHR '']'' of
               None \<Rightarrow> Inl (Errorf ''missing ']' in address'')
             | Some e \<Rightarrow>
                 if Suc e = length hp then Inl (Errorf ''missing port in address'')
                 else if Suc e \<noteq> i then
                   Inl (Errorf (if hp ! Suc e = CHR '':'' then ''too many colons in address'' else ''missing port in address''))
                 else if CHR ''['' \<in> set (drop 1 hp) then Inl (Errorf ''unexpected '[' in address'')
                 else if CHR '']'' \<in> set (drop (Suc e) hp) then Inl (Errorf ''unexpected ']' in address'')
                 else Inr (take (e - 1) (drop 1 hp), drop (Suc i) hp))
          else if CHR '':'' \<in> set (take i hp) then Inl (Errorf ''too many colons in address'')
          else if CHR ''['' \<in> set hp then Inl (Errorf ''unexpected '[' in address'')
          else if CHR '']'' \<in> set hp then Inl (Errorf ''unexpected ']' in address'')
          else Inr (take i hp, drop (Suc i) hp))"

definition splitHostPort :: "string \<Rightarrow> (string \<times> string) result" where
  "splitHostPort addr =
     (case SplitHostPort addr of
        Inl e \<Rightarrow> Inl e
      | Inr (host, prt) \<Rightarrow> Inr (host, if prt = [] then ''21'' else prt))"

text \<open>The client once the connection is there. Dialling gives the state of the other side and the bytes of its greeting.\<close>

definition greeted :: "bool \<Rightarrow> string \<Rightarrow> 's \<times> string \<Rightarrow> ftp_error + 's FtpClient" where
  "greeted disableEPSV host conn =
     (case readReply \<lparr>fcl_DisableEPSV = disableEPSV, fcl_host = host, fcl_features = [], fcl_in = snd conn, fcl_open = True,
                      fcl_peer = fst conn\<rparr> of
        (c, Inl e) \<Rightarrow> Inl e
      | (c, Inr r) \<Rightarrow> if \<not> Positive r then Inl (FReply r) else Inr c)"

definition ftpc_New :: "(string \<Rightarrow> error + 's \<times> string) \<Rightarrow> bool \<Rightarrow> string \<Rightarrow> ftp_error + 's FtpClient" where
  "ftpc_New dial disableEPSV addr =
     (if addr = [] then Inl (FErr (Errorf ''ftp: empty Addr''))
      else case splitHostPort addr of
             Inl e \<Rightarrow> Inl (FErr e)
           | Inr (host, prt) \<Rightarrow>
               (case dial (JoinHostPort host prt) of
                  Inl e \<Rightarrow> Inl (FErr e)
                | Inr conn \<Rightarrow> greeted disableEPSV host conn))"

definition ftpc_DialTLS ::
  "(string \<Rightarrow> error + 's) \<Rightarrow> ('s \<Rightarrow> error + 's \<times> string) \<Rightarrow> bool \<Rightarrow> bool \<Rightarrow> string \<Rightarrow> ftp_error + 's FtpClient" where
  "ftpc_DialTLS dial handshake tlsConfigured disableEPSV addr =
     (if \<not> tlsConfigured then Inl (FErr (Errorf ''ftp: DialTLS requires a non-nil TLSConfig''))
      else case splitHostPort addr of
             Inl e \<Rightarrow> Inl (FErr e)
           | Inr (host, prt) \<Rightarrow>
               (case dial (JoinHostPort host prt) of
                  Inl e \<Rightarrow> Inl (FErr e)
                | Inr raw \<Rightarrow>
               (case handshake raw of
                  Inl e \<Rightarrow> Inl (FErr e)
                | Inr conn \<Rightarrow> greeted disableEPSV host conn)))"

definition ftpc_Close :: "'s control \<Rightarrow> 's FtpClient \<Rightarrow> 's FtpClient" where
  "ftpc_Close P c = (if \<not> fcl_open c then c else (fst (SendCommand P CmdQUIT [] c))\<lparr>fcl_open := False\<rparr>)"

subsection \<open>Commands\<close>

text \<open>The calls that only ask for a positive reply.\<close>

definition positiveCall :: "'s control \<Rightarrow> string \<Rightarrow> string \<Rightarrow> ('s, unit) call" where
  "positiveCall P name arg c =
     (case ftpc_Do P name arg c of
        (c, Inl e) \<Rightarrow> (c, Inl e)
      | (c, Inr reply) \<Rightarrow> (c, if \<not> Positive reply then Inl (FReply reply) else Inr ()))"

definition ftpc_Login :: "'s control \<Rightarrow> string \<Rightarrow> string \<Rightarrow> string \<Rightarrow> ('s, unit) call" where
  "ftpc_Login P user0 pass0 account c =
     (let user = (if user0 = [] then ''anonymous'' else user0); pass = (if pass0 = [] then ''anonymous@'' else pass0)
      in case ftpc_Do P CmdUSER user c of
           (c, Inl e) \<Rightarrow> (c, Inl e)
         | (c, Inr reply) \<Rightarrow>
             if rp_Code reply = CodeLoginOK then (c, Inr ())
             else if rp_Code reply \<noteq> CodeUserOK \<and> rp_Code reply \<noteq> CodeNeedPassword then (c, Inl (FReply reply))
             else
               (case ftpc_Do P CmdPASS pass c of
                  (c, Inl e) \<Rightarrow> (c, Inl e)
                | (c, Inr reply) \<Rightarrow>
                    if rp_Code reply = CodeLoginOK then (c, Inr ())
                    else if rp_Code reply = CodeNeedPassword \<and> account \<noteq> [] then positiveCall P CmdACCT account c
                    else (c, if \<not> Positive reply then Inl (FReply reply) else Inr ())))"

definition ftpc_Feat :: "'s control \<Rightarrow> ('s, string list) call" where
  "ftpc_Feat P c =
     (case ftpc_Do P CmdFEAT [] c of
        (c, Inl e) \<Rightarrow> (c, Inl e)
      | (c, Inr reply) \<Rightarrow>
          if rp_Code reply = CodeCommandNotImpl then (c, Inr [])
          else (c\<lparr>fcl_features := rp_Lines reply\<rparr>, Inr (rp_Lines reply)))"

definition ftpc_Supports :: "'s FtpClient \<Rightarrow> string \<Rightarrow> bool" where
  "ftpc_Supports c feature = list_ex (\<lambda>f. ToUpper (TrimSpace f) = ToUpper feature) (fcl_features c)"

definition unwrapQuoted :: "string \<Rightarrow> string" where
  "unwrapQuoted s0 =
     (let s = TrimSpace s0
      in if HasPrefix s [CHR 0x22] \<and> HasSuffix s [CHR 0x22] \<and> length s \<ge> 2 then butlast (tl s) else s)"

text \<open>The calls that ask for one code and return a part of the reply.\<close>

definition codeCall :: "'s control \<Rightarrow> Code \<Rightarrow> (Reply \<Rightarrow> error + 'a) \<Rightarrow> string \<Rightarrow> string \<Rightarrow> ('s, 'a) call" where
  "codeCall P code f name arg c =
     (case ftpc_Do P name arg c of
        (c, Inl e) \<Rightarrow> (c, Inl e)
      | (c, Inr reply) \<Rightarrow>
          (c, if rp_Code reply \<noteq> code then Inl (FReply reply)
              else case f reply of Inl e \<Rightarrow> Inl (FErr e) | Inr v \<Rightarrow> Inr v))"

definition ftpc_Pwd :: "'s control \<Rightarrow> ('s, string) call" where
  "ftpc_Pwd P = codeCall P CodePathCreated (\<lambda>r. Inr (unwrapQuoted (rp_Text r))) CmdPWD []"

definition ftpc_Cwd :: "'s control \<Rightarrow> string \<Rightarrow> ('s, unit) call" where
  "ftpc_Cwd P path = positiveCall P CmdCWD path"

definition ftpc_Cdup :: "'s control \<Rightarrow> ('s, unit) call" where
  "ftpc_Cdup P = ftpc_Cwd P ''..''"

definition ftpc_Mkd :: "'s control \<Rightarrow> string \<Rightarrow> ('s, string) call" where
  "ftpc_Mkd P path = codeCall P CodePathCreated (\<lambda>r. Inr (unwrapQuoted (rp_Text r))) CmdMKD path"

definition ftpc_Rmd :: "'s control \<Rightarrow> string \<Rightarrow> ('s, unit) call" where
  "ftpc_Rmd P path = positiveCall P CmdRMD path"

definition ftpc_Dele :: "'s control \<Rightarrow> string \<Rightarrow> ('s, unit) call" where
  "ftpc_Dele P path = positiveCall P CmdDELE path"

definition ftpc_Rename :: "'s control \<Rightarrow> string \<Rightarrow> string \<Rightarrow> ('s, unit) call" where
  "ftpc_Rename P src dst c =
     (case ftpc_Do P CmdRNFR src c of
        (c, Inl e) \<Rightarrow> (c, Inl e)
      | (c, Inr reply) \<Rightarrow>
          if rp_Code reply \<noteq> CodeRequestedAction \<and> rp_Code reply \<noteq> 350 then (c, Inl (FReply reply))
          else positiveCall P CmdRNTO dst c)"

definition parseIntText :: "Reply \<Rightarrow> error + int" where
  "parseIntText r = (case ParseInt64 (TrimSpace (rp_Text r)) of None \<Rightarrow> Inl (Errorf ''strconv.ParseInt'') | Some n \<Rightarrow> Inr n)"

definition ftpc_Size :: "'s control \<Rightarrow> string \<Rightarrow> ('s, int) call" where
  "ftpc_Size P path = codeCall P CodeFileStatus parseIntText CmdSIZE path"

definition ftpc_Mdtm :: "'s control \<Rightarrow> string \<Rightarrow> ('s, string) call" where
  "ftpc_Mdtm P path = codeCall P CodeFileStatus (\<lambda>r. Inr (TrimSpace (rp_Text r))) CmdMDTM path"

definition ftpc_Type :: "'s control \<Rightarrow> string \<Rightarrow> string list \<Rightarrow> ('s, unit) call" where
  "ftpc_Type P repr formatControl = positiveCall P CmdTYPE (repr @ concat (map (\<lambda>fc. '' '' @ fc) formatControl))"

definition ftpc_Pasv :: "'s control \<Rightarrow> ('s, string \<times> int) call" where
  "ftpc_Pasv P c =
     (case ftpc_Do P CmdPASV [] c of
        (c, Inl e) \<Rightarrow> (c, Inl e)
      | (c, Inr reply) \<Rightarrow> (c, case ParsePASVReply reply of Inl e \<Rightarrow> Inl (FErr e) | Inr hp \<Rightarrow> Inr hp))"

definition pasvPort :: "'s control \<Rightarrow> ('s, int) call" where
  "pasvPort P c = (case ftpc_Pasv P c of (c, Inl e) \<Rightarrow> (c, Inl e) | (c, Inr (h, p)) \<Rightarrow> (c, Inr p))"

definition ftpc_Epsv :: "'s control \<Rightarrow> ('s, int) call" where
  "ftpc_Epsv P c =
     (if fcl_DisableEPSV c then pasvPort P c
      else case ftpc_Do P CmdEPSV [] c of
             (c, Inl e) \<Rightarrow> (c, Inl e)
           | (c, Inr reply) \<Rightarrow>
               if rp_Code reply = CodeCommandNotImpl \<or> rp_Code reply = 500 then pasvPort P c
               else (c, case ParseEPSVReply reply of
                          Inl e \<Rightarrow> Inl (FErr e)
                        | Inr portStr \<Rightarrow>
                            (case ParseInt64 portStr of None \<Rightarrow> Inl (FErr (Errorf ''strconv.Atoi'')) | Some p \<Rightarrow> Inr p)))"

definition ftpc_Port :: "'s control \<Rightarrow> string \<Rightarrow> int \<Rightarrow> ('s, unit) call" where
  "ftpc_Port P host prt c =
     (case FormatPORT host prt of Inl e \<Rightarrow> (c, Inl (FErr e)) | Inr arg \<Rightarrow> positiveCall P CmdPORT arg c)"

definition ftpc_Eprt :: "'s control \<Rightarrow> string \<Rightarrow> string \<Rightarrow> int \<Rightarrow> ('s, unit) call" where
  "ftpc_Eprt P proto host prt = positiveCall P CmdEPRT (FormatEPRT proto host prt)"

definition ftpc_Rest :: "'s control \<Rightarrow> int \<Rightarrow> ('s, unit) call" where
  "ftpc_Rest P offset = positiveCall P CmdREST (show_int offset)"

definition ftpc_Noop :: "'s control \<Rightarrow> ('s, unit) call" where
  "ftpc_Noop P = positiveCall P CmdNOOP []"

text \<open>The handshake is a parameter: the state of the other side after it, or its error.\<close>

definition ftpc_AuthTLS :: "'s control \<Rightarrow> ('s \<Rightarrow> error + 's) \<Rightarrow> string \<Rightarrow> ('s, unit) call" where
  "ftpc_AuthTLS P handshake mech c =
     (case ftpc_Do P CmdAUTH (if mech = [] then ''TLS'' else mech) c of
        (c, Inl e) \<Rightarrow> (c, Inl e)
      | (c, Inr reply) \<Rightarrow>
          if rp_Code reply \<noteq> CodeServiceReadyTLS then (c, Inl (FReply reply))
          else (case handshake (fcl_peer c) of
                  Inl e \<Rightarrow> (c, Inl (FErr e))
                | Inr p \<Rightarrow> (c\<lparr>fcl_peer := p, fcl_in := []\<rparr>, Inr ())))"

definition ftpc_Prot :: "'s control \<Rightarrow> string \<Rightarrow> ('s, unit) call" where
  "ftpc_Prot P level = positiveCall P CmdPROT level"

definition ftpc_PBSZ :: "'s control \<Rightarrow> int \<Rightarrow> ('s, unit) call" where
  "ftpc_PBSZ P n = positiveCall P CmdPBSZ (show_int n)"

definition ftpc_Opts :: "'s control \<Rightarrow> string \<Rightarrow> string \<Rightarrow> ('s, unit) call" where
  "ftpc_Opts P feature v = positiveCall P CmdOPTS (feature @ '' '' @ v)"

subsection \<open>Data channels\<close>

definition openDataPassive :: "'s control \<Rightarrow> ('s, string) call" where
  "openDataPassive P c =
     (case ftpc_Epsv P c of (c, Inl e) \<Rightarrow> (c, Inl e) | (c, Inr p) \<Rightarrow> (c, Inr (JoinHostPort (fcl_host c) (show_int p))))"

text \<open>The closure \<open>Done\<close>.\<close>

definition dataDone :: "('s, Reply) call" where
  "dataDone c =
     (case readReply c of (c, Inl e) \<Rightarrow> (c, Inl e) | (c, Inr r) \<Rightarrow> (c, if \<not> Positive r then Inl (FReply r) else Inr r))"

text \<open>A data connection is what the other side sends on it until it closes it.\<close>

type_synonym 's dialer = "'s \<Rightarrow> string \<Rightarrow> 's \<times> (error + bytes)"

definition dialDataPassive :: "'s control \<Rightarrow> 's dialer \<Rightarrow> ('s, bytes) call" where
  "dialDataPassive P dial c =
     (case openDataPassive P c of
        (c, Inl e) \<Rightarrow> (c, Inl e)
      | (c, Inr addr) \<Rightarrow>
          (case dial (fcl_peer c) addr of (p, r) \<Rightarrow>
             (c\<lparr>fcl_peer := p\<rparr>, case r of Inl e \<Rightarrow> Inl (FErr (Wrapped ''ftp: dial data'' e)) | Inr d \<Rightarrow> Inr d)))"

text \<open>The common start of \<open>Retr\<close>, \<open>Stor\<close> and \<open>List\<close>.\<close>

definition startTransfer :: "'s control \<Rightarrow> 's dialer \<Rightarrow> string \<Rightarrow> string \<Rightarrow> ('s, bytes) call" where
  "startTransfer P dial name arg c =
     (case ftpc_Do P name arg c of
        (c, Inl e) \<Rightarrow> (c, Inl e)
      | (c, Inr reply) \<Rightarrow> if rp_Code reply \<noteq> CodeDataOpen then (c, Inl (FReply reply)) else dialDataPassive P dial c)"

definition ftpc_Retr :: "'s control \<Rightarrow> 's dialer \<Rightarrow> string \<Rightarrow> ('s, bytes) call" where
  "ftpc_Retr P dial path = startTransfer P dial CmdRETR path"

definition ftpc_Stor :: "'s control \<Rightarrow> 's dialer \<Rightarrow> string \<Rightarrow> ('s, bytes) call" where
  "ftpc_Stor P dial path = startTransfer P dial CmdSTOR path"

definition ftpc_List :: "'s control \<Rightarrow> 's dialer \<Rightarrow> string \<Rightarrow> ('s, bytes) call" where
  "ftpc_List P dial path c =
     (case startTransfer P dial CmdLIST path c of
        (c, Inl e) \<Rightarrow> (c, Inl e)
      | (c, Inr d) \<Rightarrow> (case dataDone c of (c, Inl e) \<Rightarrow> (c, Inl e) | (c, Inr _) \<Rightarrow> (c, Inr d)))"

subsection \<open>Package ftps\<close>

record ftpsConfig =
  fs_TLSConfig :: bool
  fs_Addr :: string
  fs_User :: string
  fs_Password :: string
  fs_NoEPSV :: bool
  fs_Explicit :: bool
  fs_ProtectDataChannel :: bool

text \<open>A step of \<open>Connect\<close> on the client so far: its failure closes the client.\<close>

type_synonym 's connecting = "'s FtpClient option \<times> (ftp_error + unit)"

definition orClose ::
  "'s control \<Rightarrow> (ftp_error \<Rightarrow> ftp_error) \<Rightarrow> ('s, unit) call \<Rightarrow> ('s FtpClient \<Rightarrow> 's connecting) \<Rightarrow> 's FtpClient \<Rightarrow> 's connecting" where
  "orClose P wrap f k c =
     (case f c of (c, Inl e) \<Rightarrow> (Some (ftpc_Close P c), Inl (wrap e)) | (c, Inr _) \<Rightarrow> k c)"

definition ftps_login :: "'s control \<Rightarrow> ftpsConfig \<Rightarrow> 's FtpClient \<Rightarrow> 's connecting" where
  "ftps_login P cfg c =
     (if fs_User cfg \<noteq> [] then orClose P (\<lambda>e. e) (ftpc_Login P (fs_User cfg) (fs_Password cfg) []) (\<lambda>c. (Some c, Inr ())) c
      else (Some c, Inr ()))"

definition ftps_Connect ::
  "'s control \<Rightarrow> (string \<Rightarrow> error + 's \<times> string) \<Rightarrow> (string \<Rightarrow> error + 's) \<Rightarrow> ('s \<Rightarrow> error + 's) \<Rightarrow>
   ('s \<Rightarrow> error + 's \<times> string) \<Rightarrow> ftpsConfig \<Rightarrow> 's connecting" where
  "ftps_Connect P dial dialRaw upgrade implicitTLS cfg =
     (let level = (if fs_ProtectDataChannel cfg then ''P'' else ''C'')
      in if \<not> fs_TLSConfig cfg then (None, Inl (FErr (Errorf ''ftps: nil TLSConfig'')))
         else if fs_Explicit cfg then
           (case ftpc_New dial (fs_NoEPSV cfg) (fs_Addr cfg) of
              Inl e \<Rightarrow> (None, Inl e)
            | Inr c \<Rightarrow>
                orClose P (FWrap ''ftps: AUTH TLS'') (ftpc_AuthTLS P upgrade ''TLS'')
                  (orClose P (FWrap ''ftps: PBSZ'') (ftpc_PBSZ P 0)
                    (orClose P (FWrap (''ftps: PROT '' @ level)) (ftpc_Prot P level) (ftps_login P cfg))) c)
         else
           (case ftpc_DialTLS dialRaw implicitTLS (fs_TLSConfig cfg) (fs_NoEPSV cfg) (fs_Addr cfg) of
              Inl e \<Rightarrow> (None, Inl e)
            | Inr c \<Rightarrow> orClose P (\<lambda>e. e) (ftpc_PBSZ P 0) (orClose P (\<lambda>e. e) (ftpc_Prot P level) (ftps_login P cfg)) c))"

definition ftps_Wrap :: "'s control \<Rightarrow> bool \<Rightarrow> ('s, unit) call" where
  "ftps_Wrap P protect c =
     (case ftpc_PBSZ P 0 c of
        (c, Inl e) \<Rightarrow> (c, Inl e)
      | (c, Inr _) \<Rightarrow> ftpc_Prot P (if protect then ''P'' else ''C'') c)"

fun ErrorIsReply :: "ftp_error option \<Rightarrow> Reply option" where
  "ErrorIsReply (Some (FReply r)) = Some r"
| "ErrorIsReply _ = None"

subsection \<open>The server as the other side\<close>

definition ftpServer :: "'e FtpConfig \<Rightarrow> 'e session control" where
  "ftpServer cfg s sent = (case serve cfg s sent of (s', rs, ds) \<Rightarrow> (s', concat (map Reply_String rs)))"

section \<open>Library lemmas\<close>

text \<open>An argument that stays on its line.\<close>

definition arg_ok :: "string \<Rightarrow> bool" where
  "arg_ok arg \<longleftrightarrow> LF \<notin> set arg \<and> (arg = [] \<or> last arg \<noteq> CR)"

definition verb_ok :: "string \<Rightarrow> bool" where
  "verb_ok n \<longleftrightarrow> n \<noteq> [] \<and> ToUpper n = n \<and> CHR '' '' \<notin> set n \<and> CR \<notin> set n \<and> LF \<notin> set n"

lemma command_ok_verb: "verb_ok n \<Longrightarrow> arg_ok arg \<Longrightarrow> command_ok \<lparr>cmd_Name = n, cmd_Arg = arg\<rparr>"
  using last_in_set by (fastforce simp: verb_ok_def arg_ok_def command_ok_def)

lemma scannerRest_Read: "ReplyScanner_Read r = Inr (x, rest) \<Longrightarrow> scannerRest r = rest"
proof -
  have "readContinuation k ls r = Inr (x, rest) \<Longrightarrow> continuationRest k r = rest" for k ls r
  proof (induction k ls r rule: readContinuation.induct)
    case (1 k ls r)
    then show ?case
      by (subst (asm) readContinuation.simps, subst continuationRest.simps)
        (auto split: sum.splits option.splits prod.splits if_splits)
  qed
  then show "ReplyScanner_Read r = Inr (x, rest) \<Longrightarrow> scannerRest r = rest"
    by (auto simp: ReplyScanner_Read_def scannerRest_def split: sum.splits option.splits prod.splits if_splits)
qed

text \<open>The bytes of one command are one line for the server.\<close>

lemma serve_command:
  assumes "verb_ok n" and "arg_ok arg" and "dispatch cfg s \<lparr>cmd_Name = n, cmd_Arg = arg\<rparr> = (s', rs, ds, None)"
  shows "serve cfg s (Command_String \<lparr>cmd_Name = n, cmd_Arg = arg\<rparr>) = (s', rs, ds)"
proof -
  let ?c = "\<lparr>cmd_Name = n, cmd_Arg = arg\<rparr>"
  obtain x where x: "Command_String ?c = x @ LF # []" and "LF \<notin> set x"
  proof
    show "Command_String ?c = (if arg = [] then n @ [CR] else n @ '' '' @ arg @ [CR]) @ LF # []"
      by (simp add: Command_String_def)
  qed (use assms(1,2) in \<open>auto simp: verb_ok_def arg_ok_def\<close>)
  then have r: "ReadString LF (Command_String ?c) = Inr (Command_String ?c, [])" by simp
  have e: "serve cfg s' [] = (s', [], [])" by (subst serve.simps) (simp add: ReadString_def)
  have l: "serveLine cfg s (Command_String ?c) = (s', rs, ds, False)"
    using assms(3) by (simp add: serveLine_def ftp_Parse_Command_String [OF command_ok_verb [OF assms(1,2)]])
  show ?thesis by (subst serve.simps) (simp add: r l e)
qed

text \<open>A command that the server answers with one reply.\<close>

lemma Do_server:
  assumes "fcl_open c" and "fcl_in c = []" and "verb_ok n" and "arg_ok arg"
    and "dispatch cfg (fcl_peer c) \<lparr>cmd_Name = n, cmd_Arg = arg\<rparr> = (s', [r], ds, None)" and "reply_ok r"
  shows "ftpc_Do (ftpServer cfg) n arg c = (c\<lparr>fcl_peer := s'\<rparr>, Inr (scanned r))"
  using assms(1,2) serve_command [OF assms(3-5)] ReplyScanner_Read_String [OF assms(6), of "[]"]
  by (simp add: ftpc_Do_def SendCommand_def ftpServer_def readReply_def)

text \<open>The texts of a configuration that are sent as replies stay on their lines.\<close>

definition texts_ok :: "'e FtpConfig \<Rightarrow> bool" where
  "texts_ok cfg \<longleftrightarrow> line_ok (fc_WelcomeMessage cfg) \<and>
     (\<forall>u p e. fc_Authenticator cfg u p = Inl e \<longrightarrow> line_ok e) \<and>
     (\<forall>u d p e. f_Resolve (fc_Filesystem cfg) u d p = Inl e \<longrightarrow> line_ok e) \<and>
     (\<forall>env u p q env' e. f_Rename (fc_Filesystem cfg) env u p q = (env', Some e) \<longrightarrow> line_ok e)"

lemma reply_ok_NewReply [simp]: "reply_ok (NewReply k t) \<longleftrightarrow> code_ok k \<and> line_ok t"
  by (simp add: reply_ok_def NewReply_def)

lemma rp_Code_scanned [simp]: "rp_Code (scanned r) = rp_Code r" "rp_Code (NewReply k t) = k"
  by (simp_all add: scanned_def NewReply_def)

lemma positiveCall_server:
  assumes "fcl_open c" and "fcl_in c = []" and "verb_ok n" and "arg_ok arg"
    and "dispatch cfg (fcl_peer c) \<lparr>cmd_Name = n, cmd_Arg = arg\<rparr> = (s', [r], ds, None)" and "reply_ok r"
  shows "positiveCall (ftpServer cfg) n arg c =
    (c\<lparr>fcl_peer := s'\<rparr>, if Positive r then Inr () else Inl (FReply (scanned r)))"
  by (simp add: positiveCall_def Do_server [OF assms] Positive_def)

lemma ftp_verbs: "verb_ok CmdUSER" "verb_ok CmdPASS" "verb_ok CmdRNFR" "verb_ok CmdRNTO"
  by (simp_all add: ftp_cmd_defs) code_simp+

text \<open>What the commands of a login and of a renaming do on the server.\<close>

lemma dispatch_login:
  "dispatch cfg s \<lparr>cmd_Name = CmdUSER, cmd_Arg = user\<rparr> = handleUSER s user"
  "dispatch cfg s \<lparr>cmd_Name = CmdPASS, cmd_Arg = pass\<rparr> = handlePASS cfg s pass"
  by (simp_all add: dispatch_def openCommands_def perform_def ftp_cmd_defs)

lemma dispatch_rename:
  assumes "s_logged s"
  shows "dispatch cfg s \<lparr>cmd_Name = CmdRNFR, cmd_Arg = arg\<rparr> = rnfr cfg s arg"
    and "dispatch cfg s \<lparr>cmd_Name = CmdRNTO, cmd_Arg = arg\<rparr> = rnto cfg s arg"
  using assms by (simp_all add: dispatch_def perform_def ftp_cmd_defs)

subsection \<open>A recording peer\<close>

text \<open>A peer that keeps every command with a flag that says whether the channel was encrypted, and answers by an arbitrary
  function of what it has received.\<close>

type_synonym recorded = "bool \<times> (bool \<times> string) list"

definition recorder :: "(recorded \<Rightarrow> string \<Rightarrow> string) \<Rightarrow> recorded control" where
  "recorder f st b = ((fst st, snd st @ [(fst st, b)]), f st b)"

text \<open>All that has been sent in the clear is one of the given commands.\<close>

definition clearOnly :: "string set \<Rightarrow> recorded \<Rightarrow> bool" where
  "clearOnly A st \<longleftrightarrow> (\<forall>(enc, b) \<in> set (snd st). enc \<or> b \<in> A)"

definition keepsSecret :: "string set \<Rightarrow> (recorded, 'a) call \<Rightarrow> bool" where
  "keepsSecret A f \<longleftrightarrow>
     (\<forall>c. fst (fcl_peer c) \<and> clearOnly A (fcl_peer c) \<longrightarrow>
        fst (fcl_peer (fst (f c))) \<and> clearOnly A (fcl_peer (fst (f c))))"

lemma readReply_peer [simp]: "fcl_peer (fst (readReply c)) = fcl_peer c"
  by (simp add: readReply_def split: sum.split prod.split)

lemma SendCommand_recorder:
  "fcl_peer (fst (SendCommand (recorder f) n a c)) =
     (if fcl_open c then (fst (fcl_peer c), snd (fcl_peer c) @ [(fst (fcl_peer c), Command_String \<lparr>cmd_Name = n, cmd_Arg = a\<rparr>)])
      else fcl_peer c)"
  by (simp add: SendCommand_def recorder_def)

lemma Do_recorder: "fcl_peer (fst (ftpc_Do (recorder f) n a c)) = fcl_peer (fst (SendCommand (recorder f) n a c))"
  by (simp add: ftpc_Do_def split: prod.split sum.split)

lemma keepsSecret_Do: "keepsSecret A (ftpc_Do (recorder f) n a)"
  by (simp add: keepsSecret_def Do_recorder SendCommand_recorder clearOnly_def)

lemma keepsSecretD:
  assumes "keepsSecret A g" and "fst (fcl_peer c)" and "clearOnly A (fcl_peer c)" and "g c = (c', r)"
  shows "fst (fcl_peer c')" and "clearOnly A (fcl_peer c')"
  using assms unfolding keepsSecret_def by (metis fst_conv)+

lemma keepsSecret_positiveCall: "keepsSecret A (positiveCall (recorder f) n a)"
  using keepsSecret_Do [of A f n a] by (auto simp: keepsSecret_def positiveCall_def split: prod.split sum.split)

lemma keepsSecret_Login: "keepsSecret A (ftpc_Login (recorder f) user pass account)"
  unfolding keepsSecret_def
proof (intro allI impI)
  fix c :: "recorded FtpClient"
  assume c: "fst (fcl_peer c) \<and> clearOnly A (fcl_peer c)"
  define u where "u = (if user = [] then ''anonymous'' else user)"
  define p where "p = (if pass = [] then ''anonymous@'' else pass)"
  obtain c1 r1 where 1: "ftpc_Do (recorder f) CmdUSER u c = (c1, r1)" by fastforce
  obtain c2 r2 where 2: "ftpc_Do (recorder f) CmdPASS p c1 = (c2, r2)" by fastforce
  obtain c3 r3 where 3: "positiveCall (recorder f) CmdACCT account c2 = (c3, r3)" by fastforce
  note s1 = keepsSecretD [OF keepsSecret_Do conjunct1 [OF c] conjunct2 [OF c] 1]
  note s2 = keepsSecretD [OF keepsSecret_Do s1 2]
  note s3 = keepsSecretD [OF keepsSecret_positiveCall s2 3]
  have "fst (ftpc_Login (recorder f) user pass account c) \<in> {c1, c2, c3}"
    unfolding ftpc_Login_def Let_def u_def [symmetric] p_def [symmetric] by (simp add: 1 2 3 split: sum.split)
  then show "fst (fcl_peer (fst (ftpc_Login (recorder f) user pass account c))) \<and>
      clearOnly A (fcl_peer (fst (ftpc_Login (recorder f) user pass account c)))" using s1 s2 s3 by auto
qed

lemma keepsSecret_calls: "keepsSecret A (ftpc_PBSZ (recorder f) n)" "keepsSecret A (ftpc_Prot (recorder f) level)"
  unfolding ftpc_PBSZ_def ftpc_Prot_def by (rule keepsSecret_positiveCall)+

text \<open>A step of \<open>Connect\<close> on an encrypted channel.\<close>

definition connectedSafely :: "string set \<Rightarrow> recorded connecting \<Rightarrow> bool" where
  "connectedSafely A m \<longleftrightarrow>
     (case m of
        (None, r) \<Rightarrow> r \<noteq> Inr ()
      | (Some c, r) \<Rightarrow> clearOnly A (fcl_peer c) \<and> (r = Inr () \<longrightarrow> fst (fcl_peer c)))"

lemma Close_recorder:
  "clearOnly A (fcl_peer c) \<Longrightarrow> fst (fcl_peer c) \<or> Command_String \<lparr>cmd_Name = CmdQUIT, cmd_Arg = []\<rparr> \<in> A \<Longrightarrow>
   clearOnly A (fcl_peer (ftpc_Close (recorder f) c))"
  by (auto simp: ftpc_Close_def SendCommand_recorder clearOnly_def)

lemma orClose_secure:
  assumes "keepsSecret A g" and "fst (fcl_peer c)" and "clearOnly A (fcl_peer c)"
    and "\<And>c. fst (fcl_peer c) \<Longrightarrow> clearOnly A (fcl_peer c) \<Longrightarrow> connectedSafely A (k c)"
  shows "connectedSafely A (orClose (recorder f) w g k c)"
proof (cases "g c")
  case (Pair c' r)
  note s = keepsSecretD [OF assms(1-3) Pair]
  show ?thesis using s assms(4) [OF s] Close_recorder [OF s(2)]
    by (cases r) (auto simp: orClose_def Pair connectedSafely_def)
qed

lemma connectedSafely_Some:
  "fst (fcl_peer c) \<Longrightarrow> clearOnly A (fcl_peer c) \<Longrightarrow> connectedSafely A (Some c, r)"
  by (simp add: connectedSafely_def)

lemma ftps_login_secure:
  "fst (fcl_peer c) \<Longrightarrow> clearOnly A (fcl_peer c) \<Longrightarrow> connectedSafely A (ftps_login (recorder f) cfg c)"
  unfolding ftps_login_def by (simp add: orClose_secure [OF keepsSecret_Login] connectedSafely_Some)

text \<open>What follows the handshake in both modes.\<close>

lemma protect_secure:
  assumes "fst (fcl_peer c)" and "clearOnly A (fcl_peer c)"
  shows "connectedSafely A
    (orClose (recorder f) w (ftpc_PBSZ (recorder f) 0)
       (orClose (recorder f) w' (ftpc_Prot (recorder f) level) (ftps_login (recorder f) cfg)) c)"
  by (intro orClose_secure keepsSecret_calls ftps_login_secure assms)

subsection \<open>Dialling the recording peer\<close>

definition plainDial :: "(string \<Rightarrow> error + string) \<Rightarrow> string \<Rightarrow> error + recorded \<times> string" where
  "plainDial g a = (case g a of Inl e \<Rightarrow> Inl e | Inr b \<Rightarrow> Inr ((False, []), b))"

definition rawDial :: "(string \<Rightarrow> error + string) \<Rightarrow> string \<Rightarrow> error + recorded" where
  "rawDial g a = (case g a of Inl e \<Rightarrow> Inl e | Inr _ \<Rightarrow> Inr (False, []))"

definition tlsUpgrade :: "(recorded \<Rightarrow> error + string) \<Rightarrow> recorded \<Rightarrow> error + recorded" where
  "tlsUpgrade h st = (case h st of Inl e \<Rightarrow> Inl e | Inr _ \<Rightarrow> Inr (True, snd st))"

definition tlsImplicit :: "(recorded \<Rightarrow> error + string) \<Rightarrow> recorded \<Rightarrow> error + recorded \<times> string" where
  "tlsImplicit h st = (case h st of Inl e \<Rightarrow> Inl e | Inr b \<Rightarrow> Inr ((True, snd st), b))"

lemma greeted_peer: "greeted d host conn = Inr c \<Longrightarrow> fcl_peer c = fst conn"
  by (auto simp: greeted_def readReply_def split: sum.splits prod.splits if_splits)

lemma New_recorder: "ftpc_New (plainDial g) d a = Inr c \<Longrightarrow> fcl_peer c = (False, [])"
  by (auto simp: ftpc_New_def plainDial_def dest!: greeted_peer split: sum.splits prod.splits if_splits)

lemma DialTLS_recorder: "ftpc_DialTLS (rawDial g) (tlsImplicit h) t d a = Inr c \<Longrightarrow> fcl_peer c = (True, [])"
  by (auto simp: ftpc_DialTLS_def rawDial_def tlsImplicit_def dest!: greeted_peer split: sum.splits prod.splits if_splits)

definition beforeTLS :: "string set" where
  "beforeTLS = {''AUTH TLS'' @ CRLF, ''QUIT'' @ CRLF}"

lemma AuthTLS_recorder:
  assumes "fcl_peer c = (False, [])" and "ftpc_AuthTLS (recorder f) (tlsUpgrade h) ''TLS'' c = (c', r)"
  shows "clearOnly beforeTLS (fcl_peer c')" and "r = Inr () \<Longrightarrow> fst (fcl_peer c')"
proof -
  obtain c1 r1 where 1: "ftpc_Do (recorder f) CmdAUTH ''TLS'' c = (c1, r1)" by fastforce
  have p: "clearOnly beforeTLS (fcl_peer c1)"
    using Do_recorder [of f CmdAUTH "''TLS''" c] assms(1) unfolding 1 SendCommand_recorder
    by (simp add: clearOnly_def beforeTLS_def Command_String_def CmdAUTH_def split: if_splits)
  then have "clearOnly beforeTLS (True, snd (fcl_peer c1))" by (simp add: clearOnly_def)
  with p assms(2) show "clearOnly beforeTLS (fcl_peer c')" and "r = Inr () \<Longrightarrow> fst (fcl_peer c')"
    by (auto simp: ftpc_AuthTLS_def 1 tlsUpgrade_def split: sum.splits if_splits)
qed

section \<open>Properties\<close>

text \<open>C9: no credentials in the clear: whatever the server answers, accepts or refuses, and whatever the outcome of the
  handshake, the only commands that \<open>Connect\<close> sends on an unencrypted channel are AUTH TLS and, after a failure,
  QUIT; in implicit mode it sends none. When it succeeds the channel is encrypted.\<close>

theorem ftps_no_cleartext:
  assumes "ftps_Connect (recorder f) (plainDial g) (rawDial g) (tlsUpgrade h) (tlsImplicit h) cfg = (Some c, r)"
  shows "clearOnly (if fs_Explicit cfg then {''AUTH TLS'' @ CRLF, ''QUIT'' @ CRLF} else {}) (fcl_peer c) \<and>
    (r = Inr () \<longrightarrow> fst (fcl_peer c))"
proof (cases "fs_Explicit cfg")
  case True
  then obtain c0 where 0: "ftpc_New (plainDial g) (fs_NoEPSV cfg) (fs_Addr cfg) = Inr c0"
    using assms by (auto simp: ftps_Connect_def Let_def split: if_splits sum.splits)
  obtain c1 r1 where 1: "ftpc_AuthTLS (recorder f) (tlsUpgrade h) ''TLS'' c0 = (c1, r1)" by fastforce
  note s = AuthTLS_recorder [OF New_recorder [OF 0] 1]
  have q: "Command_String \<lparr>cmd_Name = CmdQUIT, cmd_Arg = []\<rparr> \<in> beforeTLS"
    by (simp add: beforeTLS_def Command_String_def CmdQUIT_def)
  have "connectedSafely beforeTLS (Some c, r)"
  proof (cases r1)
    case (Inl e)
    then show ?thesis using assms True Close_recorder [OF s(1), of f] q
      by (auto simp: ftps_Connect_def Let_def 0 orClose_def 1 connectedSafely_def split: if_splits)
  next
    case (Inr u)
    then show ?thesis using assms True protect_secure [OF s(2,1)] unfolding ftps_Connect_def Let_def 0
      by (simp add: orClose_def [of _ _ "ftpc_AuthTLS (recorder f) (tlsUpgrade h) ''TLS''"] 1 split: if_splits) metis+
  qed
  then show ?thesis using True by (simp add: connectedSafely_def beforeTLS_def)
next
  case False
  then obtain c0 where 0: "ftpc_DialTLS (rawDial g) (tlsImplicit h) (fs_TLSConfig cfg) (fs_NoEPSV cfg) (fs_Addr cfg) = Inr c0"
    using assms by (auto simp: ftps_Connect_def Let_def split: if_splits sum.splits)
  have "fst (fcl_peer c0)" "clearOnly {} (fcl_peer c0)" using DialTLS_recorder [OF 0] by (simp_all add: clearOnly_def)
  from protect_secure [OF this] have "connectedSafely {} (Some c, r)"
    using assms False unfolding ftps_Connect_def Let_def 0 by (simp split: if_splits) metis+
  then show ?thesis using False by (simp add: connectedSafely_def)
qed

definition demoTLS :: ftpsConfig where
  "demoTLS =
     \<lparr>fs_TLSConfig = True, fs_Addr = ''h:21'', fs_User = ''ann'', fs_Password = ''pw'', fs_NoEPSV = False, fs_Explicit = True,
      fs_ProtectDataChannel = True\<rparr>"

theorem ftps_no_cleartext_witness:
  "\<exists>c. ftps_Connect (recorder (\<lambda>st b. (if fst st then ''230 ok'' else ''234 ok'') @ CRLF)) (plainDial (\<lambda>a. Inr (''220 hi'' @ CRLF)))
       (rawDial (\<lambda>a. Inr [])) (tlsUpgrade (\<lambda>st. Inr [])) (tlsImplicit (\<lambda>st. Inr [])) demoTLS = (Some c, Inr ()) \<and>
     clearOnly {''AUTH TLS'' @ CRLF, ''QUIT'' @ CRLF} (fcl_peer c) \<and> fst (fcl_peer c) \<and>
     (True, ''USER ann'' @ CRLF) \<in> set (snd (fcl_peer c))"
proof -
  define f :: "recorded \<Rightarrow> string \<Rightarrow> string" where "f = (\<lambda>st b. (if fst st then ''230 ok'' else ''234 ok'') @ CRLF)"
  define g :: "string \<Rightarrow> error + string" where "g = (\<lambda>a. Inr (''220 hi'' @ CRLF))"
  define h :: "recorded \<Rightarrow> error + string" where "h = (\<lambda>st. Inr [])"
  define c :: "recorded FtpClient" where
    "c = \<lparr>fcl_DisableEPSV = False, fcl_host = ''h'', fcl_features = [], fcl_in = [], fcl_open = True,
          fcl_peer = (True, [(False, ''AUTH TLS'' @ CRLF), (True, ''PBSZ 0'' @ CRLF), (True, ''PROT P'' @ CRLF), (True, ''USER ann'' @ CRLF)])\<rparr>"
  have e: "ftps_Connect (recorder f) (plainDial g) (rawDial g) (tlsUpgrade h) (tlsImplicit h) demoTLS = (Some c, Inr ())"
    unfolding f_def g_def h_def c_def by code_simp
  have r: "rawDial (\<lambda>a. Inr []) = rawDial g" by (simp add: rawDial_def g_def fun_eq_iff)
  show ?thesis using e ftps_no_cleartext [OF e] unfolding r unfolding f_def g_def h_def
    by (intro exI [of _ c]) (simp add: demoTLS_def c_def)
qed

text \<open>C12: logging in over the wire: on a fresh control channel to the server of this repository, \<open>Login\<close> succeeds
  exactly when the authenticator accepts the name and password, defaults included, and the session is then
  logged in as the user it returned, in the root directory; otherwise the client returns the server's 530
  reply with the authenticator's text and the session is logged in as nobody. Nothing is left unread.\<close>

theorem ftp_remote_login:
  assumes "fcl_open c" and "fcl_in c = []" and "texts_ok cfg" and "arg_ok user" and "arg_ok pass"
    and "u = (if user = [] then ''anonymous'' else user)" and "p = (if pass = [] then ''anonymous@'' else pass)"
  shows "ftpc_Login (ftpServer cfg) user pass account c =
    (case fc_Authenticator cfg u p of
       Inr w \<Rightarrow> (c\<lparr>fcl_peer := (fcl_peer c)\<lparr>s_user := u, s_auth := w, s_logged := True, s_cwd := ''/''\<rparr>\<rparr>, Inr ())
     | Inl e \<Rightarrow> (c\<lparr>fcl_peer := (fcl_peer c)\<lparr>s_user := u, s_auth := noUser, s_logged := False\<rparr>\<rparr>,
                Inl (FReply (scanned (NewReply 530 e)))))"
proof -
  let ?s = "(fcl_peer c)\<lparr>s_user := u, s_auth := noUser, s_logged := False\<rparr>"
  have ok: "arg_ok u" "arg_ok p" "u \<noteq> []" using assms(4-7) by (auto simp: arg_ok_def)
  have 1: "ftpc_Do (ftpServer cfg) CmdUSER u c = (c\<lparr>fcl_peer := ?s\<rparr>, Inr (scanned (NewReply CodeUserOK ''Password required'')))"
    by (rule Do_server [OF assms(1,2) ftp_verbs(1) ok(1)])
      (simp_all add: dispatch_login handleUSER_def reply1_def code_ok_def line_ok_def CodeUserOK_def)
  have 2: "ftpc_Login (ftpServer cfg) user pass account c =
      (c\<lparr>fcl_peer := s'\<rparr>, if rp_Code r = CodeLoginOK then Inr () else Inl (FReply (scanned r)))"
    if h: "handlePASS cfg ?s p = (s', [r], [], None)" and r: "reply_ok r" "rp_Code r \<in> {CodeLoginOK, 530}" for s' r
  proof -
    have "ftpc_Do (ftpServer cfg) CmdPASS p (c\<lparr>fcl_peer := ?s\<rparr>) = (c\<lparr>fcl_peer := ?s, fcl_peer := s'\<rparr>, Inr (scanned r))"
      by (rule Do_server [where ds = "[]", OF _ _ ftp_verbs(2) ok(2)]) (simp_all add: assms(1,2) dispatch_login h r)
    then show ?thesis using r(2)
      unfolding ftpc_Login_def Let_def assms(6) [symmetric] assms(7) [symmetric] 1
      by (auto simp: ftp_code_defs Positive_def)
  qed
  show ?thesis
  proof (cases "fc_Authenticator cfg u p")
    case (Inl e)
    then have "line_ok e" using assms(3) by (auto simp: texts_ok_def)
    with Inl show ?thesis using 2 [of ?s "NewReply 530 e"] ok(3)
      by (simp add: handlePASS_def reply1_def code_ok_def CodeLoginOK_def)
  next
    case (Inr w)
    let ?m = "if fc_WelcomeMessage cfg = [] then ''Login successful'' else fc_WelcomeMessage cfg"
    have "line_ok ?m" using assms(3) by (auto simp: texts_ok_def line_ok_def)
    with Inr show ?thesis using 2 [of "(fcl_peer c)\<lparr>s_user := u, s_auth := w, s_logged := True, s_cwd := ''/''\<rparr>" "NewReply CodeLoginOK ?m"] ok(3)
      by (simp add: handlePASS_def reply1_def code_ok_def CodeLoginOK_def)
  qed
qed

lemma demo_texts: "texts_ok demo"
  by (auto simp: texts_ok_def demo_def Anonymous_Authenticate_def line_ok_def osFilesystem_def fs_Resolve_def fs_Rename_def
      emptyOS_def pathError_def Let_def split: if_splits)

definition demoFtpClient :: "unit session \<Rightarrow> unit session FtpClient" where
  "demoFtpClient s = \<lparr>fcl_DisableEPSV = False, fcl_host = ''h'', fcl_features = [], fcl_in = [], fcl_open = True, fcl_peer = s\<rparr>"

theorem ftp_remote_login_witness:
  "\<exists>c. ftpc_Login (ftpServer demo) [] [] [] (demoFtpClient (newSession ())) = (c, Inr ()) \<and> s_logged (fcl_peer c)"
proof -
  have "fc_Authenticator demo ''anonymous'' ''anonymous@'' = Inr \<lparr>u_Name = ''anonymous'', u_Home = []\<rparr>" by code_simp
  with ftp_remote_login [of "demoFtpClient (newSession ())" demo "[]" "[]" _ _ "[]", OF _ _ demo_texts _ _ refl refl]
  show ?thesis by (simp add: demoFtpClient_def arg_ok_def)
qed

text \<open>C15: renaming over the wire: for a session that is logged in, the client's \<open>Rename\<close> makes the server call the
  filesystem's rename exactly once, on the two names resolved against the working directory, and succeeds exactly
  when it does; its failure comes back as the server's 550 reply with the text of the error, and a name that
  does not resolve is refused with 550 and no rename.\<close>

theorem ftp_remote_rename:
  assumes "fcl_open c" and "fcl_in c = []" and "texts_ok cfg" and "arg_ok src" and "arg_ok dst"
    and "s = fcl_peer c" and "s_logged s" and "fs = fc_Filesystem cfg"
    and "f_Resolve fs (s_auth s) (s_cwd s) src \<noteq> Inr []"
  shows "\<exists>c'. ftpc_Rename (ftpServer cfg) src dst c =
    (c', case f_Resolve fs (s_auth s) (s_cwd s) src of
           Inl e \<Rightarrow> Inl (FReply (scanned (NewReply 550 e)))
         | Inr p \<Rightarrow>
        (case f_Resolve fs (s_auth s) (s_cwd s) dst of
           Inl e \<Rightarrow> Inl (FReply (scanned (NewReply 550 e)))
         | Inr q \<Rightarrow>
        (case f_Rename fs (s_env s) (s_auth s) p q of
           (env, Some e) \<Rightarrow> Inl (FReply (scanned (NewReply 550 e)))
         | (env, None) \<Rightarrow> Inr ()))) \<and>
    fcl_in c' = [] \<and>
    s_env (fcl_peer c') =
      (case (f_Resolve fs (s_auth s) (s_cwd s) src, f_Resolve fs (s_auth s) (s_cwd s) dst) of
         (Inr p, Inr q) \<Rightarrow> fst (f_Rename fs (s_env s) (s_auth s) p q)
       | _ \<Rightarrow> s_env s)"
proof (cases "f_Resolve fs (s_auth s) (s_cwd s) src")
  case (Inl e)
  then have "line_ok e" using assms(3,8) by (auto simp: texts_ok_def)
  then have "ftpc_Do (ftpServer cfg) CmdRNFR src c = (c\<lparr>fcl_peer := s\<rparr>, Inr (scanned (NewReply 550 e)))"
    using assms(6-8) Inl
    by (intro Do_server [where ds = "[]", OF assms(1,2) ftp_verbs(3) assms(4)])
      (simp_all add: dispatch_rename rnfr_def reply1_def code_ok_def CodeFileUnavailable_def)
  then show ?thesis using assms(2) Inl by (simp add: ftpc_Rename_def CodeRequestedAction_def)
next
  case (Inr p)
  let ?s = "s\<lparr>s_renameTo := p\<rparr>" and ?c = "c\<lparr>fcl_peer := s\<lparr>s_renameTo := p\<rparr>\<rparr>"
  have 1: "ftpc_Do (ftpServer cfg) CmdRNFR src c = (?c, Inr (scanned (NewReply 350 ''RNFR accepted'')))"
    using assms(6-8) Inr
    by (intro Do_server [where ds = "[]", OF assms(1,2) ftp_verbs(3) assms(4)])
      (simp_all add: dispatch_rename rnfr_def reply1_def code_ok_def line_ok_def)
  have 2: "ftpc_Rename (ftpServer cfg) src dst c =
      (c\<lparr>fcl_peer := s'\<rparr>, if Positive r then Inr () else Inl (FReply (scanned r)))"
    if "rnto cfg ?s dst = (s', [r], [], None)" "reply_ok r" for s' r
    using positiveCall_server [of ?c CmdRNTO dst cfg s' r "[]"] that assms(1,2,5,7) ftp_verbs(4)
    by (simp add: ftpc_Rename_def 1 dispatch_rename)
  show ?thesis
  proof (cases "f_Resolve fs (s_auth s) (s_cwd s) dst")
    case (Inl e)
    then have "line_ok e" using assms(3,8) by (auto simp: texts_ok_def)
    with Inl show ?thesis using 2 [of ?s "NewReply 550 e"] assms(2,8,9) Inr
      by (simp add: rnto_def reply1_def code_ok_def CodeFileUnavailable_def Positive_def)
  next
    case q: (Inr q)
    obtain env m where m: "f_Rename fs (s_env s) (s_auth s) p q = (env, m)" by fastforce
    show ?thesis
    proof (cases m)
      case None
      then show ?thesis using 2 [of "?s\<lparr>s_env := env, s_renameTo := []\<rparr>" "NewReply 250 ''Rename ok''"] assms(2,8,9) Inr q m
        by (simp add: rnto_def reply1_def code_ok_def line_ok_def Positive_def)
    next
      case (Some e)
      then have "line_ok e" using assms(3,8) m unfolding texts_ok_def by blast
      with Some show ?thesis using 2 [of "?s\<lparr>s_env := env\<rparr>" "NewReply 550 e"] assms(2,8,9) Inr q m
        by (simp add: rnto_def reply1_def code_ok_def CodeFileUnavailable_def Positive_def)
    qed
  qed
qed

theorem ftp_remote_rename_witness:
  "\<exists>c. ftpc_Rename (ftpServer demo) ''a'' ''b'' (demoFtpClient ((newSession ())\<lparr>s_logged := True\<rparr>)) = (c, Inr ())"
proof -
  let ?s = "(newSession ())\<lparr>s_logged := True\<rparr>"
  have r: "f_Resolve (fc_Filesystem demo) (s_auth ?s) (s_cwd ?s) ''a'' = Inr ''/a''"
    "f_Resolve (fc_Filesystem demo) (s_auth ?s) (s_cwd ?s) ''b'' = Inr ''/b''"
    "f_Rename (fc_Filesystem demo) (s_env ?s) (s_auth ?s) ''/a'' ''/b'' = ((), None)" by code_simp+
  have "fcl_peer (demoFtpClient ?s) = ?s" by (simp add: demoFtpClient_def)
  from ftp_remote_rename [of "demoFtpClient ?s" demo "''a''" "''b''", OF _ _ demo_texts _ _ this [symmetric] _ refl]
  show ?thesis using r by (auto simp: demoFtpClient_def arg_ok_def)
qed

text \<open>the working directory does not come back: the scanner leaves the text of a reply empty, so \<open>Pwd\<close> returns the empty
  string without an error, in whatever directory the session is.\<close>

theorem ftp_client_Pwd_empty:
  assumes "fcl_open c" and "fcl_in c = []" and "s_logged (fcl_peer c)" and "line_ok (quote (s_cwd (fcl_peer c)))"
  shows "ftpc_Pwd (ftpServer cfg) c = (c, Inr [])"
proof -
  have v: "verb_ok CmdPWD" by (simp add: CmdPWD_def) code_simp
  have "ftpc_Do (ftpServer cfg) CmdPWD [] c =
      (c\<lparr>fcl_peer := fcl_peer c\<rparr>, Inr (scanned (NewReply CodePathCreated (quote (s_cwd (fcl_peer c))))))"
    by (rule Do_server [where ds = "[]", OF assms(1,2) v])
      (use assms(3,4) in \<open>simp_all add: arg_ok_def dispatch_def perform_def reply1_def ftp_cmd_defs CodePathCreated_def code_ok_def\<close>)
  moreover have "rp_Text (scanned r) = []" for r by (simp add: scanned_def)
  moreover have "unwrapQuoted [] = []" by code_simp
  ultimately show ?thesis by (simp add: ftpc_Pwd_def codeCall_def)
qed

text \<open>the client asks for a file before it has asked for a data connection: a session without one refuses every \<open>Retr\<close>
  whose name resolves with 425, and the client gives up.\<close>

theorem ftp_client_Retr_refused:
  assumes "fcl_open c" and "fcl_in c = []" and "arg_ok path" and "s_logged (fcl_peer c)" and "s_passive (fcl_peer c) = None"
    and "f_Resolve (fc_Filesystem cfg) (s_auth (fcl_peer c)) (s_cwd (fcl_peer c)) path = Inr target"
  shows "ftpc_Retr (ftpServer cfg) dial path c = (c, Inl (FReply (scanned (NewReply 425 ''no data channel set up''))))"
proof -
  have v: "verb_ok CmdRETR" by (simp add: CmdRETR_def) code_simp
  have "ftpc_Do (ftpServer cfg) CmdRETR path c =
      (c\<lparr>fcl_peer := fcl_peer c\<rparr>, Inr (scanned (NewReply CodeCantOpenData ''no data channel set up'')))"
    by (rule Do_server [where ds = "[]", OF assms(1,2) v assms(3)])
      (use assms(4-6) in \<open>simp_all add: dispatch_def perform_def retr_def acceptData_def reply1_def ftp_cmd_defs
        CodeCantOpenData_def code_ok_def line_ok_def\<close>)
  then show ?thesis by (simp add: ftpc_Retr_def startTransfer_def ftp_code_defs)
qed

end
