(* ===== verification/IrcNames.thy ===== *)
theory IrcNames
  imports IrcMessage
begin

text \<open>
  Files \<open>irc/irc/commands.go\<close> and \<open>irc/irc/numeric.go\<close>: the names of the commands, capabilities and
  numeric replies the server, the client and the bouncer use.
\<close>

section \<open>Definitions\<close>

subsection \<open>Commands\<close>

definition PASS :: string where "PASS = ''PASS''"
definition NICK :: string where "NICK = ''NICK''"
definition USER :: string where "USER = ''USER''"
definition OPER :: string where "OPER = ''OPER''"
definition QUIT :: string where "QUIT = ''QUIT''"
definition JOIN :: string where "JOIN = ''JOIN''"
definition PART :: string where "PART = ''PART''"
definition MODE :: string where "MODE = ''MODE''"
definition TOPIC :: string where "TOPIC = ''TOPIC''"
definition NAMES :: string where "NAMES = ''NAMES''"
definition LIST :: string where "LIST = ''LIST''"
definition INVITE :: string where "INVITE = ''INVITE''"
definition KICK :: string where "KICK = ''KICK''"
definition PRIVMSG :: string where "PRIVMSG = ''PRIVMSG''"
definition NOTICE :: string where "NOTICE = ''NOTICE''"
definition TAGMSG :: string where "TAGMSG = ''TAGMSG''"
definition MOTD :: string where "MOTD = ''MOTD''"
definition LUSERS :: string where "LUSERS = ''LUSERS''"
definition VERSION :: string where "VERSION = ''VERSION''"
definition STATS :: string where "STATS = ''STATS''"
definition TIME :: string where "TIME = ''TIME''"
definition ADMIN :: string where "ADMIN = ''ADMIN''"
definition INFO :: string where "INFO = ''INFO''"
definition WHO :: string where "WHO = ''WHO''"
definition WHOIS :: string where "WHOIS = ''WHOIS''"
definition WHOWAS :: string where "WHOWAS = ''WHOWAS''"
definition KILL :: string where "KILL = ''KILL''"
definition PING :: string where "PING = ''PING''"
definition PONG :: string where "PONG = ''PONG''"
definition ERROR :: string where "ERROR = ''ERROR''"
definition AWAY :: string where "AWAY = ''AWAY''"
definition WALLOPS :: string where "WALLOPS = ''WALLOPS''"
definition USERHOST :: string where "USERHOST = ''USERHOST''"
definition ISON :: string where "ISON = ''ISON''"
definition MONITOR :: string where "MONITOR = ''MONITOR''"
definition CAP :: string where "CAP = ''CAP''"
definition AUTHENTICATE :: string where "AUTHENTICATE = ''AUTHENTICATE''"
definition BATCH :: string where "BATCH = ''BATCH''"
definition CHATHISTORY :: string where "CHATHISTORY = ''CHATHISTORY''"
definition FAIL :: string where "FAIL = ''FAIL''"
definition SETNAME :: string where "SETNAME = ''SETNAME''"
definition CHGHOST :: string where "CHGHOST = ''CHGHOST''"
definition ACCOUNT :: string where "ACCOUNT = ''ACCOUNT''"
definition ACK :: string where "ACK = ''ACK''"

subsection \<open>Capabilities and their subcommands\<close>

definition CapLS :: string where "CapLS = ''LS''"
definition CapLIST :: string where "CapLIST = ''LIST''"
definition CapREQ :: string where "CapREQ = ''REQ''"
definition CapACK :: string where "CapACK = ''ACK''"
definition CapNAK :: string where "CapNAK = ''NAK''"
definition CapEND :: string where "CapEND = ''END''"
definition CapNEW :: string where "CapNEW = ''NEW''"
definition CapDEL :: string where "CapDEL = ''DEL''"
definition CapSASL :: string where "CapSASL = ''sasl''"
definition CapServerTime :: string where "CapServerTime = ''server-time''"
definition CapMessageTags :: string where "CapMessageTags = ''message-tags''"
definition CapBatch :: string where "CapBatch = ''batch''"
definition CapLabeledResponse :: string where "CapLabeledResponse = ''labeled-response''"
definition CapEchoMessage :: string where "CapEchoMessage = ''echo-message''"
definition CapMultiPrefix :: string where "CapMultiPrefix = ''multi-prefix''"
definition CapAwayNotify :: string where "CapAwayNotify = ''away-notify''"
definition CapExtendedJoin :: string where "CapExtendedJoin = ''extended-join''"
definition CapChghost :: string where "CapChghost = ''chghost''"
definition CapSetname :: string where "CapSetname = ''setname''"
definition CapAccountTag :: string where "CapAccountTag = ''account-tag''"
definition CapCapNotify :: string where "CapCapNotify = ''cap-notify''"
definition CapChatHistory :: string where "CapChatHistory = ''draft/chathistory''"
definition CapUserHostInNames :: string where "CapUserHostInNames = ''userhost-in-names''"
definition CapInviteNotify :: string where "CapInviteNotify = ''invite-notify''"
definition CapAccountNotify :: string where "CapAccountNotify = ''account-notify''"
definition CapNoImplicitNames :: string where "CapNoImplicitNames = ''no-implicit-names''"
definition CapStandardReplies :: string where "CapStandardReplies = ''standard-replies''"
definition CapExtendedMonitor :: string where "CapExtendedMonitor = ''extended-monitor''"
definition CapSTS :: string where "CapSTS = ''sts''"

subsection \<open>Numeric replies\<close>

type_synonym Numeric = int

text \<open>The verb \<open>%03d\<close>: at least three digits.\<close>

definition Numeric_String :: "Numeric \<Rightarrow> string" where
  "Numeric_String n = (let s = show_int n in replicate (3 - length s) (CHR ''0'') @ s)"

definition RPL_WELCOME :: Numeric where "RPL_WELCOME = 1"
definition RPL_YOURHOST :: Numeric where "RPL_YOURHOST = 2"
definition RPL_CREATED :: Numeric where "RPL_CREATED = 3"
definition RPL_MYINFO :: Numeric where "RPL_MYINFO = 4"
definition RPL_ISUPPORT :: Numeric where "RPL_ISUPPORT = 5"
definition RPL_ENDOFSTATS :: Numeric where "RPL_ENDOFSTATS = 219"
definition RPL_UMODEIS :: Numeric where "RPL_UMODEIS = 221"
definition RPL_STATSUPTIME :: Numeric where "RPL_STATSUPTIME = 242"
definition RPL_LUSERCLIENT :: Numeric where "RPL_LUSERCLIENT = 251"
definition RPL_LUSERCHANNELS :: Numeric where "RPL_LUSERCHANNELS = 254"
definition RPL_LUSERME :: Numeric where "RPL_LUSERME = 255"
definition RPL_ADMINME :: Numeric where "RPL_ADMINME = 256"
definition RPL_ADMINLOC1 :: Numeric where "RPL_ADMINLOC1 = 257"
definition RPL_ADMINLOC2 :: Numeric where "RPL_ADMINLOC2 = 258"
definition RPL_ADMINEMAIL :: Numeric where "RPL_ADMINEMAIL = 259"
definition RPL_AWAY :: Numeric where "RPL_AWAY = 301"
definition RPL_USERHOST :: Numeric where "RPL_USERHOST = 302"
definition RPL_ISON :: Numeric where "RPL_ISON = 303"
definition RPL_UNAWAY :: Numeric where "RPL_UNAWAY = 305"
definition RPL_NOWAWAY :: Numeric where "RPL_NOWAWAY = 306"
definition RPL_WHOISUSER :: Numeric where "RPL_WHOISUSER = 311"
definition RPL_WHOISSERVER :: Numeric where "RPL_WHOISSERVER = 312"
definition RPL_WHOISOPERATOR :: Numeric where "RPL_WHOISOPERATOR = 313"
definition RPL_WHOWASUSER :: Numeric where "RPL_WHOWASUSER = 314"
definition RPL_ENDOFWHO :: Numeric where "RPL_ENDOFWHO = 315"
definition RPL_WHOISIDLE :: Numeric where "RPL_WHOISIDLE = 317"
definition RPL_ENDOFWHOIS :: Numeric where "RPL_ENDOFWHOIS = 318"
definition RPL_WHOISCHANNELS :: Numeric where "RPL_WHOISCHANNELS = 319"
definition RPL_LISTSTART :: Numeric where "RPL_LISTSTART = 321"
definition RPL_LIST :: Numeric where "RPL_LIST = 322"
definition RPL_LISTEND :: Numeric where "RPL_LISTEND = 323"
definition RPL_CHANNELMODEIS :: Numeric where "RPL_CHANNELMODEIS = 324"
definition RPL_CREATIONTIME :: Numeric where "RPL_CREATIONTIME = 329"
definition RPL_WHOISACCOUNT :: Numeric where "RPL_WHOISACCOUNT = 330"
definition RPL_NOTOPIC :: Numeric where "RPL_NOTOPIC = 331"
definition RPL_TOPIC :: Numeric where "RPL_TOPIC = 332"
definition RPL_TOPICWHOTIME :: Numeric where "RPL_TOPICWHOTIME = 333"
definition RPL_INVITING :: Numeric where "RPL_INVITING = 341"
definition RPL_VERSION :: Numeric where "RPL_VERSION = 351"
definition RPL_WHOREPLY :: Numeric where "RPL_WHOREPLY = 352"
definition RPL_NAMREPLY :: Numeric where "RPL_NAMREPLY = 353"
definition RPL_ENDOFNAMES :: Numeric where "RPL_ENDOFNAMES = 366"
definition RPL_BANLIST :: Numeric where "RPL_BANLIST = 367"
definition RPL_ENDOFBANLIST :: Numeric where "RPL_ENDOFBANLIST = 368"
definition RPL_ENDOFWHOWAS :: Numeric where "RPL_ENDOFWHOWAS = 369"
definition RPL_INFO :: Numeric where "RPL_INFO = 371"
definition RPL_MOTD :: Numeric where "RPL_MOTD = 372"
definition RPL_ENDOFINFO :: Numeric where "RPL_ENDOFINFO = 374"
definition RPL_MOTDSTART :: Numeric where "RPL_MOTDSTART = 375"
definition RPL_ENDOFMOTD :: Numeric where "RPL_ENDOFMOTD = 376"
definition RPL_YOUROPER :: Numeric where "RPL_YOUROPER = 381"
definition RPL_TIME :: Numeric where "RPL_TIME = 391"
definition ERR_NOSUCHNICK :: Numeric where "ERR_NOSUCHNICK = 401"
definition ERR_NOSUCHCHANNEL :: Numeric where "ERR_NOSUCHCHANNEL = 403"
definition ERR_CANNOTSENDTOCHAN :: Numeric where "ERR_CANNOTSENDTOCHAN = 404"
definition ERR_WASNOSUCHNICK :: Numeric where "ERR_WASNOSUCHNICK = 406"
definition ERR_INVALIDCAPCMD :: Numeric where "ERR_INVALIDCAPCMD = 410"
definition ERR_NORECIPIENT :: Numeric where "ERR_NORECIPIENT = 411"
definition ERR_INPUTTOOLONG :: Numeric where "ERR_INPUTTOOLONG = 417"
definition ERR_UNKNOWNCOMMAND :: Numeric where "ERR_UNKNOWNCOMMAND = 421"
definition ERR_NOMOTD :: Numeric where "ERR_NOMOTD = 422"
definition ERR_NONICKNAMEGIVEN :: Numeric where "ERR_NONICKNAMEGIVEN = 431"
definition ERR_ERRONEUSNICKNAME :: Numeric where "ERR_ERRONEUSNICKNAME = 432"
definition ERR_NICKNAMEINUSE :: Numeric where "ERR_NICKNAMEINUSE = 433"
definition ERR_USERNOTINCHANNEL :: Numeric where "ERR_USERNOTINCHANNEL = 441"
definition ERR_NOTONCHANNEL :: Numeric where "ERR_NOTONCHANNEL = 442"
definition ERR_NOTREGISTERED :: Numeric where "ERR_NOTREGISTERED = 451"
definition ERR_NEEDMOREPARAMS :: Numeric where "ERR_NEEDMOREPARAMS = 461"
definition ERR_ALREADYREGISTRED :: Numeric where "ERR_ALREADYREGISTRED = 462"
definition ERR_PASSWDMISMATCH :: Numeric where "ERR_PASSWDMISMATCH = 464"
definition ERR_CHANNELISFULL :: Numeric where "ERR_CHANNELISFULL = 471"
definition ERR_INVITEONLYCHAN :: Numeric where "ERR_INVITEONLYCHAN = 473"
definition ERR_BADCHANNELKEY :: Numeric where "ERR_BADCHANNELKEY = 475"
definition ERR_NOPRIVILEGES :: Numeric where "ERR_NOPRIVILEGES = 481"
definition ERR_CHANOPRIVSNEEDED :: Numeric where "ERR_CHANOPRIVSNEEDED = 482"
definition ERR_USERSDONTMATCH :: Numeric where "ERR_USERSDONTMATCH = 502"
definition RPL_LOGGEDIN :: Numeric where "RPL_LOGGEDIN = 900"
definition RPL_SASLSUCCESS :: Numeric where "RPL_SASLSUCCESS = 903"
definition ERR_SASLFAIL :: Numeric where "ERR_SASLFAIL = 904"
definition ERR_SASLTOOLONG :: Numeric where "ERR_SASLTOOLONG = 905"
definition ERR_SASLABORTED :: Numeric where "ERR_SASLABORTED = 906"
definition ERR_SASLALREADY :: Numeric where "ERR_SASLALREADY = 907"
definition RPL_SASLMECHS :: Numeric where "RPL_SASLMECHS = 908"
definition RPL_MONONLINE :: Numeric where "RPL_MONONLINE = 730"
definition RPL_MONOFFLINE :: Numeric where "RPL_MONOFFLINE = 731"
definition RPL_MONLIST :: Numeric where "RPL_MONLIST = 732"
definition RPL_ENDOFMONLIST :: Numeric where "RPL_ENDOFMONLIST = 733"
definition ERR_MONLISTFULL :: Numeric where "ERR_MONLISTFULL = 734"

section \<open>Bundles\<close>

lemmas irc_cmd_defs =
  PASS_def NICK_def USER_def OPER_def QUIT_def JOIN_def PART_def MODE_def TOPIC_def NAMES_def LIST_def
  INVITE_def KICK_def PRIVMSG_def NOTICE_def TAGMSG_def MOTD_def LUSERS_def VERSION_def STATS_def
  TIME_def ADMIN_def INFO_def WHO_def WHOIS_def WHOWAS_def KILL_def PING_def PONG_def ERROR_def AWAY_def
  WALLOPS_def USERHOST_def ISON_def MONITOR_def CAP_def AUTHENTICATE_def BATCH_def CHATHISTORY_def
  FAIL_def SETNAME_def CHGHOST_def ACCOUNT_def ACK_def

lemmas irc_cap_defs =
  CapLS_def CapLIST_def CapREQ_def CapACK_def CapNAK_def CapEND_def CapNEW_def CapDEL_def CapSASL_def
  CapServerTime_def CapMessageTags_def CapBatch_def CapLabeledResponse_def CapEchoMessage_def
  CapMultiPrefix_def CapAwayNotify_def CapExtendedJoin_def CapChghost_def CapSetname_def
  CapAccountTag_def CapCapNotify_def CapChatHistory_def CapUserHostInNames_def CapInviteNotify_def
  CapAccountNotify_def CapNoImplicitNames_def CapStandardReplies_def CapExtendedMonitor_def CapSTS_def

lemmas irc_num_defs =
  RPL_WELCOME_def RPL_YOURHOST_def RPL_CREATED_def RPL_MYINFO_def RPL_ISUPPORT_def RPL_ENDOFSTATS_def
  RPL_UMODEIS_def RPL_STATSUPTIME_def RPL_LUSERCLIENT_def RPL_LUSERCHANNELS_def RPL_LUSERME_def
  RPL_ADMINME_def RPL_ADMINLOC1_def RPL_ADMINLOC2_def RPL_ADMINEMAIL_def RPL_AWAY_def RPL_USERHOST_def
  RPL_ISON_def RPL_UNAWAY_def RPL_NOWAWAY_def RPL_WHOISUSER_def RPL_WHOISSERVER_def
  RPL_WHOISOPERATOR_def RPL_WHOWASUSER_def RPL_ENDOFWHO_def RPL_WHOISIDLE_def RPL_ENDOFWHOIS_def
  RPL_WHOISCHANNELS_def RPL_LISTSTART_def RPL_LIST_def RPL_LISTEND_def RPL_CHANNELMODEIS_def
  RPL_CREATIONTIME_def RPL_WHOISACCOUNT_def RPL_NOTOPIC_def RPL_TOPIC_def RPL_TOPICWHOTIME_def
  RPL_INVITING_def RPL_VERSION_def RPL_WHOREPLY_def RPL_NAMREPLY_def RPL_ENDOFNAMES_def RPL_BANLIST_def
  RPL_ENDOFBANLIST_def RPL_ENDOFWHOWAS_def RPL_INFO_def RPL_MOTD_def RPL_ENDOFINFO_def RPL_MOTDSTART_def
  RPL_ENDOFMOTD_def RPL_YOUROPER_def RPL_TIME_def ERR_NOSUCHNICK_def ERR_NOSUCHCHANNEL_def
  ERR_CANNOTSENDTOCHAN_def ERR_WASNOSUCHNICK_def ERR_INVALIDCAPCMD_def ERR_NORECIPIENT_def
  ERR_INPUTTOOLONG_def ERR_UNKNOWNCOMMAND_def ERR_NOMOTD_def ERR_NONICKNAMEGIVEN_def
  ERR_ERRONEUSNICKNAME_def ERR_NICKNAMEINUSE_def ERR_USERNOTINCHANNEL_def ERR_NOTONCHANNEL_def
  ERR_NOTREGISTERED_def ERR_NEEDMOREPARAMS_def ERR_ALREADYREGISTRED_def ERR_PASSWDMISMATCH_def
  ERR_CHANNELISFULL_def ERR_INVITEONLYCHAN_def ERR_BADCHANNELKEY_def ERR_NOPRIVILEGES_def
  ERR_CHANOPRIVSNEEDED_def ERR_USERSDONTMATCH_def RPL_LOGGEDIN_def RPL_SASLSUCCESS_def ERR_SASLFAIL_def
  ERR_SASLTOOLONG_def ERR_SASLABORTED_def ERR_SASLALREADY_def RPL_SASLMECHS_def RPL_MONONLINE_def
  RPL_MONOFFLINE_def RPL_MONLIST_def RPL_ENDOFMONLIST_def ERR_MONLISTFULL_def

end
