(* ===== verification/IrcServer.thy ===== *)
theory IrcServer
  imports IrcNames IrcMode IrcHistory GoText
begin

text \<open>
  File \<open>irc/server/server.go\<close>: sessions with their outgoing queue, the registry of nicknames, channels,
  the channel registry, and the server with its configuration.

  \<^item> A \<open>*Session\<close> is a number; the record behind it is looked up in the field \<open>heap\<close> of the server, so
    that the registry, the channels and the running connection share one session.
  \<^item> Every operation maps the server before it to the server after it. Successive calls of \<open>time.Now\<close>
    and \<open>rand.Text\<close> read successive elements of two sequences of the environment.
  \<^item> The mutexes are not modelled: one call of \<open>dispatchCommand\<close>, one accepted connection and one
    disconnection is a step, and steps of different sessions interleave freely.
  \<^item> A write to a connection that is open succeeds, and one to a closed connection fails.
  \<^item> Go maps are association lists in iteration order. The time formats, \<open>time.Parse\<close> and bcrypt are
    parameters.
\<close>

section \<open>Definitions\<close>

type_synonym sid = nat

datatype SessionState = StatePreReg | StateCapNeg | StateRegistered

type_synonym historyEntry = Entry

definition chatHistoryLimit :: nat where
  "chatHistoryLimit = 50"

definition maxQueuedOutput :: int where
  "maxQueuedOutput = 16 * 2 ^ 20"

text \<open>An item of the queue: a line, or an empty line with a channel that is closed once it is reached.\<close>

record outbound =
  ob_line :: string
  ob_done :: bool

text \<open>The connection side of a session: the queue, its size, whether lines go through it, what was
  written, and whether the connection is closed and the writer has stopped.\<close>

record Conn =
  writeQueue :: "outbound list"
  writeBytes :: int
  asyncWrite :: bool
  written :: "string list"
  conn_closed :: bool
  writerDone :: bool

definition newConn :: Conn where
  "newConn = \<lparr>writeQueue = [], writeBytes = 0, asyncWrite = False, written = [], conn_closed = False, writerDone = False\<rparr>"

text \<open>The capture of a labelled response; \<open>None\<close> is the nil slice of no capture.\<close>

record responseState =
  rs_label :: string
  rs_messages :: "Message list option"
  rs_immediate :: "Message list"

definition noResponse :: responseState where
  "noResponse = \<lparr>rs_label = [], rs_messages = None, rs_immediate = []\<rparr>"

record Session =
  s_conn :: Conn
  s_response :: responseState
  captureImmediate :: bool
  s_nick :: string
  s_user :: string
  s_host :: string
  s_realname :: string
  s_account :: string
  s_away :: string
  s_secure :: bool
  s_serverName :: string
  s_modes :: Set
  s_caps :: "(string \<times> bool) list"
  s_history :: "(string \<times> historyEntry list) list"
  s_state :: SessionState
  s_monitor :: "(string \<times> string) list"
  s_capVersion :: int
  s_saslActive :: bool
  s_saslBuffer :: string
  s_idleAt :: time
  s_signOnAt :: time
  s_isOper :: bool

definition newSession0 :: "string \<Rightarrow> time \<Rightarrow> time \<Rightarrow> Session" where
  "newSession0 host idle signon =
     \<lparr>s_conn = newConn, s_response = noResponse, captureImmediate = False, s_nick = [], s_user = [], s_host = host,
      s_realname = [], s_account = [], s_away = [], s_secure = False, s_serverName = [], s_modes = mode_New,
      s_caps = [], s_history = [], s_state = StatePreReg, s_monitor = [], s_capVersion = 0, s_saslActive = False,
      s_saslBuffer = [], s_idleAt = idle, s_signOnAt = signon, s_isOper = False\<rparr>"

record Membership =
  m_Session :: sid
  m_Prefix :: string

record Channel =
  ch_name :: string
  ch_topic :: string
  ch_topicSetBy :: string
  ch_topicSetAt :: time
  ch_modes :: Set
  ch_createdAt :: time
  ch_members :: "(string \<times> Membership) list"
  ch_history :: "historyEntry list"

record Account =
  a_Name :: string
  a_PasswordHash :: string
  a_Host :: string

record STSConfig =
  sts_Port :: int
  sts_Duration :: int
  sts_Preload :: bool
  sts_Hostnames :: "string list"

text \<open>The TLS configuration matters only by being there.\<close>

record IrcConfig =
  c_Name :: string
  c_Network :: string
  c_Listen :: string
  c_TLSListen :: string
  c_TLSConfig :: bool
  c_MOTD :: string
  c_MaxClients :: int
  c_Password :: string
  c_Opers :: "(string \<times> string) list"
  c_Accounts :: "(string \<times> Account) list"
  c_STS :: "STSConfig option"
  c_PingInterval :: int
  c_PingTimeout :: int

record whowasEntry =
  w_nick :: string
  w_user :: string
  w_host :: string
  w_realname :: string
  w_quitAt :: time

text \<open>The code outside: \<open>bcrypt\<close>, and formatting and parsing of times by layout.\<close>

record Ext =
  x_bcrypt :: "string \<Rightarrow> string \<Rightarrow> bool"
  x_cost :: "string \<Rightarrow> int option"
  x_generate :: "string \<Rightarrow> int \<Rightarrow> string"
  x_format :: "string \<Rightarrow> time \<Rightarrow> string"
  x_parse :: "string \<Rightarrow> string \<Rightarrow> time option"
  x_clock :: "nat \<Rightarrow> time"
  x_random :: "nat \<Rightarrow> string"

record Server =
  cfg :: IrcConfig
  ext :: Ext
  sessions :: "(string \<times> sid) list"
  channels :: "(string \<times> Channel) list"
  accounts :: "(string \<times> Account) list"
  dummyPasswordHash :: string
  clientsTotal :: int
  clientsCurrent :: int
  whowas :: "whowasEntry list"
  heap :: "sid \<Rightarrow> Session"
  live :: "sid list"
  nextSid :: sid
  calls :: nat

subsection \<open>The environment\<close>

definition timeNow :: "Server \<Rightarrow> time \<times> Server" where
  "timeNow srv = (x_clock (ext srv) (calls srv), srv\<lparr>calls := Suc (calls srv)\<rparr>)"

definition randText :: "Server \<Rightarrow> string \<times> Server" where
  "randText srv = (x_random (ext srv) (calls srv), srv\<lparr>calls := Suc (calls srv)\<rparr>)"

definition ServerTimeLayout :: string where
  "ServerTimeLayout = ''2006-01-02T15:04:05.000Z''"

definition serverTime :: "Server \<Rightarrow> time \<Rightarrow> string" where
  "serverTime srv t = x_format (ext srv) ServerTimeLayout t"

definition unix :: "time \<Rightarrow> int" where
  "unix t = t div 10 ^ 9"

definition updS :: "sid \<Rightarrow> (Session \<Rightarrow> Session) \<Rightarrow> Server \<Rightarrow> Server" where
  "updS i f srv = srv\<lparr>heap := (heap srv)(i := f (heap srv i))\<rparr>"

definition updCh :: "string \<Rightarrow> (Channel \<Rightarrow> Channel) \<Rightarrow> Server \<Rightarrow> Server" where
  "updCh key f srv =
     (case map_of (channels srv) key of
        None \<Rightarrow> srv
      | Some ch \<Rightarrow> srv\<lparr>channels := AList.update key (f ch) (channels srv)\<rparr>)"

subsection \<open>Sessions\<close>

text \<open>Keeping the last entries of a history.\<close>

definition boundHistory :: "historyEntry list \<Rightarrow> historyEntry list" where
  "boundHistory es = (if length es > chatHistoryLimit then drop (length es - chatHistoryLimit) es else es)"

definition Session_appendHistory :: "string \<Rightarrow> time \<Rightarrow> Message \<Rightarrow> Session \<Rightarrow> Session" where
  "Session_appendHistory target at msg s =
     (let key = ToLower target;
          old = (case map_of (s_history s) key of None \<Rightarrow> [] | Some es \<Rightarrow> es)
      in s\<lparr>s_history := AList.update key (boundHistory (old @ [\<lparr>Time = at, Msg = Clone msg\<rparr>])) (s_history s)\<rparr>)"

definition Session_historySnapshot :: "Session \<Rightarrow> string \<Rightarrow> historyEntry list" where
  "Session_historySnapshot s target =
     (case map_of (s_history s) (ToLower target) of None \<Rightarrow> [] | Some es \<Rightarrow> es)"

definition historyTargets :: "Session \<Rightarrow> (string \<times> historyEntry list) list" where
  "historyTargets s = s_history s"

definition Session_Prefix :: "Session \<Rightarrow> Prefix" where
  "Session_Prefix s = \<lparr>Nick = s_nick s, User = s_user s, Host = s_host s\<rparr>"

definition Session_mask :: "Session \<Rightarrow> string" where
  "Session_mask s = Prefix_String (Some (Session_Prefix s))"

definition capEnabled :: "Session \<Rightarrow> string \<Rightarrow> bool" where
  "capEnabled s c \<longleftrightarrow> map_of (s_caps s) c = Some True"

definition isMonitoring :: "Session \<Rightarrow> string \<Rightarrow> bool" where
  "isMonitoring s nick \<longleftrightarrow> map_of (s_monitor s) (ToLower nick) \<noteq> None"

definition monitorSnapshot :: "Session \<Rightarrow> string list" where
  "monitorSnapshot s = map snd (s_monitor s)"

subsection \<open>The outgoing queue\<close>

definition enqueue :: "outbound \<Rightarrow> Conn \<Rightarrow> Conn" where
  "enqueue item c =
     (if writeBytes c + int (length (ob_line item)) > maxQueuedOutput then c\<lparr>conn_closed := True\<rparr>
      else c\<lparr>writeQueue := writeQueue c @ [item], writeBytes := writeBytes c + int (length (ob_line item))\<rparr>)"

text \<open>One item of \<open>writerLoop\<close>; the loop returns after a failed write.\<close>

definition writerStep :: "Conn \<Rightarrow> Conn" where
  "writerStep c =
     (if writerDone c then c
      else case writeQueue c of
        [] \<Rightarrow> c
      | item # q \<Rightarrow>
          (let c = c\<lparr>writeQueue := q, writeBytes := writeBytes c - int (length (ob_line item))\<rparr>
           in if ob_line item \<noteq> [] then
                (if conn_closed c then c\<lparr>writerDone := True\<rparr> else c\<lparr>written := written c @ [ob_line item]\<rparr>)
              else c))"

text \<open>\<open>flush\<close> waits until the writer has reached the item it queues, or has stopped.\<close>

definition flush :: "Conn \<Rightarrow> Conn" where
  "flush c =
     (if \<not> asyncWrite c then c
      else let c = enqueue \<lparr>ob_line = [], ob_done = True\<rparr> c in (writerStep ^^ length (writeQueue c)) c)"

definition conn_Close :: "Conn \<Rightarrow> Conn" where
  "conn_Close c = c\<lparr>conn_closed := True\<rparr>"

text \<open>The synchronous write of a session whose writer does not run.\<close>

definition conn_Write :: "string \<Rightarrow> Conn \<Rightarrow> Conn" where
  "conn_Write line c = (if conn_closed c then c else c\<lparr>written := written c @ [line]\<rparr>)"

definition sendLine :: "string \<Rightarrow> Conn \<Rightarrow> Conn" where
  "sendLine line c = (if asyncWrite c then enqueue \<lparr>ob_line = line, ob_done = False\<rparr> c else conn_Write line c)"


subsection \<open>Sending\<close>

definition message :: "Prefix option \<Rightarrow> string \<Rightarrow> string list \<Rightarrow> Message" where
  "message p cmd params = \<lparr>msg_Tags = [], msg_Prefix = p, Command = cmd, Params = params\<rparr>"

definition serverPrefix :: "Server \<Rightarrow> Prefix option" where
  "serverPrefix srv = Some \<lparr>Nick = c_Name (cfg srv), User = [], Host = []\<rparr>"

definition Registry_Get :: "(string \<times> sid) list \<Rightarrow> string \<Rightarrow> sid option" where
  "Registry_Get r nick = map_of r (ToLower nick)"

text \<open>The capability a tag needs.\<close>

definition tagCap :: "string \<Rightarrow> string" where
  "tagCap tag =
     (if tag = ''time'' then CapServerTime else if tag = ''batch'' then CapBatch
      else if tag = ''account'' then CapAccountTag else if tag = ''label'' then CapLabeledResponse
      else if tag = ''draft/chathistory-end'' then CapChatHistory else CapMessageTags)"

text \<open>The two tags \<open>Send\<close> adds, when the session has the capability and the message not the tag.\<close>

definition addTime :: "Session \<Rightarrow> Tags \<Rightarrow> Server \<Rightarrow> Tags \<times> Server" where
  "addTime s tags srv =
     (if capEnabled s CapServerTime \<and> map_of tags ''time'' = None
      then (case timeNow srv of (t, srv) \<Rightarrow> (AList.update ''time'' (serverTime srv t) tags, srv))
      else (tags, srv))"

definition addAccount :: "Server \<Rightarrow> Session \<Rightarrow> Prefix option \<Rightarrow> Tags \<Rightarrow> Tags" where
  "addAccount srv s q tags =
     (case q of
        None \<Rightarrow> tags
      | Some p \<Rightarrow>
          if capEnabled s CapAccountTag \<and> User p \<noteq> [] then
            (case Registry_Get (sessions srv) (Nick p) of
               None \<Rightarrow> tags
             | Some source \<Rightarrow>
                 (let account = s_account (heap srv source)
                  in if account \<noteq> [] \<and> map_of tags ''account'' = None then AList.update ''account'' account tags else tags))
          else tags)"

definition visibleTags :: "Session \<Rightarrow> Tags \<Rightarrow> Tags" where
  "visibleTags s tags = filter (\<lambda>(tag, v). capEnabled s (tagCap tag)) tags"

text \<open>The message as the session sees it.\<close>

definition prepare :: "sid \<Rightarrow> Message \<Rightarrow> Server \<Rightarrow> Message \<times> Server" where
  "prepare i msg srv =
     (let s = heap srv i
      in if msg_Tags msg \<noteq> [] \<or> capEnabled s CapServerTime \<or> capEnabled s CapAccountTag then
           (case addTime s (msg_Tags msg) srv of (tags, srv') \<Rightarrow>
              (msg\<lparr>msg_Tags := visibleTags s (addAccount srv s (msg_Prefix msg) tags)\<rparr>, srv'))
         else (msg, srv))"

text \<open>A message goes to the captured response, if one is open, or to the connection.\<close>

definition deliver :: "Message \<Rightarrow> Session \<Rightarrow> Session" where
  "deliver out s =
     (case rs_messages (s_response s) of
        Some ms \<Rightarrow>
          (if captureImmediate s
           then s\<lparr>s_response := (s_response s)\<lparr>rs_immediate := rs_immediate (s_response s) @ [Clone out]\<rparr>\<rparr>
           else s\<lparr>s_response := (s_response s)\<lparr>rs_messages := Some (ms @ [Clone out])\<rparr>\<rparr>)
      | None \<Rightarrow> s\<lparr>s_conn := sendLine (Message_String out @ CRLF) (s_conn s)\<rparr>)"

definition Send :: "sid \<Rightarrow> Message \<Rightarrow> Server \<Rightarrow> Server" where
  "Send i msg srv =
     (if Command msg = TAGMSG \<and> \<not> capEnabled (heap srv i) CapMessageTags then srv
      else case prepare i msg srv of (out, srv) \<Rightarrow> updS i (deliver out) srv)"

definition sendImmediate :: "sid \<Rightarrow> Message \<Rightarrow> Server \<Rightarrow> Server" where
  "sendImmediate i msg srv =
     updS i (\<lambda>s. s\<lparr>captureImmediate := False\<rparr>) (Send i msg (updS i (\<lambda>s. s\<lparr>captureImmediate := True\<rparr>) srv))"

definition Sendf :: "sid \<Rightarrow> string \<Rightarrow> string list \<Rightarrow> Server \<Rightarrow> Server" where
  "Sendf i cmd params srv = Send i (message None cmd params) srv"

definition nickOrStar :: "Session \<Rightarrow> string" where
  "nickOrStar s = (if s_nick s = [] then ''*'' else s_nick s)"

definition SendNumeric :: "sid \<Rightarrow> Numeric \<Rightarrow> string list \<Rightarrow> Server \<Rightarrow> Server" where
  "SendNumeric i n params srv =
     Send i (message (serverPrefix srv) (Numeric_String n) (nickOrStar (heap srv i) # params)) srv"

subsection \<open>Labelled responses\<close>

definition beginResponse :: "string \<Rightarrow> Session \<Rightarrow> Session" where
  "beginResponse label s = s\<lparr>s_response := \<lparr>rs_label = label, rs_messages = Some [], rs_immediate = []\<rparr>\<rparr>"

definition suspendResponse :: "Session \<Rightarrow> responseState \<times> Session" where
  "suspendResponse s = (s_response s, s\<lparr>s_response := noResponse\<rparr>)"

definition resumeResponse :: "responseState \<Rightarrow> Session \<Rightarrow> Session" where
  "resumeResponse st s = s\<lparr>s_response := st\<rparr>"

definition responseMessage :: "sid \<Rightarrow> Message \<Rightarrow> Server \<Rightarrow> Message \<times> Server" where
  "responseMessage i msg srv =
     (if \<not> capEnabled (heap srv i) CapServerTime then (msg, srv)
      else case timeNow srv of (t, srv) \<Rightarrow>
             (msg\<lparr>msg_Tags := AList.update ''time'' (serverTime srv t) (msg_Tags msg)\<rparr>, srv))"

definition cloneTags :: "Tags \<Rightarrow> Tags" where
  "cloneTags tags = tags"

definition putTag :: "string \<Rightarrow> string \<Rightarrow> Message \<Rightarrow> Message" where
  "putTag tag v msg = msg\<lparr>msg_Tags := AList.update tag v (cloneTags (msg_Tags msg))\<rparr>"

definition finishResponse :: "sid \<Rightarrow> Server \<Rightarrow> Message list \<times> Server" where
  "finishResponse i srv =
     (let st = s_response (heap srv i); label = rs_label st; immediate = rs_immediate st;
          messages = (case rs_messages st of None \<Rightarrow> [] | Some ms \<Rightarrow> ms);
          srv = updS i (\<lambda>s. s\<lparr>s_response := noResponse\<rparr>) srv
      in case messages of
           [] \<Rightarrow>
             (case responseMessage i (putTag ''label'' label (message (serverPrefix srv) ACK [])) srv of (m, srv) \<Rightarrow>
                (immediate @ [m], srv))
         | m # ms \<Rightarrow>
             if ms = [] then (immediate @ [putTag ''label'' label m], srv)
             else if Command m = BATCH \<and> HasPrefix (Param m 0) ''+''
             then (immediate @ putTag ''label'' label m # ms, srv)
             else
               (case randText srv of (batchID, srv) \<Rightarrow>
               (case responseMessage i (putTag ''label'' label
                       (message (serverPrefix srv) BATCH [''+'' @ batchID, ''labeled-response''])) srv of (start, srv) \<Rightarrow>
               (case responseMessage i (message (serverPrefix srv) BATCH [''-'' @ batchID]) srv of (stop, srv) \<Rightarrow>
                  (immediate @ [start] @ map (putTag ''batch'' batchID) messages @ [stop], srv)))))"

definition sendPrepared :: "sid \<Rightarrow> Message list \<Rightarrow> Server \<Rightarrow> Server" where
  "sendPrepared i messages srv =
     updS i (\<lambda>s. s\<lparr>s_conn := fold (\<lambda>m. sendLine (Message_String m @ CRLF)) messages (s_conn s)\<rparr>) srv"

subsection \<open>The registry of nicknames\<close>

definition Registry_Add :: "(string \<times> sid) list \<Rightarrow> string \<Rightarrow> sid \<Rightarrow> (string \<times> sid) list result" where
  "Registry_Add r nick i =
     (if map_of r (ToLower nick) \<noteq> None then Inl (Errorf (''nick '' @ quote nick @ '' already in use''))
      else Inr (AList.update (ToLower nick) i r))"

definition Registry_Remove :: "(string \<times> sid) list \<Rightarrow> string \<Rightarrow> (string \<times> sid) list" where
  "Registry_Remove r nick = AList.delete (ToLower nick) r"

definition Registry_Rename :: "(string \<times> sid) list \<Rightarrow> string \<Rightarrow> string \<Rightarrow> (string \<times> sid) list result" where
  "Registry_Rename r oldNick newNick =
     (let oldKey = ToLower oldNick; newKey = ToLower newNick
      in if oldKey = newKey then Inr r
         else case map_of r oldKey of
                None \<Rightarrow> Inl (Errorf (''nick '' @ quote oldNick @ '' not found''))
              | Some i \<Rightarrow>
                  if map_of r newKey \<noteq> None then Inl (Errorf (''nick '' @ quote newNick @ '' already in use''))
                  else Inr (AList.update newKey i (AList.delete oldKey r)))"

definition Registry_All :: "(string \<times> sid) list \<Rightarrow> sid list" where
  "Registry_All r = map snd r"

definition Registry_Count :: "(string \<times> sid) list \<Rightarrow> nat" where
  "Registry_Count r = length r"

subsection \<open>Channels\<close>

definition newChannel :: "string \<Rightarrow> time \<Rightarrow> Channel" where
  "newChannel name t =
     \<lparr>ch_name = name, ch_topic = [], ch_topicSetBy = [], ch_topicSetAt = 0, ch_modes = mode_New, ch_createdAt = t,
      ch_members = [], ch_history = []\<rparr>"

definition Channel_appendHistory :: "time \<Rightarrow> Message \<Rightarrow> Channel \<Rightarrow> Channel" where
  "Channel_appendHistory at msg ch = ch\<lparr>ch_history := boundHistory (ch_history ch @ [\<lparr>Time = at, Msg = Clone msg\<rparr>])\<rparr>"

definition AddMember :: "sid \<Rightarrow> string \<Rightarrow> string \<Rightarrow> Channel \<Rightarrow> Channel" where
  "AddMember i nick p ch =
     ch\<lparr>ch_members := AList.update (ToLower nick) \<lparr>m_Session = i, m_Prefix = p\<rparr> (ch_members ch)\<rparr>"

definition RemoveMember :: "string \<Rightarrow> Channel \<Rightarrow> Channel \<times> bool" where
  "RemoveMember nick ch =
     (let ms = AList.delete (ToLower nick) (ch_members ch) in (ch\<lparr>ch_members := ms\<rparr>, ms = []))"

definition GetMembership :: "Channel \<Rightarrow> string \<Rightarrow> Membership option" where
  "GetMembership ch nick = map_of (ch_members ch) (ToLower nick)"

definition HasMember :: "Channel \<Rightarrow> string \<Rightarrow> bool" where
  "HasMember ch nick \<longleftrightarrow> map_of (ch_members ch) (ToLower nick) \<noteq> None"

definition Members :: "Channel \<Rightarrow> Membership list" where
  "Members ch = map snd (ch_members ch)"

definition Channel_Broadcast :: "Channel \<Rightarrow> Message \<Rightarrow> sid option \<Rightarrow> Server \<Rightarrow> Server" where
  "Channel_Broadcast ch msg exclude srv =
     fold (\<lambda>m srv. if Some (m_Session m) = exclude then srv else Send (m_Session m) msg srv) (Members ch) srv"

text \<open>A prefix as shown to a session without multi-prefix.\<close>

definition shownPrefix :: "bool \<Rightarrow> string \<Rightarrow> string" where
  "shownPrefix multiPrefix p = (if \<not> multiPrefix \<and> length p > 1 then take 1 p else p)"

definition NamesReply :: "Server \<Rightarrow> bool \<Rightarrow> Channel \<Rightarrow> string list" where
  "NamesReply srv multiPrefix ch =
     map (\<lambda>m. shownPrefix multiPrefix (m_Prefix m) @ s_nick (heap srv (m_Session m))) (Members ch)"

text \<open>The prefixes of members, from the highest.\<close>

definition memberPrefixes :: string where
  "memberPrefixes = ''~&@%+''"

definition prefixOf :: "char \<Rightarrow> char option" where
  "prefixOf m = (case IndexByte ''qaohv'' m of None \<Rightarrow> None | Some i \<Rightarrow> Some (memberPrefixes ! i))"

definition applyMembershipMode :: "ModeChange \<Rightarrow> Channel \<Rightarrow> Channel \<times> bool" where
  "applyMembershipMode change ch =
     (case prefixOf (Mode change) of
        None \<Rightarrow> (ch, False)
      | Some p \<Rightarrow>
          if Arg change = [] then (ch, False)
          else
     (case map_of (ch_members ch) (ToLower (Arg change)) of
        None \<Rightarrow> (ch, False)
      | Some m \<Rightarrow>
          (let current = filter (\<lambda>c. c \<noteq> p) (m_Prefix m);
               current = (if Add change then current @ [p] else current);
               ordered = filter (\<lambda>c. List.member current c) memberPrefixes
           in if m_Prefix m = ordered then (ch, False)
              else (ch\<lparr>ch_members := AList.update (ToLower (Arg change)) (m\<lparr>m_Prefix := ordered\<rparr>) (ch_members ch)\<rparr>, True))))"


subsection \<open>The channel registry\<close>

definition GetOrCreate :: "string \<Rightarrow> Server \<Rightarrow> Channel \<times> Server" where
  "GetOrCreate name srv =
     (case map_of (channels srv) (ToLower name) of
        Some ch \<Rightarrow> (ch, srv)
      | None \<Rightarrow>
          (case timeNow srv of (t, srv) \<Rightarrow>
             (newChannel name t, srv\<lparr>channels := AList.update (ToLower name) (newChannel name t) (channels srv)\<rparr>)))"

definition Channels_Get :: "Server \<Rightarrow> string \<Rightarrow> Channel option" where
  "Channels_Get srv name = map_of (channels srv) (ToLower name)"

definition Channels_Remove :: "string \<Rightarrow> Server \<Rightarrow> Server" where
  "Channels_Remove name srv = srv\<lparr>channels := AList.delete (ToLower name) (channels srv)\<rparr>"

definition Channels_All :: "Server \<Rightarrow> Channel list" where
  "Channels_All srv = map snd (channels srv)"

definition Channels_Count :: "Server \<Rightarrow> nat" where
  "Channels_Count srv = length (channels srv)"

subsection \<open>Configuration\<close>

definition setDefaults :: "IrcConfig \<Rightarrow> IrcConfig" where
  "setDefaults c =
     c\<lparr>c_Name := (if c_Name c = [] then ''irc.local'' else c_Name c),
       c_Network := (if c_Network c = [] then ''LocalNet'' else c_Network c),
       c_Listen := (if c_Listen c = [] then '':6667'' else c_Listen c),
       c_PingInterval := (if c_PingInterval c \<le> 0 then 90 * 10 ^ 9 else c_PingInterval c),
       c_PingTimeout := (if c_PingTimeout c \<le> 0 then 30 * 10 ^ 9 else c_PingTimeout c)\<rparr>"

definition bcryptDefaultCost :: int where
  "bcryptDefaultCost = 10"

definition addAccountRow :: "Ext \<Rightarrow> string \<times> Account \<Rightarrow> (string \<times> Account) list \<times> int \<Rightarrow> (string \<times> Account) list \<times> int" where
  "addAccountRow x row acc =
     (case row of (name, account) \<Rightarrow>
        (let account = (if a_Name account = [] then account\<lparr>a_Name := name\<rparr> else account)
         in (AList.update (ToLower name) account (fst acc),
             (case x_cost x (a_PasswordHash account) of None \<Rightarrow> snd acc | Some cost \<Rightarrow> cost))))"

definition irc_New :: "IrcConfig \<Rightarrow> Ext \<Rightarrow> Server" where
  "irc_New c x =
     (let c = setDefaults c; (accs, cost) = fold (addAccountRow x) (c_Accounts c) ([], bcryptDefaultCost)
      in \<lparr>cfg = c, ext = x, sessions = [], channels = [], accounts = accs,
          dummyPasswordHash = (if accs \<noteq> [] then x_generate x ''invalid'' cost else []),
          clientsTotal = 0, clientsCurrent = 0, whowas = [], heap = (\<lambda>_. newSession0 [] 0 0), live = [], nextSid = 0, calls = 0\<rparr>)"

text \<open>The password costs of the accounts: all there, and all the same.\<close>

fun checkCosts :: "Ext \<Rightarrow> int \<Rightarrow> (string \<times> Account) list \<Rightarrow> unit result" where
  "checkCosts x cost [] = Inr ()"
| "checkCosts x cost ((name, account) # rest) =
     (case x_cost x (a_PasswordHash account) of
        None \<Rightarrow> Inl (Errorf (''server: invalid password hash for account '' @ quote name))
      | Some c \<Rightarrow>
          if cost < 0 then checkCosts x c rest
          else if c \<noteq> cost then Inl (Errorf ''server: account password hashes must use the same bcrypt cost'')
          else checkCosts x cost rest)"

definition validateConfig :: "Server \<Rightarrow> unit result" where
  "validateConfig srv =
     (let c = cfg srv
      in if c_TLSListen c \<noteq> [] \<and> \<not> c_TLSConfig c then Inl (Errorf ''server: TLSListen requires TLSConfig'')
         else case checkCosts (ext srv) (- 1) (accounts srv) of
                Inl e \<Rightarrow> Inl e
              | Inr _ \<Rightarrow>
         (case c_STS c of
            None \<Rightarrow> Inr ()
          | Some sts \<Rightarrow>
              if sts_Port sts < 1 \<or> sts_Port sts > 65535 \<or> sts_Duration sts < 0 \<or> sts_Preload sts \<and> sts_Duration sts = 0
              then Inl (Errorf ''server: invalid STS policy'')
              else if c_TLSListen c = [] \<or> \<not> c_TLSConfig c \<or> sts_Hostnames sts = []
              then Inl (Errorf ''server: STS requires TLS and at least one hostname'')
              else Inr ()))"

definition isupport :: "Server \<Rightarrow> string list" where
  "isupport srv =
     [''NETWORK='' @ c_Network (cfg srv), ''CASEMAPPING=ascii'', ''CHANMODES=beIq,k,l,imnpstrcCzGSNufjQKLPOARTF'',
      ''CHANTYPES=#&'', ''PREFIX=(qaohv)~&@%+'', ''STATUSMSG=@+'', ''MODES=4'', ''MAXCHANNELS=25'', ''MAXNICKLEN=30'',
      ''MAXBANS=100'', ''TOPICLEN=390'', ''KICKLEN=255'', ''AWAYLEN=307'', ''CHANNELLEN=64'', ''EXTBAN=$,ajoqrz'',
      ''WHOX'', ''WALLCHOPS'', ''ELIST=MNUCT'', ''INVEX'', ''EXCEPTS'', ''CALLERID'', ''MONITOR=100'', ''CHATHISTORY=50'',
      ''MSGREFTYPES=timestamp,msgid'']"

definition slicesContainsFold :: "string list \<Rightarrow> string \<Rightarrow> bool" where
  "slicesContainsFold values value = list_ex (\<lambda>candidate. EqualFold candidate value) values"

definition supportedCaps :: "Server \<Rightarrow> Session \<Rightarrow> (string \<times> string) list" where
  "supportedCaps srv s =
     map (\<lambda>c. (c, []))
       [CapServerTime, CapMessageTags, CapBatch, CapChatHistory, CapEchoMessage, CapMultiPrefix, CapAwayNotify,
        CapExtendedJoin, CapSetname, CapCapNotify, CapInviteNotify, CapUserHostInNames, CapNoImplicitNames,
        CapStandardReplies, CapAccountTag, CapAccountNotify, CapChghost, CapExtendedMonitor, CapLabeledResponse] @
     (if s_secure s \<and> accounts srv \<noteq> [] then [(CapSASL, ''PLAIN'')] else []) @
     (case c_STS (cfg srv) of
        None \<Rightarrow> []
      | Some sts \<Rightarrow>
          if s_capVersion s < 302 then []
          else if \<not> s_secure s then [(CapSTS, ''port='' @ show_int (sts_Port sts))]
          else if slicesContainsFold (sts_Hostnames sts) (s_serverName s)
          then [(CapSTS, ''duration='' @ show_int (quot_int (sts_Duration sts) (10 ^ 9)) @
                   (if sts_Preload sts then '',preload'' else []))]
          else [])"

definition Server_Broadcast :: "Message \<Rightarrow> Server \<Rightarrow> Server" where
  "Server_Broadcast msg srv = fold (\<lambda>i. Send i msg) (Registry_All (sessions srv)) srv"

end
