(* ===== verification/IrcHandlers.thy ===== *)
theory IrcHandlers
  imports IrcServer
begin

text \<open>
  File \<open>irc/server/handlers.go\<close>: one definition per handler, in the order of the file. A handler takes the
  session that sent the message and maps the server before to the server after.
\<close>

section \<open>Definitions\<close>

subsection \<open>Helpers\<close>

definition isLetter :: "char \<Rightarrow> bool" where
  "isLetter c \<longleftrightarrow> (CHR ''a'' \<le> c \<and> c \<le> CHR ''z'') \<or> (CHR ''A'' \<le> c \<and> c \<le> CHR ''Z'')"

definition isDigit :: "char \<Rightarrow> bool" where
  "isDigit c \<longleftrightarrow> CHR ''0'' \<le> c \<and> c \<le> CHR ''9''"

text \<open>The characters besides letters that start a nickname: underscore, backslash, brackets, braces, bar, hat and
  grave accent.\<close>

definition nickSpecial :: string where
  "nickSpecial = [CHR ''_'', CHR 0x5C, CHR ''['', CHR '']'', CHR ''{'', CHR ''}'', CHR ''|'', CHR 0x5E, CHR 0x60]"

definition isValidNick :: "string \<Rightarrow> bool" where
  "isValidNick nick \<longleftrightarrow>
     nick \<noteq> [] \<and> length nick \<le> 30 \<and>
     (isLetter (hd nick) \<or> List.member nickSpecial (hd nick)) \<and>
     list_all (\<lambda>c. isLetter c \<or> isDigit c \<or> c = CHR ''-'' \<or> List.member nickSpecial c) (tl nick)"

definition isValidChannelName :: "string \<Rightarrow> bool" where
  "isValidChannelName name \<longleftrightarrow>
     2 \<le> length name \<and> length name \<le> 64 \<and> (hd name = CHR ''#'' \<or> hd name = CHR ''&'') \<and>
     \<not> ContainsAny name [CHR '' '', CHR 0x07, CHR '','']"

definition cleanUsername :: "string \<Rightarrow> string" where
  "cleanUsername u = (let u = TrimPrefix u ''~'' in if length u > 10 then take 10 u else u)"

function globMatch :: "string \<Rightarrow> string \<Rightarrow> bool" where
  "globMatch [] s \<longleftrightarrow> s = []"
| "globMatch (p # ps) s \<longleftrightarrow>
     (if p = CHR ''*'' then
        (if ps = [] then True else list_ex (\<lambda>i. globMatch ps (drop i s)) [0..<length s])
      else if p = CHR ''?'' then s \<noteq> [] \<and> globMatch ps (tl s)
      else s \<noteq> [] \<and> p = hd s \<and> globMatch ps (tl s))"
  by pat_completeness auto
termination by (relation "measure (length \<circ> fst)") auto

definition matchMask :: "string \<Rightarrow> string \<Rightarrow> bool" where
  "matchMask m target = globMatch (ToLower m) (ToLower target)"

definition isChannelTarget :: "string \<Rightarrow> bool" where
  "isChannelTarget target \<longleftrightarrow> HasPrefix target ''#'' \<or> HasPrefix target ''&''"

definition isOperator :: "Membership \<Rightarrow> bool" where
  "isOperator m \<longleftrightarrow> ContainsAny (m_Prefix m) ''@&~''"

text \<open>The loop that fills a line with values up to a length, at least one per line.\<close>

fun chunkEnd :: "int \<Rightarrow> int \<Rightarrow> string list \<Rightarrow> nat" where
  "chunkEnd mx size0 [] = 0"
| "chunkEnd mx size0 (v # vs) =
     (if size0 + int (length v) + 1 \<le> mx then Suc (chunkEnd mx (size0 + int (length v) + 1) vs) else 0)"

function chunks :: "int \<Rightarrow> string list \<Rightarrow> string list list" where
  "chunks mx vs =
     (if vs = [] then []
      else let n = max 1 (chunkEnd mx 0 vs) in take n vs # chunks mx (drop n vs))"
  by pat_completeness auto
termination by (relation "measure (length \<circ> snd)") auto

declare chunks.simps [simp del]

subsection \<open>Monitoring\<close>

definition monitorLimit :: nat where
  "monitorLimit = 100"

definition sendMonitorList :: "sid \<Rightarrow> Numeric \<Rightarrow> string list \<Rightarrow> Server \<Rightarrow> Server" where
  "sendMonitorList i numeric values srv = fold (\<lambda>c. SendNumeric i numeric [Join c '','']) (chunks 350 values) srv"

definition notifyMonitorOnline :: "sid \<Rightarrow> Server \<Rightarrow> Server" where
  "notifyMonitorOnline target srv =
     fold (\<lambda>watcher srv.
         if watcher \<noteq> target \<and> isMonitoring (heap srv watcher) (s_nick (heap srv target))
         then sendMonitorList watcher RPL_MONONLINE [Session_mask (heap srv target)] srv else srv)
       (Registry_All (sessions srv)) srv"

definition notifyMonitorOffline :: "string \<Rightarrow> Server \<Rightarrow> Server" where
  "notifyMonitorOffline nick srv =
     fold (\<lambda>watcher srv.
         if isMonitoring (heap srv watcher) nick then sendMonitorList watcher RPL_MONOFFLINE [nick] srv else srv)
       (Registry_All (sessions srv)) srv"

definition extendedMonitorPeers :: "sid \<Rightarrow> string \<Rightarrow> Server \<Rightarrow> sid list" where
  "extendedMonitorPeers target capability srv =
     filter (\<lambda>w. w \<noteq> target \<and> capEnabled (heap srv w) CapExtendedMonitor \<and> capEnabled (heap srv w) capability \<and>
                 isMonitoring (heap srv w) (s_nick (heap srv target))) (Registry_All (sessions srv))"

text \<open>Sending a message to a session once; the state carries the sessions notified so far.\<close>

definition notify :: "Message \<Rightarrow> sid \<Rightarrow> sid list \<times> Server \<Rightarrow> sid list \<times> Server" where
  "notify msg i st =
     (case st of (notified, srv) \<Rightarrow>
        if List.member notified i then (notified, srv) else (i # notified, Send i msg srv))"

text \<open>The channels a nickname is on.\<close>

definition channelsOf :: "string \<Rightarrow> Server \<Rightarrow> Channel list" where
  "channelsOf nick srv = filter (\<lambda>ch. HasMember ch nick) (Channels_All srv)"

subsection \<open>Server commands\<close>

definition handlePing :: "sid \<Rightarrow> Message \<Rightarrow> Server \<Rightarrow> Server" where
  "handlePing i msg srv =
     (let params = (if Params msg = [] then [c_Name (cfg srv)] else Params msg)
      in Send i (message (serverPrefix srv) PONG params) srv)"

definition closeSession :: "sid \<Rightarrow> Server \<Rightarrow> Server" where
  "closeSession i srv = updS i (\<lambda>s. s\<lparr>s_conn := conn_Close (flush (s_conn s))\<rparr>) srv"

definition handleQuit :: "sid \<Rightarrow> Message \<Rightarrow> Server \<Rightarrow> Server" where
  "handleQuit i msg srv =
     (let reason = (if Params msg \<noteq> [] \<and> hd (Params msg) \<noteq> [] then hd (Params msg) else ''Quit'')
      in closeSession i (Send i (message (serverPrefix srv) ERROR
           [''Closing Link: '' @ s_host (heap srv i) @ '' (Quit: '' @ reason @ '')'']) srv))"

definition sendMOTD :: "sid \<Rightarrow> Server \<Rightarrow> Server" where
  "sendMOTD i srv =
     (if c_MOTD (cfg srv) = [] then SendNumeric i ERR_NOMOTD [''MOTD File is missing''] srv
      else
        (let srv1 = SendNumeric i RPL_MOTDSTART [''- '' @ c_Name (cfg srv) @ '' Message of the Day -''] srv;
             srv2 = fold (\<lambda>line. SendNumeric i RPL_MOTD [''- '' @ line]) (Split (c_MOTD (cfg srv)) LF) srv1
         in SendNumeric i RPL_ENDOFMOTD [''End of /MOTD command.''] srv2))"

definition sendLusers :: "sid \<Rightarrow> Server \<Rightarrow> Server" where
  "sendLusers i srv =
     (let total = show_nat (Registry_Count (sessions srv)); chans = show_nat (Channels_Count srv)
      in SendNumeric i RPL_LUSERME [''I have '' @ total @ '' clients and 0 servers'']
          (SendNumeric i RPL_LUSERCHANNELS [chans, ''channels formed'']
            (SendNumeric i RPL_LUSERCLIENT [''There are '' @ total @ '' users on 1 server''] srv)))"

definition handleVersion :: "sid \<Rightarrow> Server \<Rightarrow> Server" where
  "handleVersion i srv = SendNumeric i RPL_VERSION [''go-irc-1.0'', c_Name (cfg srv), ''go-irc''] srv"

definition handleTime :: "sid \<Rightarrow> Server \<Rightarrow> Server" where
  "handleTime i srv =
     (case timeNow srv of (t, srv) \<Rightarrow>
        SendNumeric i RPL_TIME [c_Name (cfg srv), x_format (ext srv) ''Mon Jan 02 2006 15:04:05 -0700'' t] srv)"

definition handleAdmin :: "sid \<Rightarrow> Server \<Rightarrow> Server" where
  "handleAdmin i srv =
     SendNumeric i RPL_ADMINEMAIL [''admin@'' @ c_Name (cfg srv)]
      (SendNumeric i RPL_ADMINLOC2 [''Running go-irc'']
        (SendNumeric i RPL_ADMINLOC1 [''go-irc IRC server'']
          (SendNumeric i RPL_ADMINME [c_Name (cfg srv), ''Administrative info''] srv)))"

definition handleInfo :: "sid \<Rightarrow> Server \<Rightarrow> Server" where
  "handleInfo i srv =
     SendNumeric i RPL_ENDOFINFO [''End of /INFO list'']
      (SendNumeric i RPL_INFO [''https://github.com/natalie-o-perret/go-protocols/irc'']
        (SendNumeric i RPL_INFO [''go-irc '' @ [CHR 0xE2, CHR 0x80, CHR 0x94] @ '' a Go IRC server''] srv))"

definition handleStats :: "sid \<Rightarrow> Message \<Rightarrow> Server \<Rightarrow> Server" where
  "handleStats i msg srv =
     (let query = (if Params msg \<noteq> [] then hd (Params msg) else ''?'');
          srv1 = (if ToLower query = ''u'' then SendNumeric i RPL_STATSUPTIME [''Server Up 0 days, 0:00:00''] srv else srv)
      in SendNumeric i RPL_ENDOFSTATS [query, ''End of /STATS report''] srv1)"

definition handleWallops :: "sid \<Rightarrow> Message \<Rightarrow> Server \<Rightarrow> Server" where
  "handleWallops i msg srv =
     (if \<not> s_isOper (heap srv i)
      then SendNumeric i ERR_NOPRIVILEGES [''Permission Denied- You'' @ [CHR 0x27] @ ''re not an IRC operator''] srv
      else
        (let text = (if Params msg \<noteq> [] then hd (Params msg) else []);
             wallMsg = message (Some (Session_Prefix (heap srv i))) WALLOPS [text]
         in fold (\<lambda>j srv. if mode_Has (s_modes (heap srv j)) (CHR ''w'') \<or> s_isOper (heap srv j) then Send j wallMsg srv else srv)
              (Registry_All (sessions srv)) srv))"


subsection \<open>Registration\<close>

definition handlePass :: "sid \<Rightarrow> Message \<Rightarrow> Server \<Rightarrow> Server" where
  "handlePass i msg srv =
     (if s_state (heap srv i) = StateRegistered then SendNumeric i ERR_ALREADYREGISTRED [''You may not reregister''] srv
      else srv)"

text \<open>The token lines of 005. The slice of the first thirteen tokens shares its array with the rest, so
  appending the final parameter overwrites the token after them.\<close>

definition isupportNote :: string where
  "isupportNote = ''are supported by this server''"

function isupportLines :: "string list \<Rightarrow> string list list" where
  "isupportLines tokens =
     (if tokens = [] then []
      else let batch = take 13 tokens; rest = drop 13 tokens
           in (batch @ [isupportNote]) # isupportLines (if rest = [] then [] else isupportNote # tl rest))"
  by pat_completeness auto
termination by (relation "measure length") auto

declare isupportLines.simps [simp del]

definition sendWelcome :: "sid \<Rightarrow> Server \<Rightarrow> Server" where
  "sendWelcome i srv =
     (let s = heap srv i;
          srv1 = SendNumeric i RPL_WELCOME
                   [''Welcome to the '' @ c_Network (cfg srv) @ '' IRC Network '' @ Session_mask s] srv;
          srv2 = SendNumeric i RPL_YOURHOST [''Your host is '' @ c_Name (cfg srv) @ '', running go-irc''] srv1;
          srv3 = SendNumeric i RPL_CREATED [''This server was created just now''] srv2;
          srv4 = SendNumeric i RPL_MYINFO
                   [c_Name (cfg srv), ''go-irc-1.0'', ''iowzBGHRSXZaegimnpstv'', ''beIqaohvIMRScOAQKFLPTuGzjf''] srv3;
          srv5 = fold (SendNumeric i RPL_ISUPPORT) (isupportLines (isupport srv)) srv4
      in sendMOTD i (sendLusers i srv5))"

definition tryRegister :: "sid \<Rightarrow> Server \<Rightarrow> Server" where
  "tryRegister i srv =
     (let s = heap srv i
      in if s_state s = StateRegistered then srv
         else if s_state s = StateCapNeg then srv
         else if s_nick s = [] \<or> s_user s = [] then srv
         else case Registry_Add (sessions srv) (s_nick s) i of
                Inl e \<Rightarrow>
                  updS i (\<lambda>s. s\<lparr>s_nick := []\<rparr>)
                    (SendNumeric i ERR_NICKNAMEINUSE [s_nick s, ''Nickname is already in use''] srv)
              | Inr r \<Rightarrow>
                  sendWelcome i (notifyMonitorOnline i (updS i (\<lambda>s. s\<lparr>s_state := StateRegistered\<rparr>) (srv\<lparr>sessions := r\<rparr>))))"

definition nickTaken :: "Server \<Rightarrow> sid \<Rightarrow> string \<Rightarrow> bool" where
  "nickTaken srv i nick \<longleftrightarrow> Registry_Get (sessions srv) nick \<noteq> None \<and> \<not> EqualFold nick (s_nick (heap srv i))"

definition handleNick :: "sid \<Rightarrow> Message \<Rightarrow> Server \<Rightarrow> Server" where
  "handleNick i msg srv =
     (if Params msg = [] then SendNumeric i ERR_NONICKNAMEGIVEN [''No nickname given''] srv
      else let nick = hd (Params msg)
           in if \<not> isValidNick nick then SendNumeric i ERR_ERRONEUSNICKNAME [nick, ''Erroneous Nickname''] srv
              else if nickTaken srv i nick then SendNumeric i ERR_NICKNAMEINUSE [nick, ''Nickname is already in use''] srv
              else tryRegister i (updS i (\<lambda>s. s\<lparr>s_nick := nick\<rparr>) srv))"

text \<open>Moving a membership to another nickname.\<close>

definition renameMember :: "string \<Rightarrow> string \<Rightarrow> Channel \<Rightarrow> Channel" where
  "renameMember oldNick newNick ch =
     (case map_of (ch_members ch) (ToLower oldNick) of
        None \<Rightarrow> ch
      | Some m \<Rightarrow> ch\<lparr>ch_members := AList.update (ToLower newNick) m (AList.delete (ToLower oldNick) (ch_members ch))\<rparr>)"

text \<open>The announcement of a new nickname to the channels; the state carries the nicknames notified so far.\<close>

definition announceNick ::
  "Message \<Rightarrow> string \<Rightarrow> string \<Rightarrow> string \<Rightarrow> string list \<times> Server \<Rightarrow> string list \<times> Server" where
  "announceNick nickMsg oldNick newNick key st =
     (case st of (notified, srv) \<Rightarrow>
        (case map_of (channels srv) key of
           None \<Rightarrow> st
         | Some ch \<Rightarrow>
             if \<not> HasMember ch oldNick \<and> \<not> HasMember ch newNick then st
             else
               (let ch = renameMember oldNick newNick ch;
                    srv = updCh key (renameMember oldNick newNick) srv
                in fold (\<lambda>m (notified, srv).
                     let k = ToLower (s_nick (heap srv (m_Session m)))
                     in if List.member notified k then (notified, srv)
                        else (k # notified, Send (m_Session m) nickMsg srv)) (Members ch) (notified, srv))))"

definition handleNickRegistered :: "sid \<Rightarrow> Message \<Rightarrow> Server \<Rightarrow> Server" where
  "handleNickRegistered i msg srv =
     (if Params msg = [] then SendNumeric i ERR_NONICKNAMEGIVEN [''No nickname given''] srv
      else let newNick = hd (Params msg); s = heap srv i; oldNick = s_nick s
           in if \<not> isValidNick newNick then SendNumeric i ERR_ERRONEUSNICKNAME [newNick, ''Erroneous Nickname''] srv
              else if nickTaken srv i newNick
              then SendNumeric i ERR_NICKNAMEINUSE [newNick, ''Nickname is already in use''] srv
              else case Registry_Rename (sessions srv) oldNick newNick of
                     Inl e \<Rightarrow> SendNumeric i ERR_NICKNAMEINUSE [newNick, ''Nickname is already in use''] srv
                   | Inr r \<Rightarrow>
                       (let srv1 = updS i (\<lambda>s. s\<lparr>s_nick := newNick\<rparr>) (srv\<lparr>sessions := r\<rparr>);
                            srv2 = (if \<not> EqualFold oldNick newNick
                                    then notifyMonitorOnline i (notifyMonitorOffline oldNick srv1) else srv1);
                            nickMsg = (message (Some (Session_Prefix s)) NICK [newNick])
                              \<lparr>msg_Tags := (if s_account s \<noteq> [] then [(''account'', s_account s)] else [])\<rparr>;
                            srv3 = Send i nickMsg srv2
                        in snd (fold (announceNick nickMsg oldNick newNick) (map fst (channels srv3))
                             ([ToLower oldNick], srv3))))"

definition handleUser :: "sid \<Rightarrow> Message \<Rightarrow> Server \<Rightarrow> Server" where
  "handleUser i msg srv =
     (if s_state (heap srv i) = StateRegistered then SendNumeric i ERR_ALREADYREGISTRED [''You may not reregister''] srv
      else if length (Params msg) < 4 then SendNumeric i ERR_NEEDMOREPARAMS [USER, ''Not enough parameters''] srv
      else tryRegister i (updS i (\<lambda>s. s\<lparr>s_user := cleanUsername (Params msg ! 0), s_realname := Params msg ! 3\<rparr>) srv))"

subsection \<open>Capabilities\<close>

definition sendCAP :: "sid \<Rightarrow> string \<Rightarrow> string \<Rightarrow> Server \<Rightarrow> Server" where
  "sendCAP i subCmd v srv = Send i (message (serverPrefix srv) CAP [nickOrStar (heap srv i), subCmd, v]) srv"

fun sendCAPLines :: "sid \<Rightarrow> string \<Rightarrow> string list list \<Rightarrow> Server \<Rightarrow> Server" where
  "sendCAPLines i subCmd [] srv = srv"
| "sendCAPLines i subCmd [c] srv = sendCAP i subCmd (Join c '' '') srv"
| "sendCAPLines i subCmd (c # d # cs) srv =
     sendCAPLines i subCmd (d # cs)
       (Send i (message (serverPrefix srv) CAP [nickOrStar (heap srv i), subCmd, ''*'', Join c '' '']) srv)"

definition sendCAPList :: "sid \<Rightarrow> string \<Rightarrow> string list \<Rightarrow> Server \<Rightarrow> Server" where
  "sendCAPList i subCmd caps srv =
     (if caps = [] then sendCAP i subCmd [] srv else sendCAPLines i subCmd (chunks 400 caps) srv)"

definition saslFailure :: "sid \<Rightarrow> Numeric \<Rightarrow> string \<Rightarrow> Server \<Rightarrow> Server" where
  "saslFailure i numeric text srv =
     SendNumeric i numeric [text] (updS i (\<lambda>s. s\<lparr>s_saslActive := False, s_saslBuffer := []\<rparr>) srv)"

definition enterCapNeg :: "Session \<Rightarrow> Session" where
  "enterCapNeg s = (if s_state s \<noteq> StateRegistered then s\<lparr>s_state := StateCapNeg\<rparr> else s)"

definition capVersionOf :: "string \<Rightarrow> Session \<Rightarrow> Session" where
  "capVersionOf arg s =
     (case ParseInt64 arg of
        Some version \<Rightarrow>
          if version \<ge> 302 then s\<lparr>s_capVersion := version, s_caps := AList.update CapCapNotify True (s_caps s)\<rparr> else s
      | None \<Rightarrow> s)"

definition handleCapLS :: "sid \<Rightarrow> string \<Rightarrow> Server \<Rightarrow> Server" where
  "handleCapLS i subArg srv =
     (let srv1 = updS i (\<lambda>s. capVersionOf subArg (enterCapNeg s)) srv; s = heap srv1 i;
          parts = map (\<lambda>(k, v). if s_capVersion s \<ge> 302 \<and> v \<noteq> [] then k @ ''='' @ v else k) (supportedCaps srv1 s)
      in sendCAPList i CapLS (sort parts) srv1)"

definition handleCapLIST :: "sid \<Rightarrow> Server \<Rightarrow> Server" where
  "handleCapLIST i srv =
     sendCAPList i CapLIST (sort (map fst (filter snd (s_caps (heap srv i))))) srv"

definition capKnown :: "(string \<times> string) list \<Rightarrow> string \<Rightarrow> bool" where
  "capKnown supported cap =
     (let capName = TrimPrefix cap ''-'' in map_of supported capName \<noteq> None \<and> capName \<noteq> CapSTS)"

definition setCap :: "string \<Rightarrow> Session \<Rightarrow> Session" where
  "setCap cap s =
     (let disable = HasPrefix cap ''-''; capName = TrimPrefix cap ''-''
      in if disable \<and> (capName \<noteq> CapCapNotify \<or> s_capVersion s < 302)
         then s\<lparr>s_caps := AList.delete capName (s_caps s)\<rparr>
         else if \<not> disable then s\<lparr>s_caps := AList.update capName True (s_caps s)\<rparr>
         else s)"

definition handleCapREQ :: "sid \<Rightarrow> string \<Rightarrow> Server \<Rightarrow> Server" where
  "handleCapREQ i subArg srv =
     (let supported = supportedCaps srv (heap srv i); srv1 = updS i enterCapNeg srv; req = TrimPrefix subArg '':''
      in if \<not> list_all (capKnown supported) (Fields req) then sendCAP i CapNAK req srv1
         else sendCAP i CapACK req (updS i (fold setCap (Fields req)) srv1))"

definition handleCapEND :: "sid \<Rightarrow> Server \<Rightarrow> Server" where
  "handleCapEND i srv =
     (let srv1 = (if s_saslActive (heap srv i)
                  then saslFailure i ERR_SASLABORTED ''SASL authentication aborted'' srv else srv);
          srv2 = updS i (\<lambda>s. if s_state s = StateCapNeg then s\<lparr>s_state := StatePreReg\<rparr> else s) srv1
      in tryRegister i srv2)"

definition handleCAP :: "sid \<Rightarrow> Message \<Rightarrow> Server \<Rightarrow> Server" where
  "handleCAP i msg srv =
     (if Params msg = [] then SendNumeric i ERR_INVALIDCAPCMD [''*'', ''Invalid CAP command''] srv
      else let subCmd = ToUpper (hd (Params msg)); subArg = (if length (Params msg) \<ge> 2 then Params msg ! 1 else [])
           in if subCmd = CapLS then handleCapLS i subArg srv
              else if subCmd = CapLIST then handleCapLIST i srv
              else if subCmd = CapREQ then handleCapREQ i subArg srv
              else if subCmd = CapEND then handleCapEND i srv
              else SendNumeric i ERR_INVALIDCAPCMD [subCmd, ''Invalid CAP command''] srv)"


subsection \<open>SASL\<close>

definition maxSASLPayload :: nat where
  "maxSASLPayload = 4096"

definition checkPassword :: "sid \<Rightarrow> string \<Rightarrow> string \<Rightarrow> Server \<Rightarrow> bool \<times> Server" where
  "checkPassword i hash password srv =
     (if rs_messages (s_response (heap srv i)) = None then (x_bcrypt (ext srv) hash password, srv)
      else case suspendResponse (heap srv i) of (st, s) \<Rightarrow>
             (let srv1 = updS i (\<lambda>_. s) srv; ok = x_bcrypt (ext srv1) hash password
              in (ok, updS i (resumeResponse st) srv1)))"

definition notifyAccount :: "sid \<Rightarrow> Prefix \<Rightarrow> Server \<Rightarrow> Server" where
  "notifyAccount i p srv =
     (let s = heap srv i; msg = message (Some p) ACCOUNT [s_account s];
          st0 = (if capEnabled s CapAccountNotify then ([i], Send i msg srv) else ([], srv));
          members = concat (map (\<lambda>ch. map m_Session (Members ch)) (channelsOf (s_nick s) srv));
          st1 = fold (\<lambda>j st. if capEnabled (heap (snd st) j) CapAccountNotify then notify msg j st else st) members st0
      in snd (fold (notify msg) (extendedMonitorPeers i CapAccountNotify (snd st1)) st1))"

text \<open>A peer without chghost sees the user quit and rejoin, with the modes on each shared channel.\<close>

definition rejoin :: "sid \<Rightarrow> sid \<Rightarrow> Channel \<Rightarrow> Server \<Rightarrow> Server" where
  "rejoin i peer ch srv =
     (let s = heap srv i;
          params = ch_name ch # (if capEnabled (heap srv peer) CapExtendedJoin then [s_account s, s_realname s] else []);
          srv1 = Send peer (message (Some (Session_Prefix s)) JOIN params) srv
      in case GetMembership ch (s_nick s) of
           None \<Rightarrow> srv1
         | Some m \<Rightarrow>
             fold (\<lambda>(p, c) srv.
                 if List.member (m_Prefix m) p
                 then Send peer (message (serverPrefix srv) MODE [ch_name ch, [CHR ''+'', c], s_nick s]) srv else srv)
               (zip memberPrefixes ''qaohv'') srv1)"

definition notifyPeer :: "sid \<Rightarrow> Prefix \<Rightarrow> Message \<Rightarrow> (sid \<times> Channel) list \<Rightarrow> sid \<Rightarrow> sid list \<times> Server \<Rightarrow> sid list \<times> Server" where
  "notifyPeer i oldPrefix msg shared peer st =
     (if capEnabled (heap (snd st) peer) CapChghost then notify msg peer st
      else (fst st,
            fold (rejoin i peer) (map snd (filter (\<lambda>(j, ch). j = peer) shared))
              (Send peer (message (Some oldPrefix) QUIT [''Changing hostname'']) (snd st))))"

definition notifyHostChange :: "sid \<Rightarrow> Prefix \<Rightarrow> Server \<Rightarrow> Server" where
  "notifyHostChange i oldPrefix srv =
     (let s = heap srv i; msg = message (Some oldPrefix) CHGHOST [s_user s, s_host s];
          st0 = (if capEnabled s CapChghost then ([i], Send i msg srv) else ([], srv));
          shared = concat (map (\<lambda>ch. map (\<lambda>m. (m_Session m, ch)) (filter (\<lambda>m. m_Session m \<noteq> i) (Members ch)))
                     (channelsOf (s_nick s) srv));
          st1 = fold (notifyPeer i oldPrefix msg shared) (remdups (map fst shared)) st0
      in snd (fold (notify msg) (extendedMonitorPeers i CapChghost (snd st1)) st1))"

text \<open>The three fields of a PLAIN message.\<close>

definition plainFields :: "string \<Rightarrow> (string \<times> string) option" where
  "plainFields encoded =
     (case b64_DecodeStrict encoded of
        None \<Rightarrow> None
      | Some payload \<Rightarrow>
          (case Split payload NUL of
             [authz, authc, pass] \<Rightarrow>
               if authc = [] \<or> pass = [] \<or> authz \<noteq> [] \<and> \<not> EqualFold authz authc then None else Some (authc, pass)
           | _ \<Rightarrow> None))"

definition loginAs :: "sid \<Rightarrow> Account \<Rightarrow> Server \<Rightarrow> Server" where
  "loginAs i account srv =
     (let oldPrefix = Session_Prefix (heap srv i);
          srv1 = updS i (\<lambda>s. s\<lparr>s_account := a_Name account\<rparr>) srv;
          srv2 = (if s_state (heap srv1 i) = StateRegistered then notifyAccount i oldPrefix srv1 else srv1);
          srv3 =
            (if a_Host account \<noteq> [] \<and> a_Host account \<noteq> s_host (heap srv2 i) then
               (let oldHostPrefix = Session_Prefix (heap srv2 i);
                    srv' = updS i (\<lambda>s. s\<lparr>s_host := a_Host account\<rparr>) srv2
                in if s_state (heap srv' i) = StateRegistered then notifyHostChange i oldHostPrefix srv' else srv')
             else srv2);
          accountName = s_account (heap srv3 i);
          srv4 = SendNumeric i RPL_LOGGEDIN
                   [Session_mask (heap srv3 i), accountName, ''You are now logged in as '' @ accountName] srv3
      in SendNumeric i RPL_SASLSUCCESS [''SASL authentication successful''] srv4)"

definition saslFinish :: "sid \<Rightarrow> Server \<Rightarrow> Server" where
  "saslFinish i srv0 =
     (let encoded = s_saslBuffer (heap srv0 i);
          srv = updS i (\<lambda>s. s\<lparr>s_saslActive := False, s_saslBuffer := []\<rparr>) srv0;
          failed = SendNumeric i ERR_SASLFAIL [''SASL authentication failed'']
      in case plainFields encoded of
           None \<Rightarrow> failed srv
         | Some (authc, pass) \<Rightarrow>
             (let found = map_of (accounts srv) (ToLower authc);
                  hash = (case found of None \<Rightarrow> dummyPasswordHash srv | Some a \<Rightarrow> a_PasswordHash a)
              in case checkPassword i hash pass srv of (ok, srv) \<Rightarrow>
                   (case found of
                      None \<Rightarrow> failed srv
                    | Some account \<Rightarrow> if \<not> ok then failed srv else loginAs i account srv)))"

definition saslStart :: "sid \<Rightarrow> string \<Rightarrow> Server \<Rightarrow> Server" where
  "saslStart i chunk srv =
     (if s_account (heap srv i) \<noteq> []
      then SendNumeric i ERR_SASLALREADY [''You have already authenticated using SASL''] srv
      else if \<not> EqualFold chunk ''PLAIN''
      then saslFailure i ERR_SASLFAIL ''SASL authentication failed''
             (SendNumeric i RPL_SASLMECHS [''PLAIN'', ''are available SASL mechanisms''] srv)
      else Sendf i AUTHENTICATE [''+''] (updS i (\<lambda>s. s\<lparr>s_saslActive := True, s_saslBuffer := []\<rparr>) srv))"

definition handleAuthenticate :: "sid \<Rightarrow> Message \<Rightarrow> Server \<Rightarrow> Server" where
  "handleAuthenticate i msg srv =
     (let s = heap srv i
      in if \<not> capEnabled s CapSASL \<or> Params msg = [] then saslFailure i ERR_SASLFAIL ''SASL authentication failed'' srv
         else let chunk = hd (Params msg)
              in if \<not> s_saslActive s then saslStart i chunk srv
                 else if chunk = ''*'' then saslFailure i ERR_SASLABORTED ''SASL authentication aborted'' srv
                 else if length chunk > 400 \<or> length (s_saslBuffer s) + length chunk > maxSASLPayload
                 then saslFailure i ERR_SASLTOOLONG ''SASL message too long'' srv
                 else
                   (let srv1 = (if chunk \<noteq> ''+'' then updS i (\<lambda>s. s\<lparr>s_saslBuffer := s_saslBuffer s @ chunk\<rparr>) srv else srv)
                    in if length chunk = 400 then srv1 else saslFinish i srv1))"

subsection \<open>Messaging\<close>

text \<open>The tags of a message passed on: id, time, account, and the client-only tags of the sender.\<close>

definition relayTags :: "Session \<Rightarrow> string \<Rightarrow> string \<Rightarrow> Tags \<Rightarrow> Tags" where
  "relayTags s mid at tags =
     fold (\<lambda>(tag, v) acc. if HasPrefix tag ''+'' then AList.update tag v acc else acc) tags
       ([(''msgid'', mid), (''time'', at)] @ (if s_account s \<noteq> [] then [(''account'', s_account s)] else []))"

text \<open>The refusals of a channel message: the target unknown, not a member of a channel without outside
  messages, no privilege on a moderated channel.\<close>

definition refuseChannel :: "Server \<Rightarrow> sid \<Rightarrow> string \<Rightarrow> (Numeric \<times> string) option" where
  "refuseChannel srv i target =
     (case Channels_Get srv target of
        None \<Rightarrow> Some (ERR_NOSUCHNICK, ''No such nick/channel'')
      | Some ch \<Rightarrow>
          (let nick = s_nick (heap srv i)
           in if \<not> HasMember ch nick \<and> mode_Has (ch_modes ch) (CHR ''n'')
              then Some (ERR_CANNOTSENDTOCHAN, ''Cannot send to channel'')
              else if mode_Has (ch_modes ch) (CHR ''m'') \<and>
                      (case GetMembership ch nick of None \<Rightarrow> True | Some m \<Rightarrow> m_Prefix m = [])
              then Some (ERR_CANNOTSENDTOCHAN, ''Cannot send to channel (+m)'')
              else None))"

definition echo :: "sid \<Rightarrow> Message \<Rightarrow> Server \<Rightarrow> Server" where
  "echo i msg srv = (if capEnabled (heap srv i) CapEchoMessage then Send i msg srv else srv)"

definition sendDirect :: "sid \<Rightarrow> sid \<Rightarrow> Message \<Rightarrow> Server \<Rightarrow> Server" where
  "sendDirect i dest msg srv = (if dest = i then sendImmediate i msg srv else Send dest msg srv)"

definition relayToChannel :: "sid \<Rightarrow> string \<Rightarrow> (Channel \<Rightarrow> Channel) \<Rightarrow> Message \<Rightarrow> Server \<Rightarrow> Server" where
  "relayToChannel i target record outMsg srv =
     (case refuseChannel srv i target of
        Some (n, text) \<Rightarrow> SendNumeric i n [target, text] srv
      | None \<Rightarrow>
          (case Channels_Get srv target of
             None \<Rightarrow> srv
           | Some ch \<Rightarrow> echo i outMsg (Channel_Broadcast ch outMsg (Some i) (updCh (ToLower target) record srv))))"

definition handlePrivmsg :: "sid \<Rightarrow> Message \<Rightarrow> bool \<Rightarrow> Server \<Rightarrow> Server" where
  "handlePrivmsg i msg notice srv0 =
     (if length (Params msg) < 2 then SendNumeric i ERR_NEEDMOREPARAMS [Command msg, ''Not enough parameters''] srv0
      else case timeNow srv0 of (now, srv1) \<Rightarrow>
           (case randText srv1 of (mid, srv) \<Rightarrow>
           (let target = Params msg ! 0; text = Params msg ! 1; s = heap srv i;
                tags = relayTags s mid (serverTime srv now) (if capEnabled s CapMessageTags then msg_Tags msg else []);
                outMsg = (message (Some (Session_Prefix s)) (if notice then NOTICE else PRIVMSG) [target, text])
                           \<lparr>msg_Tags := tags\<rparr>
            in if isChannelTarget target then relayToChannel i target (Channel_appendHistory now outMsg) outMsg srv
               else case Registry_Get (sessions srv) target of
                      None \<Rightarrow> SendNumeric i ERR_NOSUCHNICK [target, ''No such nick/channel''] srv
                    | Some dest \<Rightarrow>
                        (let srv2 = updS i (Session_appendHistory (s_nick (heap srv dest)) now outMsg) srv;
                             srv3 = updS dest (Session_appendHistory (s_nick s) now outMsg) srv2;
                             srv4 = echo i outMsg (sendDirect i dest outMsg srv3)
                         in if s_away (heap srv4 dest) \<noteq> [] \<and> \<not> notice
                            then SendNumeric i RPL_AWAY [target, s_away (heap srv4 dest)] srv4 else srv4))))"

definition handleTagmsg :: "sid \<Rightarrow> Message \<Rightarrow> Server \<Rightarrow> Server" where
  "handleTagmsg i msg srv0 =
     (if Params msg = [] \<or> hd (Params msg) = [] then SendNumeric i ERR_NORECIPIENT [''No recipient given (TAGMSG)''] srv0
      else if \<not> capEnabled (heap srv0 i) CapMessageTags then srv0
      else case randText srv0 of (mid, srv1) \<Rightarrow>
           (case timeNow srv1 of (now, srv) \<Rightarrow>
           (let target = hd (Params msg); s = heap srv i;
                outMsg = (message (Some (Session_Prefix s)) TAGMSG [target])
                           \<lparr>msg_Tags := relayTags s mid (serverTime srv now) (msg_Tags msg)\<rparr>
            in if isChannelTarget target then relayToChannel i target (\<lambda>ch. ch) outMsg srv
               else case Registry_Get (sessions srv) target of
                      None \<Rightarrow> SendNumeric i ERR_NOSUCHNICK [target, ''No such nick/channel''] srv
                    | Some dest \<Rightarrow> echo i outMsg (sendDirect i dest outMsg srv))))"


subsection \<open>Chat history\<close>

definition sendChatHistoryFail :: "sid \<Rightarrow> string \<Rightarrow> string \<Rightarrow> string \<Rightarrow> Server \<Rightarrow> Server" where
  "sendChatHistoryFail i code subcommand text srv =
     Send i (message (serverPrefix srv) FAIL [CHATHISTORY, code, subcommand, text]) srv"

definition sendHistoryBatch :: "sid \<Rightarrow> string \<Rightarrow> string \<Rightarrow> Entry list \<Rightarrow> bool \<Rightarrow> Server \<Rightarrow> Server" where
  "sendHistoryBatch i batchType target entries complete srv =
     (if capEnabled (heap srv i) CapBatch then
        (case randText srv of (batchID, srv1) \<Rightarrow>
           (let tags = (if complete then [(''draft/chathistory-end'', [])] else []);
                params = [''+'' @ batchID, batchType] @ (if target \<noteq> [] then [target] else []);
                srv2 = Send i ((message (serverPrefix srv1) BATCH params)\<lparr>msg_Tags := tags\<rparr>) srv1;
                srv3 = fold (\<lambda>e. Send i (if batchID \<noteq> [] then putTag ''batch'' batchID (Clone (Msg e)) else Clone (Msg e)))
                         entries srv2
            in if batchID \<noteq> [] then Send i (message (serverPrefix srv3) BATCH [''-'' @ batchID]) srv3 else srv3))
      else fold (\<lambda>e. Send i (Clone (Msg e))) entries srv)"

definition sendChatHistory :: "sid \<Rightarrow> string \<Rightarrow> Entry list \<Rightarrow> bool \<Rightarrow> Server \<Rightarrow> Server" where
  "sendChatHistory i target entries complete srv = sendHistoryBatch i ''chathistory'' target entries complete srv"

text \<open>The latest entry of a history, as an entry of the TARGETS listing, if it lies between the two times.\<close>

definition targetEntry :: "Server \<Rightarrow> time \<Rightarrow> time \<Rightarrow> string \<times> historyEntry list \<Rightarrow> Entry list" where
  "targetEntry srv first second te =
     (case te of (target, es) \<Rightarrow>
        if es = [] then []
        else let t = Time (last es)
             in if t > first \<and> t < second
                then [\<lparr>Time = t, Msg = message None CHATHISTORY [''TARGETS'', target, serverTime srv t]\<rparr>] else [])"

definition historyTargetsOf :: "Server \<Rightarrow> sid \<Rightarrow> time \<Rightarrow> time \<Rightarrow> Entry list" where
  "historyTargetsOf srv i first second =
     (let s = heap srv i;
          chans = map (\<lambda>ch. (ch_name ch, ch_history ch)) (channelsOf (s_nick s) srv)
      in sort_key (\<lambda>e. - Time e) (concat (map (targetEntry srv first second) (chans @ historyTargets s))))"

definition parseTimestamp :: "Server \<Rightarrow> string \<Rightarrow> time option" where
  "parseTimestamp srv v =
     (if HasPrefix v ''timestamp='' then x_parse (ext srv) ServerTimeLayout (TrimPrefix v ''timestamp='') else None)"

definition handleChatHistoryTargets :: "sid \<Rightarrow> Message \<Rightarrow> Server \<Rightarrow> Server" where
  "handleChatHistoryTargets i msg srv =
     (if length (Params msg) \<noteq> 4 then sendChatHistoryFail i ''INVALID_PARAMS'' (Param msg 0) ''Invalid parameters'' srv
      else case (parseTimestamp srv (Params msg ! 1), parseTimestamp srv (Params msg ! 2)) of
             (Some t1, Some t2) \<Rightarrow>
               (case ParseInt64 (Params msg ! 3) of
                  None \<Rightarrow> sendChatHistoryFail i ''INVALID_PARAMS'' (Params msg ! 0) ''Invalid limit'' srv
                | Some lim \<Rightarrow>
                    if lim \<le> 0 then sendChatHistoryFail i ''INVALID_PARAMS'' (Params msg ! 0) ''Invalid limit'' srv
                    else
                      (let targets = historyTargetsOf srv i (min t1 t2) (max t1 t2);
                           complete = (int (length targets) \<le> lim)
                       in sendHistoryBatch i ''draft/chathistory-targets'' [] (take (nat lim) targets) complete srv))
           | _ \<Rightarrow> sendChatHistoryFail i ''INVALID_PARAMS'' (Params msg ! 0) ''Invalid timestamp'' srv)"

text \<open>The history a target stands for, with the name it is reported under.\<close>

definition historyOf :: "Server \<Rightarrow> sid \<Rightarrow> string \<Rightarrow> (string \<times> historyEntry list) option" where
  "historyOf srv i target =
     (if isChannelTarget target then
        (case Channels_Get srv target of
           None \<Rightarrow> None
         | Some ch \<Rightarrow> if HasMember ch (s_nick (heap srv i)) then Some (ch_name ch, ch_history ch) else None)
      else Some (target, Session_historySnapshot (heap srv i) target))"

definition handleChatHistory :: "sid \<Rightarrow> Message \<Rightarrow> Server \<Rightarrow> Server" where
  "handleChatHistory i msg srv =
     (if \<not> capEnabled (heap srv i) CapChatHistory then SendNumeric i ERR_UNKNOWNCOMMAND [CHATHISTORY, ''Unknown command''] srv
      else let subcommand = ToUpper (Param msg 0)
           in if subcommand = ''TARGETS'' then handleChatHistoryTargets i msg srv
              else if length (Params msg) \<noteq> (if subcommand = ''BETWEEN'' then 5 else 4)
              then sendChatHistoryFail i ''INVALID_PARAMS'' (Param msg 0) ''Invalid parameters'' srv
              else case ParseInt64 (last (Params msg)) of
                None \<Rightarrow> sendChatHistoryFail i ''INVALID_PARAMS'' (Params msg ! 0) ''Invalid limit'' srv
              | Some lim \<Rightarrow>
                  if lim \<le> 0 then sendChatHistoryFail i ''INVALID_PARAMS'' (Params msg ! 0) ''Invalid limit'' srv
                  else case historyOf srv i (Params msg ! 1) of
                    None \<Rightarrow> sendChatHistoryFail i ''INVALID_TARGET'' (Params msg ! 0) ''Messages could not be retrieved'' srv
                  | Some (name, stored) \<Rightarrow>
                      (case SelectChatHistory (x_parse (ext srv) ServerTimeLayout) stored subcommand
                              (butlast (drop 2 (Params msg))) (min lim (int chatHistoryLimit)) of
                         Inl e \<Rightarrow>
                           sendChatHistoryFail i
                             (if Contains (err_text e) ''unsupported'' then ''INVALID_MSGREFTYPE'' else ''INVALID_PARAMS'')
                             (Params msg ! 0) (err_text e) srv
                       | Inr (entries, complete) \<Rightarrow> sendChatHistory i name entries complete srv))"

subsection \<open>Channel commands\<close>

text \<open>The lines of a NAMES reply, of about 400 characters.\<close>

fun nameLines :: "string list \<Rightarrow> int \<Rightarrow> string list \<Rightarrow> string list list" where
  "nameLines line lineLen [] = (if line = [] then [] else [line])"
| "nameLines line lineLen (n # ns) =
     (if lineLen + int (length n) + 1 > 400 \<and> line \<noteq> [] then line # nameLines [n] (int (length n) + 1) ns
      else nameLines (line @ [n]) (lineLen + int (length n) + 1) ns)"

definition sendNames :: "sid \<Rightarrow> Channel \<Rightarrow> Server \<Rightarrow> Server" where
  "sendNames i ch srv =
     (let s = heap srv i; multiPrefix = capEnabled s CapMultiPrefix;
          names = (if capEnabled s CapUserHostInNames
                   then map (\<lambda>m. shownPrefix multiPrefix (m_Prefix m) @ Session_mask (heap srv (m_Session m))) (Members ch)
                   else NamesReply srv multiPrefix ch);
          srv1 = fold (\<lambda>line. SendNumeric i RPL_NAMREPLY [''='', ch_name ch, Join line '' '']) (nameLines [] 0 names) srv
      in SendNumeric i RPL_ENDOFNAMES [ch_name ch, ''End of /NAMES list''] srv1)"

definition sendTopic :: "sid \<Rightarrow> string \<Rightarrow> Channel \<Rightarrow> Server \<Rightarrow> Server" where
  "sendTopic i chanName ch srv =
     (if ch_topic ch \<noteq> [] then
        SendNumeric i RPL_TOPICWHOTIME [chanName, ch_topicSetBy ch, show_int (unix (ch_topicSetAt ch))]
          (SendNumeric i RPL_TOPIC [chanName, ch_topic ch] srv)
      else SendNumeric i RPL_NOTOPIC [chanName, ''No topic is set''] srv)"

text \<open>What keeps a session out of a channel: the key, the invite-only mode, the limit.\<close>

definition refuseJoin :: "Channel \<Rightarrow> string \<Rightarrow> string \<Rightarrow> (Numeric \<times> string) option" where
  "refuseJoin ch nick key =
     (if snd (mode_Arg (ch_modes ch) (CHR ''k'')) \<and> fst (mode_Arg (ch_modes ch) (CHR ''k'')) \<noteq> key
      then Some (ERR_BADCHANNELKEY, ''Cannot join channel (+k)'')
      else if mode_Has (ch_modes ch) (CHR ''i'') \<and> \<not> HasMember ch nick
      then Some (ERR_INVITEONLYCHAN, ''Cannot join channel (+i)'')
      else if snd (mode_Arg (ch_modes ch) (CHR ''l'')) \<and>
              (let n = (case Sscan_int (fst (mode_Arg (ch_modes ch) (CHR ''l''))) of None \<Rightarrow> 0 | Some n \<Rightarrow> n)
               in n > 0 \<and> int (length (Members ch)) \<ge> n)
      then Some (ERR_CHANNELISFULL, ''Cannot join channel (+l)'')
      else None)"

definition announceJoin :: "sid \<Rightarrow> string \<Rightarrow> Channel \<Rightarrow> Server \<Rightarrow> Server" where
  "announceJoin i chanName ch srv =
     (let s = heap srv i; joinMsg = message (Some (Session_Prefix s)) JOIN [chanName]
      in fold (\<lambda>m srv.
           Send (m_Session m)
             (if capEnabled (heap srv (m_Session m)) CapExtendedJoin
              then joinMsg\<lparr>Params := [chanName, (if s_account s = [] then ''*'' else s_account s), s_realname s]\<rparr>
              else joinMsg) srv) (Members ch) srv)"

definition joinChannel :: "sid \<Rightarrow> string \<Rightarrow> string \<Rightarrow> Server \<Rightarrow> Server" where
  "joinChannel i chanName key srv0 =
     (if chanName = [] then srv0
      else if \<not> isValidChannelName chanName then SendNumeric i ERR_NOSUCHCHANNEL [chanName, ''Invalid channel name''] srv0
      else case GetOrCreate chanName srv0 of (ch, srv) \<Rightarrow>
           (let nick = s_nick (heap srv i)
            in case refuseJoin ch nick key of
                 Some (n, text) \<Rightarrow> SendNumeric i n [chanName, text] srv
               | None \<Rightarrow>
                   if HasMember ch nick then srv
                   else
                     (let p = (if Members ch = [] then ''@'' else []);
                          ch1 = AddMember i nick p ch;
                          srv1 = updCh (ToLower chanName) (AddMember i nick p) srv;
                          srv2 = sendTopic i chanName ch1 (announceJoin i chanName ch1 srv1)
                      in if \<not> capEnabled (heap srv2 i) CapNoImplicitNames then sendNames i ch1 srv2 else srv2)))"

definition handleJoin :: "sid \<Rightarrow> Message \<Rightarrow> Server \<Rightarrow> Server" where
  "handleJoin i msg srv =
     (if Params msg = [] then SendNumeric i ERR_NEEDMOREPARAMS [JOIN, ''Not enough parameters''] srv
      else let chans = Split (Params msg ! 0) (CHR '','');
               keys = (if length (Params msg) \<ge> 2 then Split (Params msg ! 1) (CHR '','') else [])
           in fold (\<lambda>(k, chanName). joinChannel i chanName (if k < length keys then keys ! k else []))
                (zip [0..<length chans] chans) srv)"

definition notOnChannel :: string where
  "notOnChannel = ''You'' @ [CHR 0x27] @ ''re not on that channel''"

definition notOperator :: string where
  "notOperator = ''You'' @ [CHR 0x27] @ ''re not channel operator''"

text \<open>Taking a member out of a channel, and the channel out of the registry with its last member.\<close>

definition dropMember :: "string \<Rightarrow> string \<Rightarrow> Server \<Rightarrow> Server" where
  "dropMember chanName nick srv =
     (case Channels_Get srv chanName of
        None \<Rightarrow> srv
      | Some ch \<Rightarrow>
          (case RemoveMember nick ch of (ch', gone) \<Rightarrow>
             (let srv1 = updCh (ToLower chanName) (\<lambda>_. ch') srv in if gone then Channels_Remove chanName srv1 else srv1)))"

definition partChannel :: "sid \<Rightarrow> string \<Rightarrow> string \<Rightarrow> Server \<Rightarrow> Server" where
  "partChannel i reason chanName srv =
     (case Channels_Get srv chanName of
        None \<Rightarrow> SendNumeric i ERR_NOSUCHCHANNEL [chanName, ''No such channel''] srv
      | Some ch \<Rightarrow>
          (let s = heap srv i
           in if \<not> HasMember ch (s_nick s) then SendNumeric i ERR_NOTONCHANNEL [chanName, notOnChannel] srv
              else dropMember chanName (s_nick s)
                     (Channel_Broadcast ch
                       (message (Some (Session_Prefix s)) PART (chanName # (if reason \<noteq> [] then [reason] else []))) None srv)))"

definition handlePart :: "sid \<Rightarrow> Message \<Rightarrow> Server \<Rightarrow> Server" where
  "handlePart i msg srv =
     (if Params msg = [] then SendNumeric i ERR_NEEDMOREPARAMS [PART, ''Not enough parameters''] srv
      else let reason = (if length (Params msg) \<ge> 2 then Params msg ! 1 else [])
           in fold (partChannel i reason) (Split (Params msg ! 0) (CHR '','')) srv)"

definition handleTopic :: "sid \<Rightarrow> Message \<Rightarrow> Server \<Rightarrow> Server" where
  "handleTopic i msg srv =
     (if Params msg = [] then SendNumeric i ERR_NEEDMOREPARAMS [TOPIC, ''Not enough parameters''] srv
      else let chanName = Params msg ! 0; s = heap srv i
           in case Channels_Get srv chanName of
                None \<Rightarrow> SendNumeric i ERR_NOSUCHCHANNEL [chanName, ''No such channel''] srv
              | Some ch \<Rightarrow>
                  if \<not> HasMember ch (s_nick s) then SendNumeric i ERR_NOTONCHANNEL [chanName, notOnChannel] srv
                  else if length (Params msg) < 2 then sendTopic i chanName ch srv
                  else if mode_Has (ch_modes ch) (CHR ''t'') \<and>
                          (case GetMembership ch (s_nick s) of None \<Rightarrow> True | Some m \<Rightarrow> \<not> isOperator m)
                  then SendNumeric i ERR_CHANOPRIVSNEEDED [chanName, notOperator] srv
                  else (case timeNow srv of (t, srv1) \<Rightarrow>
                    (let newTopic = Params msg ! 1;
                         srv2 = updCh (ToLower chanName)
                                  (\<lambda>ch. ch\<lparr>ch_topic := newTopic, ch_topicSetBy := Session_mask s, ch_topicSetAt := t\<rparr>) srv1
                     in Channel_Broadcast ch (message (Some (Session_Prefix s)) TOPIC [chanName, newTopic]) None srv2)))"


definition handleNames :: "sid \<Rightarrow> Message \<Rightarrow> Server \<Rightarrow> Server" where
  "handleNames i msg srv =
     (if Params msg = [] then fold (sendNames i) (channelsOf (s_nick (heap srv i)) srv) srv
      else fold (\<lambda>chanName srv. case Channels_Get srv chanName of None \<Rightarrow> srv | Some ch \<Rightarrow> sendNames i ch srv)
             (Split (Params msg ! 0) (CHR '','')) srv)"

definition hidden :: "Channel \<Rightarrow> bool" where
  "hidden ch \<longleftrightarrow> mode_Has (ch_modes ch) (CHR ''s'') \<or> mode_Has (ch_modes ch) (CHR ''p'')"

definition handleList :: "sid \<Rightarrow> Message \<Rightarrow> Server \<Rightarrow> Server" where
  "handleList i msg srv =
     (let srv1 = SendNumeric i RPL_LISTSTART [''Channel'', ''Users  Name''] srv;
          srv2 = fold (\<lambda>ch. SendNumeric i RPL_LIST [ch_name ch, show_nat (length (Members ch)), ch_topic ch])
                   (filter (\<lambda>ch. hidden ch \<longrightarrow> HasMember ch (s_nick (heap srv i))) (Channels_All srv)) srv1
      in SendNumeric i RPL_LISTEND [''End of /LIST''] srv2)"

definition handleKick :: "sid \<Rightarrow> Message \<Rightarrow> Server \<Rightarrow> Server" where
  "handleKick i msg srv =
     (if length (Params msg) < 2 then SendNumeric i ERR_NEEDMOREPARAMS [KICK, ''Not enough parameters''] srv
      else let chanName = Params msg ! 0; target = Params msg ! 1; s = heap srv i;
               reason = (if length (Params msg) \<ge> 3 then Params msg ! 2 else s_nick s)
           in case Channels_Get srv chanName of
                None \<Rightarrow> SendNumeric i ERR_NOSUCHCHANNEL [chanName, ''No such channel''] srv
              | Some ch \<Rightarrow>
                  (case GetMembership ch (s_nick s) of
                     None \<Rightarrow> SendNumeric i ERR_NOTONCHANNEL [chanName, notOnChannel] srv
                   | Some m \<Rightarrow>
                       if \<not> isOperator m then SendNumeric i ERR_CHANOPRIVSNEEDED [chanName, notOperator] srv
                       else if \<not> HasMember ch target
                       then SendNumeric i ERR_USERNOTINCHANNEL
                              [target, chanName, ''They aren'' @ [CHR 0x27] @ ''t on that channel''] srv
                       else dropMember chanName target
                              (Channel_Broadcast ch (message (Some (Session_Prefix s)) KICK [chanName, target, reason]) None srv)))"

definition handleInvite :: "sid \<Rightarrow> Message \<Rightarrow> Server \<Rightarrow> Server" where
  "handleInvite i msg srv =
     (if length (Params msg) < 2 then SendNumeric i ERR_NEEDMOREPARAMS [INVITE, ''Not enough parameters''] srv
      else let target = Params msg ! 0; chanName = Params msg ! 1; s = heap srv i;
               inviteMsg = message (Some (Session_Prefix s)) INVITE [target, chanName]
           in case Registry_Get (sessions srv) target of
                None \<Rightarrow> SendNumeric i ERR_NOSUCHNICK [target, ''No such nick/channel''] srv
              | Some dest \<Rightarrow>
                  (case Channels_Get srv chanName of
                     None \<Rightarrow> Send dest inviteMsg (SendNumeric i RPL_INVITING [target, chanName] srv)
                   | Some ch \<Rightarrow>
                       if \<not> HasMember ch (s_nick s) then SendNumeric i ERR_NOTONCHANNEL [chanName, notOnChannel] srv
                       else
                         fold (\<lambda>m srv.
                             if m_Session m \<noteq> i \<and> capEnabled (heap srv (m_Session m)) CapInviteNotify
                             then Send (m_Session m) inviteMsg srv else srv)
                           (Members ch) (Send dest inviteMsg (SendNumeric i RPL_INVITING [target, chanName] srv))))"

subsection \<open>Modes\<close>

text \<open>One change of a channel: a member's prefix, or the mode set; the changes that had an effect are collected.\<close>

definition applyChannelChange :: "ModeChange \<Rightarrow> Channel \<times> ModeChange list \<Rightarrow> Channel \<times> ModeChange list" where
  "applyChannelChange change st =
     (case st of (ch, applied) \<Rightarrow>
        if List.member ''qaohv'' (Mode change) then
          (case applyMembershipMode change ch of (ch', effect) \<Rightarrow> (ch', if effect then applied @ [change] else applied))
        else
          (case Apply ChannelValidator (ch_modes ch) [change] of (modes, done) \<Rightarrow>
             (ch\<lparr>ch_modes := modes\<rparr>, applied @ done)))"

definition handleChannelMode :: "sid \<Rightarrow> Message \<Rightarrow> string \<Rightarrow> Server \<Rightarrow> Server" where
  "handleChannelMode i msg chanName srv =
     (case Channels_Get srv chanName of
        None \<Rightarrow> SendNumeric i ERR_NOSUCHCHANNEL [chanName, ''No such channel''] srv
      | Some ch \<Rightarrow>
          if length (Params msg) < 2 then
            SendNumeric i RPL_CREATIONTIME [chanName, show_int (unix (ch_createdAt ch))]
              (SendNumeric i RPL_CHANNELMODEIS [chanName, mode_String (ch_modes ch)] srv)
          else if length (Params msg) = 2 \<and> length (Params msg ! 1) = 1 \<and>
                  ChannelValidator_Type (hd (Params msg ! 1)) = TypeList then
            SendNumeric i RPL_ENDOFBANLIST [chanName, ''End of ban list'']
              (fold (\<lambda>entry. SendNumeric i RPL_BANLIST [chanName, entry]) (mode_List (ch_modes ch) (hd (Params msg ! 1))) srv)
          else
     (let s = heap srv i
      in case GetMembership ch (s_nick s) of
           None \<Rightarrow> SendNumeric i ERR_NOTONCHANNEL [chanName, notOnChannel] srv
         | Some m \<Rightarrow>
             if \<not> isOperator m \<and> \<not> s_isOper s then SendNumeric i ERR_CHANOPRIVSNEEDED [chanName, notOperator] srv
             else
               (case fold applyChannelChange (ParseModeString (Params msg ! 1) (drop 2 (Params msg))) (ch, []) of
                  (ch', applied) \<Rightarrow>
                    (let srv1 = updCh (ToLower chanName) (\<lambda>_. ch') srv
                     in if applied = [] then srv1
                        else case FormatModeChanges applied of (modeStr, margs) \<Rightarrow>
                               Channel_Broadcast ch' (message (Some (Session_Prefix s)) MODE (chanName # modeStr # margs)) None srv1))))"

definition handleUserMode :: "sid \<Rightarrow> Message \<Rightarrow> string \<Rightarrow> Server \<Rightarrow> Server" where
  "handleUserMode i msg target srv =
     (let s = heap srv i
      in if \<not> EqualFold target (s_nick s) \<and> \<not> s_isOper s
         then SendNumeric i ERR_USERSDONTMATCH [''Cannot change mode for other users''] srv
         else case Registry_Get (sessions srv) target of
                None \<Rightarrow> SendNumeric i ERR_NOSUCHNICK [target, ''No such nick''] srv
              | Some dest \<Rightarrow>
                  if length (Params msg) < 2 then SendNumeric i RPL_UMODEIS [mode_String (s_modes (heap srv dest))] srv
                  else
                    (case Apply UserValidator (s_modes (heap srv dest))
                            (ParseModeString (Params msg ! 1) (drop 2 (Params msg))) of (modes, applied) \<Rightarrow>
                       (let srv1 = updS dest (\<lambda>s. s\<lparr>s_modes := modes\<rparr>) srv
                        in if applied = [] then srv1
                           else case FormatModeChanges applied of (modeStr, margs) \<Rightarrow>
                                  Send dest (message (Some (Session_Prefix s)) MODE (target # modeStr # margs)) srv1)))"

definition handleMode :: "sid \<Rightarrow> Message \<Rightarrow> Server \<Rightarrow> Server" where
  "handleMode i msg srv =
     (if Params msg = [] then SendNumeric i ERR_NEEDMOREPARAMS [MODE, ''Not enough parameters''] srv
      else let target = Params msg ! 0
           in if isChannelTarget target then handleChannelMode i msg target srv else handleUserMode i msg target srv)"

subsection \<open>Queries\<close>

definition whoFlags :: "Session \<Rightarrow> string" where
  "whoFlags u = (if s_away u \<noteq> [] then ''G'' else ''H'')"

definition whoReply :: "sid \<Rightarrow> string \<Rightarrow> string \<Rightarrow> sid \<Rightarrow> Server \<Rightarrow> Server" where
  "whoReply i m p j srv =
     (let u = heap srv j
      in SendNumeric i RPL_WHOREPLY
           [m, s_user u, s_host u, c_Name (cfg srv), s_nick u, whoFlags u @ p, ''0 '' @ s_realname u] srv)"

definition handleWho :: "sid \<Rightarrow> Message \<Rightarrow> Server \<Rightarrow> Server" where
  "handleWho i msg srv =
     (let m = (if Params msg \<noteq> [] then hd (Params msg) else ''*'');
          srv1 =
            (if isChannelTarget m then
               (case Channels_Get srv m of
                  None \<Rightarrow> srv
                | Some ch \<Rightarrow> fold (\<lambda>mem. whoReply i m (m_Prefix mem) (m_Session mem)) (Members ch) srv)
             else
               fold (\<lambda>j srv.
                   if matchMask m (Session_mask (heap srv j)) \<or> matchMask m (s_nick (heap srv j))
                   then whoReply i m [] j srv else srv)
                 (Registry_All (sessions srv)) srv)
      in SendNumeric i RPL_ENDOFWHO [m, ''End of /WHO list''] srv1)"

definition whoisChannels :: "Server \<Rightarrow> string \<Rightarrow> string list" where
  "whoisChannels srv nick =
     concat (map (\<lambda>ch. case GetMembership ch nick of None \<Rightarrow> [] | Some m \<Rightarrow> [m_Prefix m @ ch_name ch]) (Channels_All srv))"

definition handleWhois :: "sid \<Rightarrow> Message \<Rightarrow> Server \<Rightarrow> Server" where
  "handleWhois i msg srv =
     (if Params msg = [] then SendNumeric i ERR_NONICKNAMEGIVEN [''No nickname given''] srv
      else let nick = hd (Params msg)
           in case Registry_Get (sessions srv) nick of
                None \<Rightarrow>
                  SendNumeric i RPL_ENDOFWHOIS [nick, ''End of /WHOIS list'']
                    (SendNumeric i ERR_NOSUCHNICK [nick, ''No such nick/channel''] srv)
              | Some j \<Rightarrow>
                  (let t = heap srv j; chans = whoisChannels srv (s_nick t);
                       srv1 = SendNumeric i RPL_WHOISUSER [s_nick t, s_user t, s_host t, ''*'', s_realname t] srv;
                       srv2 = (if s_account t \<noteq> []
                               then SendNumeric i RPL_WHOISACCOUNT [s_nick t, s_account t, ''is logged in as''] srv1 else srv1);
                       srv3 = SendNumeric i RPL_WHOISSERVER [s_nick t, c_Name (cfg srv), c_Network (cfg srv)] srv2;
                       srv4 = (if chans \<noteq> [] then SendNumeric i RPL_WHOISCHANNELS [s_nick t, Join chans '' ''] srv3 else srv3);
                       srv5 = (if s_isOper t then SendNumeric i RPL_WHOISOPERATOR [s_nick t, ''is an IRC operator''] srv4 else srv4);
                       srv6 = (if s_away t \<noteq> [] then SendNumeric i RPL_AWAY [s_nick t, s_away t] srv5 else srv5)
                   in case timeNow srv6 of (now, srv7) \<Rightarrow>
                        SendNumeric i RPL_ENDOFWHOIS [s_nick t, ''End of /WHOIS list'']
                          (SendNumeric i RPL_WHOISIDLE
                            [s_nick t, show_int (quot_int (now - s_idleAt t) (10 ^ 9)), show_int (unix (s_signOnAt t)),
                             ''seconds idle, signon time''] srv7)))"

definition handleWhowas :: "sid \<Rightarrow> Message \<Rightarrow> Server \<Rightarrow> Server" where
  "handleWhowas i msg srv =
     (if Params msg = [] then SendNumeric i ERR_NONICKNAMEGIVEN [''No nickname given''] srv
      else let nick = hd (Params msg); matches = filter (\<lambda>e. EqualFold (w_nick e) nick) (rev (whowas srv));
               srv1 = fold (\<lambda>e srv.
                          SendNumeric i RPL_WHOISSERVER
                            [w_nick e, c_Name (cfg srv), x_format (ext srv) ''Mon Jan 02 15:04:05 2006'' (w_quitAt e)]
                            (SendNumeric i RPL_WHOWASUSER [w_nick e, w_user e, w_host e, ''*'', w_realname e] srv))
                        matches srv;
               srv2 = (if matches = [] then SendNumeric i ERR_WASNOSUCHNICK [nick, ''There was no such nickname''] srv1 else srv1)
           in SendNumeric i RPL_ENDOFWHOWAS [nick, ''End of WHOWAS''] srv2)"


subsection \<open>User state\<close>

definition awayMessage :: "Session \<Rightarrow> Message" where
  "awayMessage s = message (Some (Session_Prefix s)) AWAY (if s_away s \<noteq> [] then [s_away s] else [])"

definition handleAway :: "sid \<Rightarrow> Message \<Rightarrow> Server \<Rightarrow> Server" where
  "handleAway i msg srv =
     (let srv1 =
            (if Params msg = [] \<or> hd (Params msg) = [] then
               SendNumeric i RPL_UNAWAY [''You are no longer marked as being away''] (updS i (\<lambda>s. s\<lparr>s_away := []\<rparr>) srv)
             else
               SendNumeric i RPL_NOWAWAY [''You have been marked as being away'']
                 (updS i (\<lambda>s. s\<lparr>s_away := hd (Params msg)\<rparr>) srv));
          s = heap srv1 i; awayMsg = awayMessage s;
          members = concat (map (\<lambda>ch. map m_Session (Members ch)) (channelsOf (s_nick s) srv1));
          st = fold (\<lambda>j st. if j \<noteq> i \<and> capEnabled (heap (snd st) j) CapAwayNotify then notify awayMsg j st else st)
                 members ([], srv1)
      in snd (fold (notify awayMsg) (extendedMonitorPeers i CapAwayNotify (snd st)) st))"

definition userhostEntry :: "Server \<Rightarrow> string \<Rightarrow> string list" where
  "userhostEntry srv nick =
     (case Registry_Get (sessions srv) nick of
        None \<Rightarrow> []
      | Some j \<Rightarrow>
          (let u = heap srv j
           in [s_nick u @ (if s_isOper u then ''*'' else []) @ ''='' @ (if s_away u \<noteq> [] then ''-'' else ''+'') @
               s_user u @ ''@'' @ s_host u]))"

definition handleUserhost :: "sid \<Rightarrow> Message \<Rightarrow> Server \<Rightarrow> Server" where
  "handleUserhost i msg srv =
     SendNumeric i RPL_USERHOST [Join (concat (map (userhostEntry srv) (Params msg))) '' ''] srv"

definition handleIson :: "sid \<Rightarrow> Message \<Rightarrow> Server \<Rightarrow> Server" where
  "handleIson i msg srv =
     SendNumeric i RPL_ISON [Join (filter (\<lambda>nick. Registry_Get (sessions srv) nick \<noteq> None) (Params msg)) '' ''] srv"

text \<open>The masks of those online and the names of those offline.\<close>

definition onlineMasks :: "Server \<Rightarrow> string list \<Rightarrow> string list" where
  "onlineMasks srv nicks =
     concat (map (\<lambda>nick. case Registry_Get (sessions srv) nick of None \<Rightarrow> [] | Some j \<Rightarrow> [Session_mask (heap srv j)]) nicks)"

definition offlineNicks :: "Server \<Rightarrow> string list \<Rightarrow> string list" where
  "offlineNicks srv nicks = filter (\<lambda>nick. Registry_Get (sessions srv) nick = None) nicks"

text \<open>Adding names to a monitor list: the new list, the names accepted and the names rejected.\<close>

fun monitorAdd :: "(string \<times> string) list \<Rightarrow> string list \<Rightarrow> (string \<times> string) list \<times> string list \<times> string list" where
  "monitorAdd mon [] = (mon, [], [])"
| "monitorAdd mon (nick # nicks) =
     (if \<not> isValidNick nick then monitorAdd mon nicks
      else if map_of mon (ToLower nick) = None \<and> length mon \<ge> monitorLimit then
        (case monitorAdd mon nicks of (mon', acc, rej) \<Rightarrow> (mon', acc, nick # rej))
      else
        (case monitorAdd (if map_of mon (ToLower nick) = None then AList.update (ToLower nick) nick mon else mon) nicks of
           (mon', acc, rej) \<Rightarrow> (mon', nick # acc, rej)))"

definition sendStatus2 :: "sid \<Rightarrow> string list \<Rightarrow> Server \<Rightarrow> Server" where
  "sendStatus2 i nicks srv =
     (let online = onlineMasks srv nicks; offline = offlineNicks srv nicks
      in sendMonitorList i RPL_MONOFFLINE offline (sendMonitorList i RPL_MONONLINE online srv))"

definition handleMonitor :: "sid \<Rightarrow> Message \<Rightarrow> Server \<Rightarrow> Server" where
  "handleMonitor i msg srv =
     (let needMore = SendNumeric i ERR_NEEDMOREPARAMS [MONITOR, ''Not enough parameters'']
      in if Params msg = [] then needMore srv
         else let op = ToUpper (Params msg ! 0)
              in if op = ''+'' then
                   (if length (Params msg) < 2 then needMore srv
                    else case monitorAdd (s_monitor (heap srv i)) (Split (Params msg ! 1) (CHR '','')) of (mon, acc, rejected) \<Rightarrow>
                      (let srv1 = sendStatus2 i acc (updS i (\<lambda>s. s\<lparr>s_monitor := mon\<rparr>) srv)
                       in if rejected \<noteq> []
                          then SendNumeric i ERR_MONLISTFULL
                                 [show_nat monitorLimit, Join rejected '','', ''Monitor list is full''] srv1
                          else srv1))
                 else if op = ''-'' then
                   (if length (Params msg) < 2 then needMore srv
                    else updS i (\<lambda>s. s\<lparr>s_monitor :=
                           fold (\<lambda>nick. AList.delete (ToLower nick)) (Split (Params msg ! 1) (CHR '','')) (s_monitor s)\<rparr>) srv)
                 else if op = ''C'' then updS i (\<lambda>s. s\<lparr>s_monitor := []\<rparr>) srv
                 else if op = ''L'' then
                   SendNumeric i RPL_ENDOFMONLIST [''End of MONITOR list'']
                     (sendMonitorList i RPL_MONLIST (sort_key ToLower (monitorSnapshot (heap srv i))) srv)
                 else if op = ''S'' then sendStatus2 i (monitorSnapshot (heap srv i)) srv
                 else SendNumeric i ERR_NEEDMOREPARAMS [MONITOR, ''Invalid MONITOR subcommand''] srv)"

subsection \<open>Operators\<close>

definition handleOper :: "sid \<Rightarrow> Message \<Rightarrow> Server \<Rightarrow> Server" where
  "handleOper i msg srv =
     (if length (Params msg) < 2 then SendNumeric i ERR_NEEDMOREPARAMS [OPER, ''Not enough parameters''] srv
      else let mismatch = SendNumeric i ERR_PASSWDMISMATCH [''Password incorrect'']
           in case map_of (c_Opers (cfg srv)) (Params msg ! 0) of
                None \<Rightarrow> mismatch srv
              | Some hash \<Rightarrow>
                  (case checkPassword i hash (Params msg ! 1) srv of (ok, srv) \<Rightarrow>
                     if \<not> ok then mismatch srv
                     else
                       (let srv1 = updS i (\<lambda>s. s\<lparr>s_isOper := True,
                                     s_modes := fst (Apply UserValidator (s_modes s) [\<lparr>Add = True, Mode = CHR ''o'', Arg = []\<rparr>])\<rparr>) srv;
                            srv2 = SendNumeric i RPL_YOUROPER [''You are now an IRC operator''] srv1
                        in Send i (message (serverPrefix srv2) MODE [s_nick (heap srv2 i), ''+o'']) srv2)))"

definition handleKill :: "sid \<Rightarrow> Message \<Rightarrow> Server \<Rightarrow> Server" where
  "handleKill i msg srv =
     (let s = heap srv i
      in if \<not> s_isOper s
         then SendNumeric i ERR_NOPRIVILEGES [''Permission Denied- You'' @ [CHR 0x27] @ ''re not an IRC operator''] srv
         else if length (Params msg) < 2 then SendNumeric i ERR_NEEDMOREPARAMS [KILL, ''Not enough parameters''] srv
         else case Registry_Get (sessions srv) (Params msg ! 0) of
                None \<Rightarrow> SendNumeric i ERR_NOSUCHNICK [Params msg ! 0, ''No such nick''] srv
              | Some j \<Rightarrow>
                  closeSession j (Send j (message (Some (Session_Prefix s)) ERROR
                    [''Killed by '' @ s_nick s @ '' ('' @ Params msg ! 1 @ '')'']) srv))"

text \<open>The announcement of a new real name; the state carries the nicknames notified so far.\<close>

definition notifyNick :: "Message \<Rightarrow> sid \<Rightarrow> string list \<times> Server \<Rightarrow> string list \<times> Server" where
  "notifyNick msg j st =
     (case st of (notified, srv) \<Rightarrow>
        (let key = ToLower (s_nick (heap srv j))
         in if List.member notified key then (notified, srv) else (key # notified, Send j msg srv)))"

definition handleSetname :: "sid \<Rightarrow> Message \<Rightarrow> Server \<Rightarrow> Server" where
  "handleSetname i msg srv =
     (if Params msg = [] then srv
      else
        (let srv1 = updS i (\<lambda>s. s\<lparr>s_realname := hd (Params msg)\<rparr>) srv; s = heap srv1 i;
             setMsg = message (Some (Session_Prefix s)) SETNAME [s_realname s];
             srv2 = (if capEnabled s CapSetname then Send i setMsg srv1 else srv1);
             members = concat (map (\<lambda>ch. map m_Session (Members ch)) (channelsOf (s_nick s) srv2));
             st = fold (\<lambda>j st. if capEnabled (heap (snd st) j) CapSetname then notifyNick setMsg j st else st)
                    members ([ToLower (s_nick s)], srv2)
         in snd (fold (notifyNick setMsg) (extendedMonitorPeers i CapSetname (snd st)) st)))"

end
