(* ===== verification/IrcDispatch.thy ===== *)
theory IrcDispatch
  imports IrcHandlers
begin

text \<open>
  The dispatcher of \<open>irc/server/handlers.go\<close>, and the life of a connection in \<open>irc/server/server.go\<close>: accepting,
  reading lines, and removing the session when the connection ends. A run of the server is a sequence of
  these steps, for any sessions in any order.
\<close>

section \<open>Definitions\<close>

text \<open>The commands of a registered session, the second switch of \<open>dispatch\<close>.\<close>

definition dispatchRegistered :: "sid \<Rightarrow> string \<Rightarrow> Message \<Rightarrow> Server \<Rightarrow> Server" where
  "dispatchRegistered i cmd msg srv =
     (if cmd = JOIN then handleJoin i msg srv
      else if cmd = PART then handlePart i msg srv
      else if cmd = TOPIC then handleTopic i msg srv
      else if cmd = NAMES then handleNames i msg srv
      else if cmd = LIST then handleList i msg srv
      else if cmd = KICK then handleKick i msg srv
      else if cmd = INVITE then handleInvite i msg srv
      else if cmd = MODE then handleMode i msg srv
      else if cmd = PRIVMSG then handlePrivmsg i msg False srv
      else if cmd = NOTICE then handlePrivmsg i msg True srv
      else if cmd = TAGMSG then handleTagmsg i msg srv
      else if cmd = CHATHISTORY then handleChatHistory i msg srv
      else if cmd = WHO then handleWho i msg srv
      else if cmd = WHOIS then handleWhois i msg srv
      else if cmd = WHOWAS then handleWhowas i msg srv
      else if cmd = AWAY then handleAway i msg srv
      else if cmd = NICK then handleNickRegistered i msg srv
      else if cmd = USERHOST then handleUserhost i msg srv
      else if cmd = ISON then handleIson i msg srv
      else if cmd = MONITOR then handleMonitor i msg srv
      else if cmd = PING then handlePing i msg srv
      else if cmd = MOTD then sendMOTD i srv
      else if cmd = LUSERS then sendLusers i srv
      else if cmd = VERSION then handleVersion i srv
      else if cmd = TIME then handleTime i srv
      else if cmd = ADMIN then handleAdmin i srv
      else if cmd = INFO then handleInfo i srv
      else if cmd = STATS then handleStats i msg srv
      else if cmd = WALLOPS then handleWallops i msg srv
      else if cmd = OPER then handleOper i msg srv
      else if cmd = KILL then handleKill i msg srv
      else if cmd = SETNAME then handleSetname i msg srv
      else SendNumeric i ERR_UNKNOWNCOMMAND [cmd, ''Unknown command''] srv)"

definition irc_dispatch :: "sid \<Rightarrow> Message \<Rightarrow> Server \<Rightarrow> Server" where
  "irc_dispatch i msg srv =
     (let cmd = ToUpper (Command msg)
      in if cmd = CAP then handleCAP i msg srv
         else if cmd = PASS then handlePass i msg srv
         else if cmd = NICK then handleNick i msg srv
         else if cmd = USER then handleUser i msg srv
         else if cmd = QUIT then handleQuit i msg srv
         else if cmd = PING then handlePing i msg srv
         else if cmd = PONG then srv
         else if cmd = AUTHENTICATE then handleAuthenticate i msg srv
         else if s_state (heap srv i) \<noteq> StateRegistered
         then SendNumeric i ERR_NOTREGISTERED [''You have not registered''] srv
         else dispatchRegistered i cmd msg srv)"

text \<open>The label of a message whose response is captured.\<close>

definition responseLabel :: "Session \<Rightarrow> Message \<Rightarrow> string option" where
  "responseLabel s msg =
     (case Tags_Get (msg_Tags msg) ''label'' of (label, ok) \<Rightarrow>
        if \<not> ok \<or> label = [] \<or> length label > 64 \<or> Command msg = QUIT \<or> \<not> capEnabled s CapLabeledResponse \<or> \<not> capEnabled s CapBatch
        then None else Some label)"

definition dispatchCommand :: "sid \<Rightarrow> Message \<Rightarrow> Server \<Rightarrow> Server" where
  "dispatchCommand i msg srv =
     (case responseLabel (heap srv i) msg of
        None \<Rightarrow> irc_dispatch i msg srv
      | Some label \<Rightarrow>
          (case finishResponse i (irc_dispatch i msg (updS i (beginResponse label) srv)) of (response, srv) \<Rightarrow>
             sendPrepared i response srv))"

subsection \<open>Connections\<close>

definition acceptConn :: "string \<Rightarrow> bool \<Rightarrow> string \<Rightarrow> Server \<Rightarrow> Server" where
  "acceptConn host secure name srv =
     (let current = clientsCurrent srv + 1
      in if c_MaxClients (cfg srv) > 0 \<and> current > c_MaxClients (cfg srv) then srv
         else
           (case timeNow (srv\<lparr>clientsCurrent := current\<rparr>) of (t1, srv1) \<Rightarrow>
           (case timeNow srv1 of (t2, srv2) \<Rightarrow>
              (let i = nextSid srv;
                   s = (newSession0 host t1 t2)\<lparr>s_secure := secure, s_serverName := name\<rparr>;
                   s' = (if secure then s\<lparr>s_modes := fst (Apply UserValidator (s_modes s) [\<lparr>Add = True, Mode = CHR ''z'', Arg = []\<rparr>])\<rparr>
                         else s)
               in srv2\<lparr>clientsTotal := clientsTotal srv + 1, nextSid := Suc i, live := i # live srv,
                       heap := (heap srv)(i := s'\<lparr>s_conn := (s_conn s')\<lparr>asyncWrite := True\<rparr>\<rparr>)\<rparr>))))"

text \<open>One line of \<open>handleSession\<close>.\<close>

definition sessionLine :: "sid \<Rightarrow> string \<Rightarrow> Server \<Rightarrow> Server" where
  "sessionLine i line srv =
     (if InputTooLong line then SendNumeric i ERR_INPUTTOOLONG [''Input line was too long''] srv
      else case Parse line of
             Inl e \<Rightarrow> srv
           | Inr msg \<Rightarrow>
               (case timeNow srv of (t, srv) \<Rightarrow> dispatchCommand i msg (updS i (\<lambda>s. s\<lparr>s_idleAt := t\<rparr>) srv)))"

text \<open>One channel of \<open>removeSession\<close>.\<close>

definition quitChannel :: "sid \<Rightarrow> string \<Rightarrow> Server \<Rightarrow> Server" where
  "quitChannel i key srv =
     (case map_of (channels srv) key of
        None \<Rightarrow> srv
      | Some ch \<Rightarrow>
          (let s = heap srv i
           in if \<not> HasMember ch (s_nick s) then srv
              else
                (let srv1 = Channel_Broadcast ch (message (Some (Session_Prefix s)) QUIT [''Connection closed'']) (Some i) srv
                 in case RemoveMember (s_nick s) ch of (ch', gone) \<Rightarrow>
                      (let srv2 = updCh key (\<lambda>_. ch') srv1 in if gone then Channels_Remove (ch_name ch) srv2 else srv2))))"

definition removeSession :: "sid \<Rightarrow> Server \<Rightarrow> Server" where
  "removeSession i srv0 =
     (let s = heap srv0 i
      in if s_nick s = [] then srv0
         else
           (case timeNow srv0 of (t, srv) \<Rightarrow>
              (let entries = whowas srv @ [\<lparr>w_nick = s_nick s, w_user = s_user s, w_host = s_host s, w_realname = s_realname s, w_quitAt = t\<rparr>];
                   srv1 = srv\<lparr>whowas := (if length entries > 256 then tl entries else entries)\<rparr>;
                   srv2 = fold (quitChannel i) (map fst (channels srv1)) srv1;
                   srv3 = srv2\<lparr>sessions := Registry_Remove (sessions srv2) (s_nick s)\<rparr>
               in notifyMonitorOffline (s_nick s) srv3)))"

text \<open>The end of \<open>handleSession\<close>.\<close>

definition disconnect :: "sid \<Rightarrow> Server \<Rightarrow> Server" where
  "disconnect i srv =
     updS i (\<lambda>s. s\<lparr>s_conn := (conn_Close (s_conn s))\<lparr>writerDone := True\<rparr>\<rparr>)
       (removeSession i (srv\<lparr>clientsCurrent := clientsCurrent srv - 1, live := remove1 i (live srv)\<rparr>))"

subsection \<open>Runs\<close>

datatype event =
    Accept string bool string
  | Line sid string
  | Disconnect sid
  | Write sid
  | Announce Message

text \<open>An event of a session needs its connection.\<close>

fun enabled :: "event \<Rightarrow> Server \<Rightarrow> bool" where
  "enabled (Line i _) srv = List.member (live srv) i"
| "enabled (Disconnect i) srv = List.member (live srv) i"
| "enabled _ srv = True"

fun step :: "event \<Rightarrow> Server \<Rightarrow> Server" where
  "step (Accept host secure name) srv = acceptConn host secure name srv"
| "step (Line i line) srv = sessionLine i line srv"
| "step (Disconnect i) srv = disconnect i srv"
| "step (Write i) srv = updS i (\<lambda>s. s\<lparr>s_conn := writerStep (s_conn s)\<rparr>) srv"
| "step (Announce msg) srv = Server_Broadcast msg srv"

end
