(* ===== verification/IrcEffects.thy ===== *)
theory IrcEffects
  imports IrcDispatch
begin

text \<open>
  What a command may change. The core of a server is the server without its output: queues, captured responses
  and the position in the clock and random sequences. The relation \<open>effect\<close> lists the changes of the core
  a session may cause, each with the condition under which it is allowed, and the lemmas show for every
  handler that it is a sequence of such effects.
\<close>

section \<open>Definitions\<close>

definition strip :: "Session \<Rightarrow> Session" where
  "strip s = s\<lparr>s_conn := newConn, s_response := noResponse, captureImmediate := False\<rparr>"

definition core :: "Server \<Rightarrow> Server" where
  "core srv = srv\<lparr>heap := (\<lambda>i. strip (heap srv i)), calls := 0\<rparr>"

definition verb :: "Message \<Rightarrow> string" where
  "verb q = ToUpper (Command q)"

text \<open>The effects the message \<open>q\<close> of session \<open>i\<close> may have: the command each of them needs, and what else
  allows it.\<close>

inductive effect :: "sid \<Rightarrow> Message \<Rightarrow> Server \<Rightarrow> Server \<Rightarrow> bool" for i :: sid and q :: Message where
  eff_nick: "verb q = NICK \<Longrightarrow> isValidNick n \<Longrightarrow> \<not> nickTaken c i n \<Longrightarrow> effect i q c (updS i (\<lambda>s. s\<lparr>s_nick := n\<rparr>) c)"
| eff_nick_lost: "verb q \<in> {NICK, USER, CAP} \<Longrightarrow> s_state (heap c i) = StatePreReg \<Longrightarrow>
     effect i q c (updS i (\<lambda>s. s\<lparr>s_nick := []\<rparr>) c)"
| eff_user: "verb q = USER \<Longrightarrow> s_state (heap c i) \<noteq> StateRegistered \<Longrightarrow>
     effect i q c (updS i (\<lambda>s. s\<lparr>s_user := cleanUsername u, s_realname := r\<rparr>) c)"
| eff_register: "verb q \<in> {NICK, USER, CAP} \<Longrightarrow> s_state (heap c i) = StatePreReg \<Longrightarrow>
     s_nick (heap c i) \<noteq> [] \<Longrightarrow> s_user (heap c i) \<noteq> [] \<Longrightarrow> Registry_Add (sessions c) (s_nick (heap c i)) i = Inr reg \<Longrightarrow>
     effect i q c (updS i (\<lambda>s. s\<lparr>s_state := StateRegistered\<rparr>) (c\<lparr>sessions := reg\<rparr>))"
| eff_negotiate: "verb q = CAP \<Longrightarrow> s_state (heap c i) \<noteq> StateRegistered \<Longrightarrow> st \<noteq> StateRegistered \<Longrightarrow>
     effect i q c (updS i (\<lambda>s. s\<lparr>s_state := st\<rparr>) c)"
| eff_cap_version: "verb q = CAP \<Longrightarrow> 302 \<le> v \<Longrightarrow>
     effect i q c (updS i (\<lambda>s. s\<lparr>s_capVersion := v, s_caps := AList.update CapCapNotify True (s_caps s)\<rparr>) c)"
| eff_cap: "verb q = CAP \<Longrightarrow> list_all (capKnown (supportedCaps c (heap c i))) caps \<Longrightarrow>
     effect i q c (updS i (fold setCap caps) c)"
| eff_sasl: "verb q \<in> {AUTHENTICATE, CAP} \<Longrightarrow> length b \<le> maxSASLPayload \<Longrightarrow> (active \<Longrightarrow> capEnabled (heap c i) CapSASL) \<Longrightarrow>
     effect i q c (updS i (\<lambda>s. s\<lparr>s_saslActive := active, s_saslBuffer := b\<rparr>) c)"
| eff_login: "verb q = AUTHENTICATE \<Longrightarrow> capEnabled (heap c i) CapSASL \<Longrightarrow> map_of (accounts c) (ToLower name) = Some a \<Longrightarrow>
     x_bcrypt (ext c) (a_PasswordHash a) pass \<Longrightarrow> effect i q c (updS i (\<lambda>s. s\<lparr>s_account := a_Name a\<rparr>) c)"
| eff_host: "verb q = AUTHENTICATE \<Longrightarrow> map_of (accounts c) (ToLower name) = Some a \<Longrightarrow> s_account (heap c i) = a_Name a \<Longrightarrow>
     effect i q c (updS i (\<lambda>s. s\<lparr>s_host := a_Host a\<rparr>) c)"
| eff_oper: "verb q = OPER \<Longrightarrow> s_state (heap c i) = StateRegistered \<Longrightarrow> 2 \<le> length (Params q) \<Longrightarrow>
     map_of (c_Opers (cfg c)) (Params q ! 0) = Some hash \<Longrightarrow> x_bcrypt (ext c) hash (Params q ! 1) \<Longrightarrow>
     effect i q c (updS i (\<lambda>s. s\<lparr>s_isOper := True,
       s_modes := fst (Apply UserValidator (s_modes s) [\<lparr>Add = True, Mode = CHR ''o'', Arg = []\<rparr>])\<rparr>) c)"
| eff_user_mode: "verb q = MODE \<Longrightarrow> s_state (heap c i) = StateRegistered \<Longrightarrow>
     EqualFold target (s_nick (heap c i)) \<or> s_isOper (heap c i) \<Longrightarrow> Registry_Get (sessions c) target = Some j \<Longrightarrow>
     effect i q c (updS j (\<lambda>s. s\<lparr>s_modes := fst (Apply UserValidator (s_modes s) changes)\<rparr>) c)"
| eff_away: "verb q = AWAY \<Longrightarrow> s_state (heap c i) = StateRegistered \<Longrightarrow> effect i q c (updS i (\<lambda>s. s\<lparr>s_away := a\<rparr>) c)"
| eff_realname: "verb q = SETNAME \<Longrightarrow> s_state (heap c i) = StateRegistered \<Longrightarrow>
     effect i q c (updS i (\<lambda>s. s\<lparr>s_realname := a\<rparr>) c)"
| eff_idle: "effect i q c (updS i (\<lambda>s. s\<lparr>s_idleAt := t\<rparr>) c)"
| eff_monitor: "verb q = MONITOR \<Longrightarrow> s_state (heap c i) = StateRegistered \<Longrightarrow>
     length mon \<le> max monitorLimit (length (s_monitor (heap c i))) \<Longrightarrow> effect i q c (updS i (\<lambda>s. s\<lparr>s_monitor := mon\<rparr>) c)"
| eff_message: "verb q \<in> {PRIVMSG, NOTICE} \<Longrightarrow> s_state (heap c i) = StateRegistered \<Longrightarrow>
     Registry_Get (sessions c) target = Some j \<Longrightarrow> msg_Prefix m = Some (Session_Prefix (heap c i)) \<Longrightarrow>
     effect i q c (updS j (Session_appendHistory (s_nick (heap c i)) at m)
       (updS i (Session_appendHistory (s_nick (heap c j)) at m) c))"
| eff_channel_message: "verb q \<in> {PRIVMSG, NOTICE} \<Longrightarrow> s_state (heap c i) = StateRegistered \<Longrightarrow>
     refuseChannel c i target = None \<Longrightarrow> msg_Prefix m = Some (Session_Prefix (heap c i)) \<Longrightarrow>
     effect i q c (updCh (ToLower target) (Channel_appendHistory at m) c)"
| eff_join: "verb q = JOIN \<Longrightarrow> s_state (heap c i) = StateRegistered \<Longrightarrow> isValidChannelName name \<Longrightarrow>
     ch = (case Channels_Get c name of Some ch \<Rightarrow> ch | None \<Rightarrow> newChannel name t) \<Longrightarrow>
     refuseJoin ch (s_nick (heap c i)) key = None \<Longrightarrow> \<not> HasMember ch (s_nick (heap c i)) \<Longrightarrow>
     effect i q c (c\<lparr>channels := AList.update (ToLower name)
       (AddMember i (s_nick (heap c i)) (if Members ch = [] then ''@'' else []) ch) (channels c)\<rparr>)"
| eff_leave: "verb q \<in> {PART, KICK} \<Longrightarrow> s_state (heap c i) = StateRegistered \<Longrightarrow> Channels_Get c name = Some ch \<Longrightarrow>
     GetMembership ch (s_nick (heap c i)) = Some m \<Longrightarrow> target = s_nick (heap c i) \<or> isOperator m \<Longrightarrow>
     effect i q c (dropMember name target c)"
| eff_topic: "verb q = TOPIC \<Longrightarrow> s_state (heap c i) = StateRegistered \<Longrightarrow> Channels_Get c name = Some ch \<Longrightarrow>
     GetMembership ch (s_nick (heap c i)) = Some m \<Longrightarrow> \<not> mode_Has (ch_modes ch) (CHR ''t'') \<or> isOperator m \<Longrightarrow>
     effect i q c (updCh (ToLower name)
       (\<lambda>ch. ch\<lparr>ch_topic := tx, ch_topicSetBy := Session_mask (heap c i), ch_topicSetAt := t\<rparr>) c)"
| eff_channel_mode: "verb q = MODE \<Longrightarrow> s_state (heap c i) = StateRegistered \<Longrightarrow> Channels_Get c name = Some ch \<Longrightarrow>
     GetMembership ch (s_nick (heap c i)) = Some m \<Longrightarrow> isOperator m \<or> s_isOper (heap c i) \<Longrightarrow>
     effect i q c (updCh (ToLower name) (\<lambda>ch. fst (fold applyChannelChange changes (ch, []))) c)"

definition effects :: "sid \<Rightarrow> Message \<Rightarrow> Server \<Rightarrow> Server \<Rightarrow> bool" where
  "effects i q = (effect i q)\<^sup>*\<^sup>*"

section \<open>The core\<close>

named_theorems irc_core \<open>handlers that only send\<close>

lemma strip_fields [simp]:
  "s_nick (strip s) = s_nick s" "s_user (strip s) = s_user s" "s_host (strip s) = s_host s"
  "s_realname (strip s) = s_realname s" "s_account (strip s) = s_account s" "s_away (strip s) = s_away s"
  "s_secure (strip s) = s_secure s" "s_serverName (strip s) = s_serverName s" "s_modes (strip s) = s_modes s"
  "s_caps (strip s) = s_caps s" "s_history (strip s) = s_history s" "s_state (strip s) = s_state s"
  "s_monitor (strip s) = s_monitor s" "s_capVersion (strip s) = s_capVersion s"
  "s_saslActive (strip s) = s_saslActive s" "s_saslBuffer (strip s) = s_saslBuffer s"
  "s_idleAt (strip s) = s_idleAt s" "s_signOnAt (strip s) = s_signOnAt s" "s_isOper (strip s) = s_isOper s"
  by (simp_all add: strip_def)

lemma core_fields [simp]:
  "cfg (core srv) = cfg srv" "ext (core srv) = ext srv" "sessions (core srv) = sessions srv"
  "channels (core srv) = channels srv" "accounts (core srv) = accounts srv"
  "dummyPasswordHash (core srv) = dummyPasswordHash srv" "clientsTotal (core srv) = clientsTotal srv"
  "clientsCurrent (core srv) = clientsCurrent srv" "whowas (core srv) = whowas srv" "live (core srv) = live srv"
  "nextSid (core srv) = nextSid srv" "heap (core srv) i = strip (heap srv i)"
  by (simp_all add: core_def)

lemma core_eq_fields:
  assumes "core a = core b"
  shows "cfg a = cfg b" "ext a = ext b" "sessions a = sessions b" "channels a = channels b" "accounts a = accounts b"
    "dummyPasswordHash a = dummyPasswordHash b" "clientsTotal a = clientsTotal b" "clientsCurrent a = clientsCurrent b"
    "whowas a = whowas b" "live a = live b" "nextSid a = nextSid b"
  using arg_cong [OF assms, of cfg] arg_cong [OF assms, of ext] arg_cong [OF assms, of sessions]
    arg_cong [OF assms, of channels] arg_cong [OF assms, of accounts] arg_cong [OF assms, of dummyPasswordHash]
    arg_cong [OF assms, of clientsTotal] arg_cong [OF assms, of clientsCurrent] arg_cong [OF assms, of whowas]
    arg_cong [OF assms, of live] arg_cong [OF assms, of nextSid]
  by simp_all

lemma core_eq_strip: "core a = core b \<Longrightarrow> strip (heap a i) = strip (heap b i)"
  by (metis core_fields(12))

lemma core_eq_session:
  assumes "core a = core b"
  shows "s_nick (heap a i) = s_nick (heap b i)" "s_user (heap a i) = s_user (heap b i)"
    "s_host (heap a i) = s_host (heap b i)" "s_realname (heap a i) = s_realname (heap b i)"
    "s_account (heap a i) = s_account (heap b i)" "s_away (heap a i) = s_away (heap b i)"
    "s_secure (heap a i) = s_secure (heap b i)" "s_modes (heap a i) = s_modes (heap b i)"
    "s_caps (heap a i) = s_caps (heap b i)" "s_state (heap a i) = s_state (heap b i)"
    "s_monitor (heap a i) = s_monitor (heap b i)" "s_capVersion (heap a i) = s_capVersion (heap b i)"
    "s_saslActive (heap a i) = s_saslActive (heap b i)" "s_saslBuffer (heap a i) = s_saslBuffer (heap b i)"
    "s_isOper (heap a i) = s_isOper (heap b i)" "s_history (heap a i) = s_history (heap b i)"
    "s_serverName (heap a i) = s_serverName (heap b i)"
  using core_eq_strip [OF assms, of i] by (metis strip_fields)+

lemma core_updS [simp]: "(\<And>s. strip (f s) = strip s) \<Longrightarrow> core (updS i f srv) = core srv"
proof -
  assume "\<And>s. strip (f s) = strip s"
  then have "(\<lambda>j. strip (((heap srv)(i := f (heap srv i))) j)) = (\<lambda>j. strip (heap srv j))" by auto
  then show ?thesis by (simp add: core_def updS_def)
qed

lemma core_updS_eff: "(\<And>s. strip (f s) = f (strip s)) \<Longrightarrow> core (updS i f srv) = updS i f (core srv)"
proof -
  assume "\<And>s. strip (f s) = f (strip s)"
  then have "(\<lambda>j. strip (((heap srv)(i := f (heap srv i))) j)) = (\<lambda>j. strip (heap srv j))(i := f (strip (heap srv i)))" by auto
  then show ?thesis by (simp add: core_def updS_def)
qed

lemma core_calls [simp]: "core (srv\<lparr>calls := n\<rparr>) = core srv"
  by (simp add: core_def)

lemma core_timeNow [simp]: "core (snd (timeNow srv)) = core srv" and core_randText [simp]: "core (snd (randText srv)) = core srv"
  by (simp_all add: timeNow_def randText_def)

lemma strip_deliver [simp]: "strip (deliver out s) = strip s"
  by (simp add: deliver_def strip_def split: option.split)

lemma core_prepare [simp]: "core (snd (prepare i msg srv)) = core srv"
  by (auto simp: prepare_def Let_def addTime_def timeNow_def split: prod.split)

lemma core_Send [simp]: "core (Send i msg srv) = core srv"
  using core_prepare [of i msg srv] by (cases "prepare i msg srv") (simp add: Send_def)

lemma core_fold [simp]: "(\<And>x srv. core (f x srv) = core srv) \<Longrightarrow> core (fold f xs srv) = core srv"
  by (induction xs arbitrary: srv) simp_all

lemma core_fold_pair [simp]: "(\<And>x st. core (snd (f x st)) = core (snd st)) \<Longrightarrow> core (snd (fold f xs st)) = core (snd st)"
  by (induction xs arbitrary: st) simp_all

lemma core_SendNumeric [simp]: "core (SendNumeric i n ps srv) = core srv"
  by (simp add: SendNumeric_def)

lemma core_Sendf [simp]: "core (Sendf i c ps srv) = core srv"
  by (simp add: Sendf_def)

lemma strip_capture [simp]: "strip (s\<lparr>captureImmediate := b\<rparr>) = strip s" "strip (s\<lparr>s_conn := c\<rparr>) = strip s"
  "strip (s\<lparr>s_response := r\<rparr>) = strip s" "strip (strip s) = strip s"
  by (simp_all add: strip_def)

lemma core_sendImmediate [simp]: "core (sendImmediate i msg srv) = core srv"
  by (simp add: sendImmediate_def)

lemma core_core [simp]: "core (core srv) = core srv"
  by (simp add: core_def)

lemma core_Broadcast [simp]: "core (Channel_Broadcast ch msg ex srv) = core srv"
  unfolding Channel_Broadcast_def by (rule core_fold) simp

lemmas Send_fields [simp] = core_eq_fields [OF core_Send] core_eq_session [OF core_Send]
lemmas SendNumeric_fields [simp] = core_eq_fields [OF core_SendNumeric] core_eq_session [OF core_SendNumeric]

lemma capEnabled_strip [simp]: "capEnabled (strip s) c = capEnabled s c"
  by (simp add: capEnabled_def)


section \<open>Handlers that only send\<close>

lemma core_sendMonitorList [simp]: "core (sendMonitorList i n vs srv) = core srv"
  unfolding sendMonitorList_def by (rule core_fold) simp

lemma core_notifyMonitor [simp]:
  "core (notifyMonitorOnline i srv) = core srv" "core (notifyMonitorOffline nick srv) = core srv"
  unfolding notifyMonitorOnline_def notifyMonitorOffline_def by (rule core_fold, simp)+

lemma core_notify [simp]: "core (snd (notify msg i st)) = core (snd st)"
  by (simp add: notify_def split: prod.split)

lemma core_server_commands [simp]:
  "core (handlePing i msg srv) = core srv" "core (closeSession i srv) = core srv" "core (handleQuit i msg srv) = core srv"
  "core (sendMOTD i srv) = core srv" "core (sendLusers i srv) = core srv" "core (handleVersion i srv) = core srv"
  "core (handleTime i srv) = core srv" "core (handleAdmin i srv) = core srv" "core (handleInfo i srv) = core srv"
  "core (handleStats i msg srv) = core srv" "core (handlePass i msg srv) = core srv"
  by (simp_all add: handlePing_def closeSession_def handleQuit_def sendMOTD_def sendLusers_def handleVersion_def
    handleTime_def timeNow_def handleAdmin_def handleInfo_def handleStats_def handlePass_def Let_def)

lemma core_handleWallops [simp]: "core (handleWallops i msg srv) = core srv"
  by (simp add: handleWallops_def Let_def)

lemma core_sendWelcome [simp]: "core (sendWelcome i srv) = core srv"
  by (simp add: sendWelcome_def Let_def)

lemma core_sendCAP [simp]: "core (sendCAP i c v srv) = core srv"
  by (simp add: sendCAP_def)

lemma core_sendCAPLines [simp]: "core (sendCAPLines i c cs srv) = core srv"
  by (induction i c cs srv rule: sendCAPLines.induct) simp_all

lemma core_sendCAPList [simp]: "core (sendCAPList i c cs srv) = core srv"
  by (simp add: sendCAPList_def)

lemma core_notifyAccount [simp]: "core (notifyAccount i p srv) = core srv"
  by (simp add: notifyAccount_def Let_def)

lemma core_rejoin [simp]: "core (rejoin i peer ch srv) = core srv"
  by (simp add: rejoin_def Let_def split_beta split: option.split)

lemma core_notifyPeer [simp]: "core (snd (notifyPeer i p msg shared peer st)) = core (snd st)"
  by (simp add: notifyPeer_def)

lemma core_notifyHostChange [simp]: "core (notifyHostChange i p srv) = core srv"
  by (simp add: notifyHostChange_def Let_def)

lemma checkPassword_fst [simp]: "fst (checkPassword i hash pw srv) = x_bcrypt (ext srv) hash pw"
  by (simp add: checkPassword_def suspendResponse_def updS_def Let_def)

lemma core_checkPassword [simp]: "core (snd (checkPassword i hash pw srv)) = core srv"
proof -
  have "updS i (resumeResponse (s_response (heap srv i))) (updS i (\<lambda>_. (heap srv i)\<lparr>s_response := noResponse\<rparr>) srv) = srv"
    by (simp add: updS_def resumeResponse_def)
  then show ?thesis by (simp add: checkPassword_def suspendResponse_def Let_def)
qed

lemma core_echo [simp]: "core (echo i msg srv) = core srv" and core_sendDirect [simp]: "core (sendDirect i dest msg srv) = core srv"
  by (simp_all add: echo_def sendDirect_def)

lemma core_sendChatHistoryFail [simp]: "core (sendChatHistoryFail i c sub text srv) = core srv"
  by (simp add: sendChatHistoryFail_def)

lemma core_sendHistoryBatch [simp]: "core (sendHistoryBatch i ty target es c srv) = core srv"
  by (simp add: sendHistoryBatch_def randText_def Let_def)

lemma core_handleChatHistory [simp]:
  "core (handleChatHistoryTargets i msg srv) = core srv" "core (handleChatHistory i msg srv) = core srv"
proof -
  show t: "core (handleChatHistoryTargets i msg srv) = core srv"
    by (simp add: handleChatHistoryTargets_def Let_def split: option.split)
  show "core (handleChatHistory i msg srv) = core srv"
    by (simp add: handleChatHistory_def sendChatHistory_def t Let_def split: option.split sum.split)
qed

lemma core_sendNames [simp]: "core (sendNames i ch srv) = core srv"
  by (simp add: sendNames_def Let_def)

lemma core_sendTopic [simp]: "core (sendTopic i name ch srv) = core srv"
  by (simp add: sendTopic_def)

lemma core_announceJoin [simp]: "core (announceJoin i name ch srv) = core srv"
  by (simp add: announceJoin_def Let_def)

lemma core_handleNames [simp]: "core (handleNames i msg srv) = core srv"
  by (auto simp: handleNames_def split: option.split intro!: core_fold)

lemma core_handleList [simp]: "core (handleList i msg srv) = core srv"
  by (simp add: handleList_def Let_def)

lemma core_handleInvite [simp]: "core (handleInvite i msg srv) = core srv"
  by (auto simp: handleInvite_def Let_def split: option.split)

lemma core_whoReply [simp]: "core (whoReply i m p j srv) = core srv"
  by (simp add: whoReply_def Let_def)

lemma core_handleWho [simp]: "core (handleWho i msg srv) = core srv"
  by (simp add: handleWho_def Let_def split: option.split)

lemma core_handleWhois [simp]: "core (handleWhois i msg srv) = core srv"
  by (simp add: handleWhois_def Let_def timeNow_def split: option.split)

lemma core_handleWhowas [simp]: "core (handleWhowas i msg srv) = core srv"
  by (simp add: handleWhowas_def Let_def)

lemma core_queries [simp]:
  "core (handleUserhost i msg srv) = core srv" "core (handleIson i msg srv) = core srv"
  "core (sendStatus2 i nicks srv) = core srv" "core (handleKill i msg srv) = core srv"
  by (simp_all add: handleUserhost_def handleIson_def sendStatus2_def handleKill_def Let_def split: option.split)

lemma core_notifyNick [simp]: "core (snd (notifyNick msg j st)) = core (snd st)"
  by (simp add: notifyNick_def Let_def split: prod.split)


section \<open>Every handler is a sequence of effects\<close>

lemma effects_refl [simp]: "effects i q c c"
  by (simp add: effects_def)

lemma effects_one: "effect i q c c' \<Longrightarrow> effects i q c c'"
  by (simp add: effects_def)

lemma effects_trans: "effects i q a b \<Longrightarrow> effects i q b c \<Longrightarrow> effects i q a c"
  by (simp add: effects_def)

lemma core_structure [simp]:
  "core (srv\<lparr>sessions := r\<rparr>) = (core srv)\<lparr>sessions := r\<rparr>" "core (srv\<lparr>channels := chs\<rparr>) = (core srv)\<lparr>channels := chs\<rparr>"
  by (simp_all add: core_def)

lemma core_updCh [simp]: "core (updCh k f srv) = updCh k f (core srv)"
  by (simp add: updCh_def split: option.split)

lemma core_Get [simp]: "Channels_Get (core srv) name = Channels_Get srv name"
  by (simp add: Channels_Get_def)

lemma channels_updCh_core [simp]: "channels (updCh k f (core srv)) = channels (updCh k f srv)"
  by (simp add: updCh_def split: option.split)

lemma core_dropMember [simp]: "core (dropMember name nick srv) = dropMember name nick (core srv)"
  by (simp add: dropMember_def Channels_Remove_def Let_def split: option.split prod.split)

lemma core_conditions [simp]:
  "nickTaken (core srv) i n = nickTaken srv i n" "Session_Prefix (strip s) = Session_Prefix s"
  "Session_mask (strip s) = Session_mask s" "refuseChannel (core srv) i target = refuseChannel srv i target"
  by (simp_all add: nickTaken_def Session_Prefix_def Session_mask_def refuseChannel_def Let_def split: option.split)

lemma supportedCaps_cong:
  "accounts a = accounts b \<Longrightarrow> cfg a = cfg b \<Longrightarrow> s_secure s = s_secure t \<Longrightarrow> s_capVersion s = s_capVersion t \<Longrightarrow>
   s_serverName s = s_serverName t \<Longrightarrow> supportedCaps a s = supportedCaps b t"
  by (simp add: supportedCaps_def split: option.split)

end
