(* ===== verification/IrcPermitted.thy ===== *)
theory IrcPermitted
  imports IrcEffects
begin

text \<open>
  Every command of the server is a sequence of the effects its sender may cause.
\<close>

section \<open>Library lemmas\<close>

declare core_updS_eff [simp]

lemma strip_updates [simp]:
  "strip (s\<lparr>s_nick := x\<rparr>) = (strip s)\<lparr>s_nick := x\<rparr>" "strip (s\<lparr>s_user := x\<rparr>) = (strip s)\<lparr>s_user := x\<rparr>"
  "strip (s\<lparr>s_host := x\<rparr>) = (strip s)\<lparr>s_host := x\<rparr>" "strip (s\<lparr>s_realname := x\<rparr>) = (strip s)\<lparr>s_realname := x\<rparr>"
  "strip (s\<lparr>s_account := x\<rparr>) = (strip s)\<lparr>s_account := x\<rparr>" "strip (s\<lparr>s_away := x\<rparr>) = (strip s)\<lparr>s_away := x\<rparr>"
  "strip (s\<lparr>s_modes := m\<rparr>) = (strip s)\<lparr>s_modes := m\<rparr>" "strip (s\<lparr>s_caps := cs\<rparr>) = (strip s)\<lparr>s_caps := cs\<rparr>"
  "strip (s\<lparr>s_history := h\<rparr>) = (strip s)\<lparr>s_history := h\<rparr>" "strip (s\<lparr>s_state := st\<rparr>) = (strip s)\<lparr>s_state := st\<rparr>"
  "strip (s\<lparr>s_monitor := mon\<rparr>) = (strip s)\<lparr>s_monitor := mon\<rparr>" "strip (s\<lparr>s_capVersion := v\<rparr>) = (strip s)\<lparr>s_capVersion := v\<rparr>"
  "strip (s\<lparr>s_saslActive := b\<rparr>) = (strip s)\<lparr>s_saslActive := b\<rparr>" "strip (s\<lparr>s_saslBuffer := x\<rparr>) = (strip s)\<lparr>s_saslBuffer := x\<rparr>"
  "strip (s\<lparr>s_idleAt := t\<rparr>) = (strip s)\<lparr>s_idleAt := t\<rparr>" "strip (s\<lparr>s_isOper := b\<rparr>) = (strip s)\<lparr>s_isOper := b\<rparr>"
  by (simp_all add: strip_def)

lemma strip_appendHistory [simp]: "strip (Session_appendHistory k t m s) = Session_appendHistory k t m (strip s)"
  by (simp add: Session_appendHistory_def Let_def)

lemma strip_setCap [simp]: "strip (setCap c s) = setCap c (strip s)"
  by (simp add: setCap_def Let_def)

lemma strip_fold_setCap [simp]: "strip (fold setCap cs s) = fold setCap cs (strip s)"
  by (induction cs arbitrary: s) simp_all

section \<open>Registration, capabilities and login\<close>

lemma permit_tryRegister:
  assumes v: "verb msg \<in> {NICK, USER, CAP}"
  shows "effects i msg (core srv) (core (tryRegister i srv))"
proof -
  let ?s = "heap srv i"
  consider "s_state ?s \<noteq> StatePreReg \<or> s_nick ?s = [] \<or> s_user ?s = []"
    | "s_state ?s = StatePreReg" "s_nick ?s \<noteq> []" "s_user ?s \<noteq> []" by blast
  then show ?thesis
  proof cases
    case 1
    then have "tryRegister i srv = srv" by (cases "s_state ?s") (auto simp: tryRegister_def)
    then show ?thesis by simp
  next
    case 2
    show ?thesis
    proof (cases "Registry_Add (sessions srv) (s_nick ?s) i")
      case (Inl e)
      with 2 have "core (tryRegister i srv) = updS i (\<lambda>s. s\<lparr>s_nick := []\<rparr>) (core srv)" by (simp add: tryRegister_def)
      then show ?thesis using 2 v by (auto intro!: effects_one eff_nick_lost)
    next
      case (Inr r)
      with 2 have "core (tryRegister i srv) = updS i (\<lambda>s. s\<lparr>s_state := StateRegistered\<rparr>) ((core srv)\<lparr>sessions := r\<rparr>)"
        by (simp add: tryRegister_def)
      then show ?thesis using 2 Inr v by (auto intro!: effects_one eff_register)
    qed
  qed
qed

lemma permit_handleNick:
  assumes v: "verb msg = NICK"
  shows "effects i msg (core srv) (core (handleNick i msg srv))"
proof (cases "Params msg = [] \<or> \<not> isValidNick (hd (Params msg)) \<or> nickTaken srv i (hd (Params msg))")
  case True
  then have "core (handleNick i msg srv) = core srv" by (auto simp: handleNick_def Let_def)
  then show ?thesis by simp
next
  case False
  let ?srv = "updS i (\<lambda>s. s\<lparr>s_nick := hd (Params msg)\<rparr>) srv"
  have "effect i msg (core srv) (core ?srv)" using False v by (simp add: eff_nick)
  moreover have "effects i msg (core ?srv) (core (tryRegister i ?srv))" by (rule permit_tryRegister) (simp add: v)
  moreover have "handleNick i msg srv = tryRegister i ?srv" using False by (simp add: handleNick_def)
  ultimately show ?thesis by (metis effects_one effects_trans)
qed

lemma permit_handleUser:
  assumes v: "verb msg = USER"
  shows "effects i msg (core srv) (core (handleUser i msg srv))"
proof (cases "s_state (heap srv i) = StateRegistered \<or> length (Params msg) < 4")
  case True
  then have "core (handleUser i msg srv) = core srv" by (auto simp: handleUser_def)
  then show ?thesis by simp
next
  case False
  let ?srv = "updS i (\<lambda>s. s\<lparr>s_user := cleanUsername (Params msg ! 0), s_realname := Params msg ! 3\<rparr>) srv"
  have "effect i msg (core srv) (core ?srv)" using False v by (simp add: eff_user)
  moreover have "effects i msg (core ?srv) (core (tryRegister i ?srv))" by (rule permit_tryRegister) (simp add: v)
  moreover have "handleUser i msg srv = tryRegister i ?srv" using False by (simp add: handleUser_def)
  ultimately show ?thesis by (metis effects_one effects_trans)
qed

lemma permit_enterCapNeg:
  assumes v: "verb msg = CAP"
  shows "effects i msg (core srv) (core (updS i enterCapNeg srv))"
proof (cases "s_state (heap srv i) = StateRegistered")
  case True
  then have "updS i enterCapNeg srv = srv" by (simp add: enterCapNeg_def updS_def)
  then show ?thesis by simp
next
  case False
  then have "updS i enterCapNeg srv = updS i (\<lambda>s. s\<lparr>s_state := StateCapNeg\<rparr>) srv" by (simp add: enterCapNeg_def updS_def)
  then show ?thesis using False v by (auto intro!: effects_one eff_negotiate)
qed

lemma permit_capVersionOf:
  assumes cap: "verb msg = CAP"
  shows "effects i msg (core srv) (core (updS i (capVersionOf arg) srv))"
proof (cases "case ParseInt64 arg of None \<Rightarrow> False | Some v \<Rightarrow> v \<ge> 302")
  case True
  then obtain v where v: "ParseInt64 arg = Some v" "302 \<le> v" by (auto split: option.splits)
  then have "updS i (capVersionOf arg) srv =
      updS i (\<lambda>s. s\<lparr>s_capVersion := v, s_caps := AList.update CapCapNotify True (s_caps s)\<rparr>) srv"
    by (simp add: capVersionOf_def updS_def)
  then show ?thesis using v(2) cap by (auto intro!: effects_one eff_cap_version)
next
  case False
  then have "updS i (capVersionOf arg) srv = srv" by (auto simp: capVersionOf_def updS_def split: option.splits)
  then show ?thesis by simp
qed

lemma updS_updS: "updS i f (updS i g srv) = updS i (\<lambda>s. f (g s)) srv"
  by (simp add: updS_def)

lemma permit_saslFailure:
  "verb msg \<in> {AUTHENTICATE, CAP} \<Longrightarrow> effects i msg (core srv) (core (saslFailure i n text srv))"
  by (auto simp: saslFailure_def maxSASLPayload_def intro!: effects_one eff_sasl)

lemma permit_handleCAP:
  assumes v: "verb msg = CAP"
  shows "effects i msg (core srv) (core (handleCAP i msg srv))"
proof -
  have ls: "effects i msg (core srv) (core (handleCapLS i arg srv))" for arg
  proof -
    have "core (handleCapLS i arg srv) = core (updS i (capVersionOf arg) (updS i enterCapNeg srv))"
      by (simp add: handleCapLS_def Let_def updS_updS)
    then show ?thesis using permit_enterCapNeg [OF v] permit_capVersionOf [OF v] by (metis effects_trans)
  qed
  have req: "effects i msg (core srv) (core (handleCapREQ i arg srv))" for arg
  proof -
    let ?srv = "updS i enterCapNeg srv" and ?cs = "Fields (TrimPrefix arg '':'')"
    have "core (handleCapREQ i arg srv) = core ?srv \<or>
        list_all (capKnown (supportedCaps srv (heap srv i))) ?cs \<and> core (handleCapREQ i arg srv) = updS i (fold setCap ?cs) (core ?srv)"
      by (auto simp: handleCapREQ_def Let_def)
    moreover have "supportedCaps srv (heap srv i) = supportedCaps (core ?srv) (heap (core ?srv) i)"
      by (rule supportedCaps_cong) (simp_all add: updS_def enterCapNeg_def)
    ultimately have "effects i msg (core ?srv) (core (handleCapREQ i arg srv))"
      by (metis v effects_one effects_refl eff_cap)
    with permit_enterCapNeg [OF v] show ?thesis by (rule effects_trans)
  qed
  have fin: "effects i msg (core srv) (core (handleCapEND i srv))"
  proof -
    define a where "a = (if s_saslActive (heap srv i) then saslFailure i ERR_SASLABORTED ''SASL authentication aborted'' srv else srv)"
    define b where "b = updS i (\<lambda>s. if s_state s = StateCapNeg then s\<lparr>s_state := StatePreReg\<rparr> else s) a"
    have 1: "effects i msg (core srv) (core a)" using permit_saslFailure [of msg i srv] v by (simp add: a_def)
    have 2: "effects i msg (core a) (core b)"
    proof (cases "s_state (heap a i) = StateCapNeg")
      case True
      then have "b = updS i (\<lambda>s. s\<lparr>s_state := StatePreReg\<rparr>) a" by (simp add: b_def updS_def)
      then show ?thesis using True v by (auto intro!: effects_one eff_negotiate)
    next
      case False
      then have "b = a" by (simp add: b_def updS_def)
      then show ?thesis by simp
    qed
    have "handleCapEND i srv = tryRegister i b" by (simp add: handleCapEND_def a_def b_def)
    with effects_trans [OF effects_trans [OF 1 2] permit_tryRegister] v show ?thesis by simp
  qed
  show ?thesis using ls req fin by (simp add: handleCAP_def handleCapLIST_def Let_def)
qed


lemma permit_loginAs:
  assumes v: "verb msg = AUTHENTICATE" and "capEnabled (heap srv i) CapSASL" "map_of (accounts srv) (ToLower name) = Some a" "x_bcrypt (ext srv) (a_PasswordHash a) pass"
  shows "effects i msg (core srv) (core (loginAs i a srv))"
proof -
  let ?c = "updS i (\<lambda>s. s\<lparr>s_account := a_Name a\<rparr>) (core srv)"
  have 1: "effect i msg (core srv) ?c" by (rule eff_login [of _ _ _ name a pass]) (use assms in simp_all)
  have 2: "effect i msg ?c (updS i (\<lambda>s. s\<lparr>s_host := a_Host a\<rparr>) ?c)" by (rule eff_host [of _ _ name]) (use assms(1,3) in \<open>simp_all add: updS_def\<close>)
  have "core (loginAs i a srv) \<in> {?c, updS i (\<lambda>s. s\<lparr>s_host := a_Host a\<rparr>) ?c}"
    by (simp add: loginAs_def Let_def)
  with 1 2 show ?thesis by (metis effects_one effects_trans insert_iff singletonD)
qed

lemma permit_saslFinish:
  assumes v: "verb msg = AUTHENTICATE" and "capEnabled (heap srv i) CapSASL"
  shows "effects i msg (core srv) (core (saslFinish i srv))"
proof -
  define a where "a = updS i (\<lambda>s. s\<lparr>s_saslActive := False, s_saslBuffer := []\<rparr>) srv"
  have 1: "effects i msg (core srv) (core a)" using v by (auto simp: a_def maxSASLPayload_def intro!: effects_one eff_sasl)
  have "effects i msg (core a) (core (saslFinish i srv))"
  proof (cases "plainFields (s_saslBuffer (heap srv i))")
    case None
    then show ?thesis by (simp add: saslFinish_def a_def Let_def)
  next
    case (Some ap)
    obtain authc pass where ap: "ap = (authc, pass)" by (cases ap)
    let ?found = "map_of (accounts a) (ToLower authc)"
    define hash where "hash = (case ?found of None \<Rightarrow> dummyPasswordHash a | Some x \<Rightarrow> a_PasswordHash x)"
    obtain b where cp: "checkPassword i hash pass a = (x_bcrypt (ext a) hash pass, b)" and cb: "core b = core a"
      using checkPassword_fst [of i hash pass a] core_checkPassword [of i hash pass a] by (cases "checkPassword i hash pass a") auto
    have fin: "saslFinish i srv =
        (case ?found of
           None \<Rightarrow> SendNumeric i ERR_SASLFAIL [''SASL authentication failed''] b
         | Some account \<Rightarrow> if \<not> x_bcrypt (ext a) hash pass then SendNumeric i ERR_SASLFAIL [''SASL authentication failed''] b
                           else loginAs i account b)"
      unfolding saslFinish_def Let_def Some ap option.case prod.case a_def [symmetric] hash_def [symmetric] cp ..
    show ?thesis
    proof (cases ?found)
      case None
      then show ?thesis by (simp add: fin cb)
    next
      case found: (Some account)
      have "capEnabled (heap b i) CapSASL"
        using assms(2) core_eq_session(9) [OF cb, of i] by (simp add: capEnabled_def a_def updS_def)
      then have "effects i msg (core b) (core (loginAs i account b))" if "x_bcrypt (ext a) hash pass"
        by (rule permit_loginAs [OF v, of _ _ authc account pass])
          (use found that core_eq_fields [OF cb] in \<open>simp_all add: hash_def\<close>)
      then show ?thesis by (simp add: fin found cb)
    qed
  qed
  with 1 show ?thesis by (rule effects_trans)
qed

lemma saslActive_same: "s_saslActive s \<Longrightarrow> s\<lparr>s_saslActive := True, s_saslBuffer := b\<rparr> = s\<lparr>s_saslBuffer := b\<rparr>"
  by (cases s) simp

lemma permit_handleAuthenticate:
  assumes v: "verb msg = AUTHENTICATE"
  shows "effects i msg (core srv) (core (handleAuthenticate i msg srv))"
proof -
  let ?s = "heap srv i" and ?chunk = "hd (Params msg)"
  show ?thesis
  proof (cases "\<not> capEnabled ?s CapSASL \<or> Params msg = []")
    case True
    then show ?thesis using permit_saslFailure [of msg i srv] v by (simp add: handleAuthenticate_def)
  next
    case False
    then have cap: "capEnabled ?s CapSASL" by simp
    have start: "effects i msg (core srv) (core (saslStart i ?chunk srv))"
    proof -
      have "effects i msg (core srv) (core (saslFailure i ERR_SASLFAIL tx (SendNumeric i n ps srv)))" for tx n ps
        using permit_saslFailure [of msg i "SendNumeric i n ps srv"] v by simp
      moreover have "effects i msg (core srv) (updS i (\<lambda>s. s\<lparr>s_saslActive := True, s_saslBuffer := []\<rparr>) (core srv))"
        by (rule effects_one, rule eff_sasl) (use cap v in \<open>simp_all\<close>)
      ultimately show ?thesis by (simp add: saslStart_def)
    qed
    have more: "effects i msg (core srv) (core (let srv1 = (if ?chunk \<noteq> ''+'' then updS i (\<lambda>s. s\<lparr>s_saslBuffer := s_saslBuffer s @ ?chunk\<rparr>) srv else srv)
        in if length ?chunk = 400 then srv1 else saslFinish i srv1))"
      if act: "s_saslActive ?s" and len: "length (s_saslBuffer ?s) + length ?chunk \<le> maxSASLPayload"
    proof -
      define a where "a = (if ?chunk \<noteq> ''+'' then updS i (\<lambda>s. s\<lparr>s_saslBuffer := s_saslBuffer s @ ?chunk\<rparr>) srv else srv)"
      have 1: "effects i msg (core srv) (core a)"
      proof (cases "?chunk = ''+''")
        case False
        have "core a = updS i (\<lambda>s. s\<lparr>s_saslActive := True, s_saslBuffer := s_saslBuffer ?s @ ?chunk\<rparr>) (core srv)"
          using False act by (simp add: a_def) (simp add: updS_def saslActive_same)
        moreover have "effect i msg (core srv) (updS i (\<lambda>s. s\<lparr>s_saslActive := True, s_saslBuffer := s_saslBuffer ?s @ ?chunk\<rparr>) (core srv))"
          by (rule eff_sasl) (use cap len v in simp_all)
        ultimately show ?thesis by (simp add: effects_one)
      qed (simp add: a_def)
      have "capEnabled (heap a i) CapSASL" using cap by (simp add: a_def updS_def capEnabled_def)
      from effects_trans [OF 1 permit_saslFinish [OF v this]] 1 show ?thesis unfolding a_def [symmetric] Let_def by simp
    qed
    show ?thesis using False start more permit_saslFailure [of msg i srv] v by (simp add: handleAuthenticate_def Let_def)
  qed
qed


section \<open>Messages\<close>

lemma update_same: "map_of al k = Some v \<Longrightarrow> AList.update k v al = al"
  by (induction al) auto

lemma updCh_id: "updCh k (\<lambda>ch. ch) srv = srv"
  by (simp add: updCh_def update_same split: option.split)

lemma core_relay:
  "core (relayToChannel i target f m srv) =
     (if refuseChannel srv i target = None then updCh (ToLower target) f (core srv) else core srv)"
proof (cases "refuseChannel srv i target")
  case None
  then obtain ch where "Channels_Get srv target = Some ch" by (auto simp: refuseChannel_def split: option.splits)
  with None show ?thesis by (simp add: relayToChannel_def)
qed (simp add: relayToChannel_def split: prod.split)

lemma permit_handlePrivmsg:
  assumes "s_state (heap srv i) = StateRegistered" and v: "verb msg \<in> {PRIVMSG, NOTICE}"
  shows "effects i msg (core srv) (core (handlePrivmsg i msg notice srv))"
proof (cases "length (Params msg) < 2")
  case True
  then show ?thesis by (simp add: handlePrivmsg_def)
next
  case False
  define srv' where "srv' = srv\<lparr>calls := Suc (Suc (calls srv))\<rparr>"
  define at where "at = x_clock (ext srv) (calls srv)"
  define m where "m = (message (Some (Session_Prefix (heap srv i))) (if notice then NOTICE else PRIVMSG) [Params msg ! 0, Params msg ! 1])
     \<lparr>msg_Tags := relayTags (heap srv i) (x_random (ext srv) (Suc (calls srv))) (serverTime srv' at)
        (if capEnabled (heap srv i) CapMessageTags then msg_Tags msg else [])\<rparr>"
  have m: "msg_Prefix m = Some (Session_Prefix (heap (core srv) i))" by (simp add: m_def message_def)
  have c: "core srv' = core srv" "heap srv' = heap srv" "sessions srv' = sessions srv" by (simp_all add: srv'_def)
  have h: "handlePrivmsg i msg notice srv =
    (if isChannelTarget (Params msg ! 0) then relayToChannel i (Params msg ! 0) (Channel_appendHistory at m) m srv'
     else case Registry_Get (sessions srv) (Params msg ! 0) of
            None \<Rightarrow> SendNumeric i ERR_NOSUCHNICK [Params msg ! 0, ''No such nick/channel''] srv'
          | Some dest \<Rightarrow>
              (let srv4 = echo i m (sendDirect i dest m (updS dest (Session_appendHistory (s_nick (heap srv i)) at m)
                            (updS i (Session_appendHistory (s_nick (heap srv dest)) at m) srv')))
               in if s_away (heap srv4 dest) \<noteq> [] \<and> \<not> notice
                  then SendNumeric i RPL_AWAY [Params msg ! 0, s_away (heap srv4 dest)] srv4 else srv4))"
    using False by (simp add: handlePrivmsg_def timeNow_def randText_def Let_def m_def at_def srv'_def split: option.split)
  show ?thesis
  proof (cases "isChannelTarget (Params msg ! 0)")
    case True
    have "refuseChannel srv' i (Params msg ! 0) = refuseChannel (core srv) i (Params msg ! 0)" using core_conditions(4) [of srv'] c by simp
    then show ?thesis using True assms m
      by (auto simp: h core_relay c intro!: effects_one eff_channel_message)
  next
    case direct: False
    show ?thesis
    proof (cases "Registry_Get (sessions srv) (Params msg ! 0)")
      case (Some dest)
      have "effect i msg (core srv) (updS dest (Session_appendHistory (s_nick (heap (core srv) i)) at m)
              (updS i (Session_appendHistory (s_nick (heap (core srv) dest)) at m) (core srv)))"
        by (rule eff_message) (use Some assms m in simp_all)
      then show ?thesis using direct Some by (simp add: h c Let_def effects_one)
    qed (use direct in \<open>simp add: h c\<close>)
  qed
qed

lemma permit_handleTagmsg: "core (handleTagmsg i msg srv) = core srv"
  by (simp add: handleTagmsg_def randText_def timeNow_def Let_def core_relay updCh_id split: option.split)

section \<open>Channels\<close>

lemma update_twice: "AList.update k v (AList.update k w al) = AList.update k v al"
  by (induction al) auto

lemma map_of_update [simp]: "map_of (AList.update k v al) k = Some v"
  by (simp add: update_conv')

lemma core_joinChannel:
  assumes "s_state (heap srv i) = StateRegistered" and v: "verb msg = JOIN"
  shows "effects i msg (core srv) (core (joinChannel i name key srv)) \<and> heap (core (joinChannel i name key srv)) = heap (core srv)"
proof (cases "name = [] \<or> \<not> isValidChannelName name")
  case True
  then have "core (joinChannel i name key srv) = core srv" by (auto simp: joinChannel_def)
  then show ?thesis by simp
next
  case False
  define t where "t = x_clock (ext srv) (calls srv)"
  define ch where "ch = (case Channels_Get srv name of Some ch \<Rightarrow> ch | None \<Rightarrow> newChannel name t)"
  define srv' where "srv' = snd (GetOrCreate name srv)"
  let ?nick = "s_nick (heap srv i)"
  have g: "GetOrCreate name srv = (ch, srv')"
    by (simp add: GetOrCreate_def ch_def srv'_def t_def Channels_Get_def timeNow_def split: option.split)
  have heap': "heap srv' = heap srv"
    by (simp add: srv'_def GetOrCreate_def timeNow_def split: option.split)
  have chs: "map_of (channels srv') (ToLower name) = Some ch" "Channels_Get srv name = None \<or> core srv' = core srv"
    by (auto simp: srv'_def GetOrCreate_def ch_def t_def Channels_Get_def timeNow_def split: option.split)
  have new: "refuseJoin ch ?nick key = None" "\<not> HasMember ch ?nick" if "Channels_Get srv name = None"
    using that by (simp_all add: ch_def newChannel_def refuseJoin_def HasMember_def mode_Arg_def mode_Has_def mode_New_def)
  let ?c = "(core srv)\<lparr>channels := AList.update (ToLower name)
      (AddMember i ?nick (if Members ch = [] then ''@'' else []) ch) (channels srv)\<rparr>"
  have upd: "updCh (ToLower name) (AddMember i ?nick p) (core srv') =
      (core srv)\<lparr>channels := AList.update (ToLower name) (AddMember i ?nick p ch) (channels srv)\<rparr>" for p
  proof -
    have "updCh (ToLower name) (AddMember i ?nick p) (core srv') =
        (core srv')\<lparr>channels := AList.update (ToLower name) (AddMember i ?nick p ch) (channels srv')\<rparr>"
      using chs(1) by (simp add: updCh_def)
    also have "\<dots> = (core srv)\<lparr>channels := AList.update (ToLower name) (AddMember i ?nick p ch) (channels srv)\<rparr>"
      by (simp add: srv'_def GetOrCreate_def timeNow_def update_twice core_def split: option.split)
    finally show ?thesis .
  qed
  show ?thesis
  proof (cases "refuseJoin ch ?nick key = None \<and> \<not> HasMember ch ?nick")
    case True
    have "effect i msg (core srv) ?c"
      using eff_join [of msg "core srv" i name ch t key] True False assms by (simp add: ch_def)
    moreover have "core (joinChannel i name key srv) = ?c"
      using True False by (simp add: joinChannel_def g heap' Let_def upd)
    ultimately show ?thesis by (simp add: effects_one)
  next
    case no: False
    then have "Channels_Get srv name \<noteq> None" using new by argo
    then have "core srv' = core srv" using chs(2) by auto
    moreover have "core (joinChannel i name key srv) = core srv'"
      using no False by (auto simp: joinChannel_def g heap' Let_def split: option.split)
    ultimately show ?thesis by simp
  qed
qed


lemma permit_joins:
  "verb msg = JOIN \<Longrightarrow> s_state (heap srv i) = StateRegistered \<Longrightarrow>
   effects i msg (core srv) (core (fold (\<lambda>(k, name). joinChannel i name (keyOf k)) xs srv))"
proof (induction xs arbitrary: srv)
  case (Cons x xs)
  obtain k name where x: "x = (k, name)" by (cases x)
  let ?srv = "joinChannel i name (keyOf k) srv"
  have 1: "effects i msg (core srv) (core ?srv)" "heap (core ?srv) = heap (core srv)" using core_joinChannel [OF Cons.prems(2,1)] by simp_all
  then have "s_state (heap ?srv i) = StateRegistered" using Cons.prems(2) by (metis core_fields(12) strip_fields(12))
  then show ?case using effects_trans [OF 1(1) Cons.IH [OF Cons.prems(1)]] by (simp add: x)
qed simp

lemma permit_handleJoin:
  "verb msg = JOIN \<Longrightarrow> s_state (heap srv i) = StateRegistered \<Longrightarrow> effects i msg (core srv) (core (handleJoin i msg srv))"
  using permit_joins [of msg srv i "\<lambda>k. if k < length (if length (Params msg) \<ge> 2 then Split (Params msg ! 1) (CHR '','') else [])
      then (if length (Params msg) \<ge> 2 then Split (Params msg ! 1) (CHR '','') else []) ! k else []"]
  by (simp add: handleJoin_def Let_def)

lemma heap_dropMember [simp]: "heap (dropMember name nick c) = heap c"
  by (simp add: dropMember_def updCh_def Channels_Remove_def Let_def split: option.split prod.split)

lemma permit_partChannel:
  assumes "s_state (heap srv i) = StateRegistered" and v: "verb msg = PART"
  shows "effects i msg (core srv) (core (partChannel i reason name srv)) \<and> heap (core (partChannel i reason name srv)) = heap (core srv)"
proof (cases "Channels_Get srv name")
  case (Some ch)
  show ?thesis
  proof (cases "HasMember ch (s_nick (heap srv i))")
    case True
    then obtain m where m: "GetMembership ch (s_nick (heap srv i)) = Some m" by (auto simp: HasMember_def GetMembership_def)
    have "effect i msg (core srv) (dropMember name (s_nick (heap srv i)) (core srv))"
      by (rule eff_leave [where m = m and ch = ch]) (use Some m assms in simp_all)
    moreover have "core (partChannel i reason name srv) = dropMember name (s_nick (heap srv i)) (core srv)"
      using Some True by (simp add: partChannel_def Let_def)
    ultimately show ?thesis by (simp add: effects_one)
  qed (use Some in \<open>simp add: partChannel_def\<close>)
qed (simp add: partChannel_def)

lemma permit_parts:
  "verb msg = PART \<Longrightarrow> s_state (heap srv i) = StateRegistered \<Longrightarrow> effects i msg (core srv) (core (fold (partChannel i reason) xs srv))"
proof (induction xs arbitrary: srv)
  case (Cons x xs)
  let ?srv = "partChannel i reason x srv"
  have 1: "effects i msg (core srv) (core ?srv)" "heap (core ?srv) = heap (core srv)" using permit_partChannel [OF Cons.prems(2,1)] by simp_all
  then have "s_state (heap ?srv i) = StateRegistered" using Cons.prems(2) by (metis core_fields(12) strip_fields(12))
  then show ?case using effects_trans [OF 1(1) Cons.IH [OF Cons.prems(1)]] by simp
qed simp

lemma permit_handlePart:
  "verb msg = PART \<Longrightarrow> s_state (heap srv i) = StateRegistered \<Longrightarrow> effects i msg (core srv) (core (handlePart i msg srv))"
  using permit_parts [of msg srv i] by (simp add: handlePart_def Let_def)

lemma permit_handleTopic:
  assumes "s_state (heap srv i) = StateRegistered" and v: "verb msg = TOPIC"
  shows "effects i msg (core srv) (core (handleTopic i msg srv))"
proof (cases "Params msg = []")
  case False
  let ?name = "Params msg ! 0" and ?nick = "s_nick (heap srv i)"
  show ?thesis
  proof (cases "Channels_Get srv ?name")
    case (Some ch)
    show ?thesis
    proof (cases "GetMembership ch ?nick")
      case None
      then show ?thesis using Some False by (simp add: handleTopic_def HasMember_def GetMembership_def)
    next
      case m: (Some m)
      define t where "t = x_clock (ext srv) (calls srv)"
      let ?c = "updCh (ToLower ?name) (\<lambda>ch. ch\<lparr>ch_topic := Params msg ! 1, ch_topicSetBy := Session_mask (heap (core srv) i),
          ch_topicSetAt := t\<rparr>) (core srv)"
      have "effect i msg (core srv) ?c" if "\<not> mode_Has (ch_modes ch) (CHR ''t'') \<or> isOperator m"
        by (rule eff_topic [where m = m and ch = ch]) (use Some m assms that in simp_all)
      moreover have "core (handleTopic i msg srv) = core srv \<or>
          (\<not> mode_Has (ch_modes ch) (CHR ''t'') \<or> isOperator m) \<and> core (handleTopic i msg srv) = ?c"
        using Some m False by (auto simp: handleTopic_def HasMember_def GetMembership_def timeNow_def Let_def t_def)
      ultimately show ?thesis using effects_one by fastforce
    qed
  qed (use False in \<open>simp add: handleTopic_def\<close>)
qed (simp add: handleTopic_def)

lemma permit_handleKick:
  assumes "s_state (heap srv i) = StateRegistered" and v: "verb msg = KICK"
  shows "effects i msg (core srv) (core (handleKick i msg srv))"
proof (cases "length (Params msg) < 2")
  case False
  let ?name = "Params msg ! 0" and ?nick = "s_nick (heap srv i)" and ?target = "Params msg ! 1"
  show ?thesis
  proof (cases "Channels_Get srv ?name")
    case (Some ch)
    show ?thesis
    proof (cases "GetMembership ch ?nick")
      case m: (Some m)
      have "effect i msg (core srv) (dropMember ?name ?target (core srv))" if "isOperator m"
        by (rule eff_leave [where m = m and ch = ch]) (use Some m assms that in simp_all)
      moreover have "core (handleKick i msg srv) = core srv \<or>
          isOperator m \<and> core (handleKick i msg srv) = dropMember ?name ?target (core srv)"
        using Some m False by (auto simp: handleKick_def Let_def)
      ultimately show ?thesis using effects_one by fastforce
    qed (use Some False in \<open>simp add: handleKick_def\<close>)
  qed (use False in \<open>simp add: handleKick_def\<close>)
qed (simp add: handleKick_def)


lemma effects_if:
  "(P \<Longrightarrow> effects i msg c (core a)) \<Longrightarrow> (\<not> P \<Longrightarrow> effects i msg c (core b)) \<Longrightarrow> effects i msg c (core (if P then a else b))"
  by simp

section \<open>Modes, user state and operators\<close>

lemma updCh_cong: "map_of (channels c) k = Some ch \<Longrightarrow> f ch = g ch \<Longrightarrow> updCh k f c = updCh k g c"
  by (simp add: updCh_def)

lemma updCh_same: "map_of (channels c) k = Some ch \<Longrightarrow> f ch = ch \<Longrightarrow> updCh k f c = c"
  by (simp add: updCh_def update_same)

lemma permit_handleChannelMode:
  assumes "s_state (heap srv i) = StateRegistered" and v: "verb msg = MODE"
  shows "effects i msg (core srv) (core (handleChannelMode i msg name srv))"
proof (cases "Channels_Get srv name")
  case (Some ch)
  let ?nick = "s_nick (heap srv i)" and ?changes = "ParseModeString (Params msg ! 1) (drop 2 (Params msg))"
  show ?thesis
  proof (cases "GetMembership ch ?nick")
    case None
    then have "core (handleChannelMode i msg name srv) = core srv" using Some by (simp add: handleChannelMode_def Let_def)
    then show ?thesis by simp
  next
    case m: (Some m)
    let ?c = "updCh (ToLower name) (\<lambda>ch. fst (fold applyChannelChange ?changes (ch, []))) (core srv)"
    have "effect i msg (core srv) ?c" if "isOperator m \<or> s_isOper (heap srv i)"
      by (rule eff_channel_mode [where m = m and ch = ch]) (use Some m assms that in simp_all)
    moreover have "core (handleChannelMode i msg name srv) = core srv \<or>
        (isOperator m \<or> s_isOper (heap srv i)) \<and> core (handleChannelMode i msg name srv) = ?c"
    proof -
      obtain ch' applied where f: "fold applyChannelChange ?changes (ch, []) = (ch', applied)" by fastforce
      have "updCh (ToLower name) (\<lambda>_. ch') (core srv) = ?c"
        by (rule updCh_cong [of _ _ ch]) (use Some f in \<open>simp_all add: Channels_Get_def\<close>)
      then show ?thesis using Some m f by (simp add: handleChannelMode_def Let_def split: prod.split)
    qed
    ultimately show ?thesis using effects_one by fastforce
  qed
qed (simp add: handleChannelMode_def)

lemma permit_handleUserMode:
  assumes "s_state (heap srv i) = StateRegistered" and v: "verb msg = MODE"
  shows "effects i msg (core srv) (core (handleUserMode i msg target srv))"
proof (cases "\<not> EqualFold target (s_nick (heap srv i)) \<and> \<not> s_isOper (heap srv i)")
  case True
  then show ?thesis by (simp add: handleUserMode_def)
next
  case allowed: False
  show ?thesis
  proof (cases "Registry_Get (sessions srv) target")
    case None
    then show ?thesis using allowed by (simp add: handleUserMode_def Let_def)
  next
    case (Some j)
    let ?changes = "ParseModeString (Params msg ! 1) (drop 2 (Params msg))"
    let ?c = "updS j (\<lambda>s. s\<lparr>s_modes := fst (Apply UserValidator (s_modes s) ?changes)\<rparr>) (core srv)"
    have al: "EqualFold target (s_nick (heap srv i)) \<or> s_isOper (heap srv i)" using allowed by blast
    have "effect i msg (core srv) ?c" by (rule eff_user_mode [of _ _ _ target]) (use Some al assms in simp_all)
    then have e: "effects i msg (core srv) ?c" by (rule effects_one)
    obtain modes applied where a: "Apply UserValidator (s_modes (heap srv j)) ?changes = (modes, applied)" by (rule prod.exhaust)
    obtain ms margs where f: "FormatModeChanges applied = (ms, margs)" by (rule prod.exhaust)
    have "updS j (\<lambda>s. s\<lparr>s_modes := modes\<rparr>) (core srv) = ?c" using a by (simp add: updS_def)
    then have "core (handleUserMode i msg target srv) = (if length (Params msg) < 2 then core srv else ?c)"
      unfolding handleUserMode_def Let_def Some option.case a f prod.case if_not_P [OF allowed] by simp
    with e show ?thesis by simp
  qed
qed

lemma permit_handleMode:
  "s_state (heap srv i) = StateRegistered \<Longrightarrow> verb msg = MODE \<Longrightarrow> effects i msg (core srv) (core (handleMode i msg srv))"
  using permit_handleChannelMode permit_handleUserMode by (simp add: handleMode_def Let_def)

lemma permit_handleAway:
  assumes "s_state (heap srv i) = StateRegistered" and v: "verb msg = AWAY"
  shows "effects i msg (core srv) (core (handleAway i msg srv))"
proof -
  have "\<exists>a. core (handleAway i msg srv) = updS i (\<lambda>s. s\<lparr>s_away := a\<rparr>) (core srv)"
    by (cases "Params msg = [] \<or> hd (Params msg) = []") (auto simp: handleAway_def Let_def)
  with eff_away [of msg "core srv" i] assms show ?thesis by (auto intro: effects_one)
qed

lemma permit_handleSetname:
  assumes "s_state (heap srv i) = StateRegistered" and v: "verb msg = SETNAME"
  shows "effects i msg (core srv) (core (handleSetname i msg srv))"
proof (cases "Params msg = []")
  case False
  then have "core (handleSetname i msg srv) = updS i (\<lambda>s. s\<lparr>s_realname := hd (Params msg)\<rparr>) (core srv)"
    by (simp add: handleSetname_def Let_def)
  with eff_realname [of msg "core srv" i] assms show ?thesis by (auto intro: effects_one)
qed (simp add: handleSetname_def)

lemma length_monitorAdd: "monitorAdd mon nicks = (mon', acc, rej) \<Longrightarrow> length mon' \<le> max monitorLimit (length mon)"
proof (induction mon nicks arbitrary: mon' acc rej rule: monitorAdd.induct)
  case (2 mon nick nicks)
  have l: "length (AList.update (ToLower nick) nick mon) \<le> Suc (length mon)" by (induction mon) auto
  show ?case
    using 2 l by (simp split: if_splits prod.splits)
qed simp

lemma length_delete: "length (AList.delete k al) \<le> length al"
  by (simp add: AList.delete_eq)

lemma length_deletes: "length (fold (\<lambda>n. AList.delete (ToLower n)) ns al) \<le> length al"
  by (induction ns arbitrary: al) (auto intro: order_trans [OF _ length_delete])

lemma permit_handleMonitor:
  assumes "s_state (heap srv i) = StateRegistered" and v: "verb msg = MONITOR"
  shows "effects i msg (core srv) (core (handleMonitor i msg srv))"
proof -
  let ?new = "\<lambda>mon. updS i (\<lambda>s. s\<lparr>s_monitor := mon\<rparr>) (core srv)"
  have ok: "effects i msg (core srv) (?new mon)" if "length mon \<le> max monitorLimit (length (s_monitor (heap srv i)))" for mon
    by (rule effects_one, rule eff_monitor) (use assms that in simp_all)
  obtain mon acc rej where a: "monitorAdd (s_monitor (heap srv i)) (Split (Params msg ! 1) (CHR '','')) = (mon, acc, rej)"
    using prod_cases3 by blast
  have del: "updS i (\<lambda>s. s\<lparr>s_monitor := fold (\<lambda>n. AList.delete (ToLower n)) ns (s_monitor s)\<rparr>) (core srv) =
      ?new (fold (\<lambda>n. AList.delete (ToLower n)) ns (s_monitor (heap srv i)))" for ns by (simp add: updS_def)
  have 1: "effects i msg (core srv) (?new mon)" using length_monitorAdd [OF a] by (rule ok)
  have 2: "effects i msg (core srv) (?new (fold (\<lambda>n. AList.delete (ToLower n)) ns (s_monitor (heap srv i))))" for ns
    using length_deletes [of ns "s_monitor (heap srv i)"] by (intro ok) simp
  have 3: "effects i msg (core srv) (?new [])" by (rule ok) simp
  show ?thesis
    unfolding handleMonitor_def Let_def a prod.case by (intro effects_if) (simp_all only: core_SendNumeric core_sendMonitorList core_queries
      core_updS_eff strip_updates strip_fields 1 2 3 del effects_refl)
qed

lemma permit_handleOper:
  assumes "s_state (heap srv i) = StateRegistered" and v: "verb msg = OPER"
  shows "effects i msg (core srv) (core (handleOper i msg srv))"
proof (cases "length (Params msg) < 2")
  case False
  show ?thesis
  proof (cases "map_of (c_Opers (cfg srv)) (Params msg ! 0)")
    case (Some hash)
    let ?c = "updS i (\<lambda>s. s\<lparr>s_isOper := True, s_modes := fst (Apply UserValidator (s_modes s) [\<lparr>Add = True, Mode = CHR ''o'', Arg = []\<rparr>])\<rparr>) (core srv)"
    define b where "b = snd (checkPassword i hash (Params msg ! 1) srv)"
    have cp: "checkPassword i hash (Params msg ! 1) srv = (x_bcrypt (ext srv) hash (Params msg ! 1), b)" and cb: "core b = core srv"
      by (simp_all add: b_def prod_eq_iff)
    have "effect i msg (core srv) ?c" if "x_bcrypt (ext srv) hash (Params msg ! 1)"
      by (rule eff_oper [where hash = hash]) (use Some assms that False in simp_all)
    moreover have "core (handleOper i msg srv) = (if x_bcrypt (ext srv) hash (Params msg ! 1) then ?c else core srv)"
      using False Some cp cb by (simp add: handleOper_def Let_def)
    ultimately show ?thesis by (simp add: effects_one)
  qed (use False in \<open>simp add: handleOper_def\<close>)
qed (simp add: handleOper_def)

lemma permit_dispatchRegistered:
  assumes "s_state (heap srv i) = StateRegistered" and "verb msg \<noteq> NICK"
  shows "effects i msg (core srv) (core (dispatchRegistered i (verb msg) msg srv))"
  unfolding dispatchRegistered_def
  by (intro effects_if) (simp_all add: assms permit_handleJoin permit_handlePart permit_handleTopic permit_handleKick permit_handleMode
    permit_handlePrivmsg permit_handleTagmsg permit_handleAway permit_handleMonitor permit_handleOper permit_handleSetname)

lemma permit_dispatch: "effects i msg (core srv) (core (irc_dispatch i msg srv))"
  unfolding irc_dispatch_def Let_def verb_def [symmetric]
  by (intro effects_if) (simp_all add: permit_handleCAP permit_handleNick permit_handleUser permit_handleAuthenticate
    permit_dispatchRegistered)

end
