(* ===== verification/IrcInvariant.thy ===== *)
theory IrcInvariant
  imports IrcPermitted
begin

text \<open>
  What holds in every state the server reaches: logins are to configured accounts and come over TLS, registered
  nicknames and channel members are registered sessions, channels are never empty, and every
  history, list and buffer stays within its limit. The effects keep these invariants, so the commands do.
\<close>

section \<open>Definitions\<close>

definition login_ok :: "Server \<Rightarrow> Session \<Rightarrow> bool" where
  "login_ok srv s \<longleftrightarrow> (s_account s \<noteq> [] \<longrightarrow>
     s_secure s \<and> (\<exists>name a. map_of (accounts srv) (ToLower name) = Some a \<and> s_account s = a_Name a))"

definition bounds_ok :: "Session \<Rightarrow> bool" where
  "bounds_ok s \<longleftrightarrow> length (s_monitor s) \<le> monitorLimit \<and> length (s_saslBuffer s) \<le> maxSASLPayload \<and>
     (\<forall>k es. map_of (s_history s) k = Some es \<longrightarrow> length es \<le> chatHistoryLimit)"

definition sess_ok :: "Server \<Rightarrow> Session \<Rightarrow> bool" where
  "sess_ok srv s \<longleftrightarrow> login_ok srv s \<and> (capEnabled s CapSASL \<longrightarrow> s_secure s) \<and> bounds_ok s"

definition registered :: "Server \<Rightarrow> sid \<Rightarrow> bool" where
  "registered srv i \<longleftrightarrow> s_state (heap srv i) = StateRegistered \<and> i < nextSid srv"

definition member_ok :: "Server \<Rightarrow> Membership \<Rightarrow> bool" where
  "member_ok srv m \<longleftrightarrow> registered srv (m_Session m) \<and> subseq (m_Prefix m) memberPrefixes"

definition chan_ok :: "Server \<Rightarrow> string \<Rightarrow> Channel \<Rightarrow> bool" where
  "chan_ok srv k ch \<longleftrightarrow> k = ToLower (ch_name ch) \<and> isValidChannelName (ch_name ch) \<and> ch_members ch \<noteq> [] \<and>
     (\<forall>n m. map_of (ch_members ch) n = Some m \<longrightarrow> member_ok srv m) \<and> length (ch_history ch) \<le> chatHistoryLimit"

definition irc_inv :: "Server \<Rightarrow> bool" where
  "irc_inv srv \<longleftrightarrow> (\<forall>i. sess_ok srv (heap srv i)) \<and>
     (\<forall>k i. map_of (sessions srv) k = Some i \<longrightarrow> registered srv i) \<and>
     (\<forall>k ch. map_of (channels srv) k = Some ch \<longrightarrow> chan_ok srv k ch)"

section \<open>Keeping the invariant\<close>

lemma irc_inv_core [simp]: "irc_inv (core srv) = irc_inv srv"
  by (simp add: irc_inv_def sess_ok_def login_ok_def bounds_ok_def registered_def member_ok_def chan_ok_def)

lemma updS_fields [simp]:
  "cfg (updS j f c) = cfg c" "ext (updS j f c) = ext c" "sessions (updS j f c) = sessions c"
  "channels (updS j f c) = channels c" "accounts (updS j f c) = accounts c" "nextSid (updS j f c) = nextSid c"
  "live (updS j f c) = live c" "whowas (updS j f c) = whowas c" "clientsCurrent (updS j f c) = clientsCurrent c"
  "heap (updS j f c) = (heap c)(j := f (heap c j))"
  by (simp_all add: updS_def)

lemma updCh_fields [simp]:
  "cfg (updCh k f c) = cfg c" "ext (updCh k f c) = ext c" "sessions (updCh k f c) = sessions c"
  "accounts (updCh k f c) = accounts c" "heap (updCh k f c) = heap c" "nextSid (updCh k f c) = nextSid c"
  "live (updCh k f c) = live c" "whowas (updCh k f c) = whowas c" "clientsCurrent (updCh k f c) = clientsCurrent c"
  "map_of (channels (updCh k f c)) = (map_of (channels c))(k := map_option f (map_of (channels c) k))"
  by (auto simp: updCh_def update_conv' fun_eq_iff split: option.split)

lemma sess_ok_cong: "cfg a = cfg b \<Longrightarrow> ext a = ext b \<Longrightarrow> accounts a = accounts b \<Longrightarrow> sess_ok a s = sess_ok b s"
  by (simp add: sess_ok_def login_ok_def)

lemma chan_ok_mono:
  "chan_ok a k ch \<Longrightarrow> (\<And>i. registered a i \<Longrightarrow> registered b i) \<Longrightarrow> chan_ok b k ch"
  by (auto simp: chan_ok_def member_ok_def)

lemma inv_updS:
  assumes "irc_inv c" and "sess_ok c (f (heap c j))"
    and "s_state (heap c j) = StateRegistered \<Longrightarrow> s_state (f (heap c j)) = StateRegistered"
  shows "irc_inv (updS j f c)"
proof -
  have r: "registered c i \<Longrightarrow> registered (updS j f c) i" for i using assms(3) by (auto simp: registered_def)
  have s: "sess_ok (updS j f c) t = sess_ok c t" for t by (rule sess_ok_cong) simp_all
  have "chan_ok c k ch \<Longrightarrow> chan_ok (updS j f c) k ch" for k ch by (erule chan_ok_mono) (rule r)
  then show ?thesis using assms(1,2) r by (auto simp: irc_inv_def s)
qed

lemma inv_channels:
  assumes "irc_inv c" and "c' = c\<lparr>channels := chs\<rparr>" and "\<And>k ch. map_of chs k = Some ch \<Longrightarrow> chan_ok c k ch"
  shows "irc_inv c'"
proof -
  have s: "sess_ok c' t = sess_ok c t" for t by (rule sess_ok_cong) (simp_all add: assms(2))
  have r: "registered c' i = registered c i" for i by (simp add: registered_def assms(2))
  have "chan_ok c' k ch = chan_ok c k ch" for k ch by (simp add: chan_ok_def member_ok_def r)
  with assms(1,3) show ?thesis unfolding irc_inv_def s r by (simp add: assms(2))
qed

lemma inv_channel: "irc_inv c \<Longrightarrow> map_of (channels c) k = Some ch \<Longrightarrow> chan_ok c k ch"
  by (simp add: irc_inv_def)

lemma updCh_channels: "updCh k f c = c\<lparr>channels := channels (updCh k f c)\<rparr>"
  by (simp add: updCh_def split: option.split)

lemma inv_updCh:
  assumes "irc_inv c" and "\<And>ch. map_of (channels c) k = Some ch \<Longrightarrow> chan_ok c k ch \<Longrightarrow> chan_ok c k (f ch)"
  shows "irc_inv (updCh k f c)"
proof (rule inv_channels [OF assms(1) updCh_channels])
  show "chan_ok c l ch" if "map_of (channels (updCh k f c)) l = Some ch" for l ch
    using that assms(2) inv_channel [OF assms(1)] by (auto split: if_splits)
qed

lemma inv_session: "irc_inv c \<Longrightarrow> sess_ok c (heap c i)"
  by (simp add: irc_inv_def)

lemma length_boundHistory [simp]: "length (boundHistory es) \<le> chatHistoryLimit"
  by (simp add: boundHistory_def)

lemma bounds_appendHistory [simp]: "bounds_ok s \<Longrightarrow> bounds_ok (Session_appendHistory k t m s)"
  by (auto simp: bounds_ok_def Session_appendHistory_def Let_def update_conv' split: option.split)

lemma appendHistory_fields [simp]:
  "s_isOper (Session_appendHistory k t m s) = s_isOper s" "s_account (Session_appendHistory k t m s) = s_account s"
  "s_secure (Session_appendHistory k t m s) = s_secure s" "s_caps (Session_appendHistory k t m s) = s_caps s"
  "s_state (Session_appendHistory k t m s) = s_state s"
  by (simp_all add: Session_appendHistory_def Let_def)

lemma sess_appendHistory: "sess_ok c s \<Longrightarrow> sess_ok c (Session_appendHistory k t m s)"
  by (simp add: sess_ok_def login_ok_def capEnabled_def)

lemma sasl_supported: "capKnown (supportedCaps srv s) cap \<Longrightarrow> TrimPrefix cap ''-'' = CapSASL \<Longrightarrow> s_secure s"
  by (auto simp: capKnown_def supportedCaps_def irc_cap_defs Let_def split: if_splits option.splits)

lemma setCap_fields [simp]:
  "s_isOper (setCap cap s) = s_isOper s" "s_account (setCap cap s) = s_account s" "s_secure (setCap cap s) = s_secure s"
  "s_state (setCap cap s) = s_state s" "s_monitor (setCap cap s) = s_monitor s" "s_saslBuffer (setCap cap s) = s_saslBuffer s"
  "s_history (setCap cap s) = s_history s" "s_capVersion (setCap cap s) = s_capVersion s" "s_serverName (setCap cap s) = s_serverName s"
  by (simp_all add: setCap_def Let_def)

lemma setCap_sasl: "capEnabled (setCap cap s) CapSASL \<Longrightarrow> capEnabled s CapSASL \<or> TrimPrefix cap ''-'' = CapSASL"
  by (auto simp: setCap_def capEnabled_def Let_def update_conv' delete_conv' split: if_splits)

lemma sess_setCaps:
  "sess_ok c s \<Longrightarrow> list_all (capKnown (supportedCaps c s)) caps \<Longrightarrow> sess_ok c (fold setCap caps s) \<and> s_state (fold setCap caps s) = s_state s"
proof (induction caps arbitrary: s)
  case (Cons cap caps)
  have "supportedCaps c (setCap cap s) = supportedCaps c s" by (rule supportedCaps_cong) simp_all
  moreover have "sess_ok c (setCap cap s)"
    using Cons.prems sasl_supported [of c s cap] setCap_sasl [of cap s]
    by (auto simp: sess_ok_def login_ok_def bounds_ok_def)
  ultimately show ?case using Cons by simp
qed simp


lemma members_AddMember: "ch_members (AddMember i nick p ch) \<noteq> []"
proof -
  have "AList.update k v al \<noteq> []" for k and v :: Membership and al by (cases al) auto
  then show ?thesis by (simp add: AddMember_def)
qed

lemma chan_AddMember:
  assumes "k = ToLower (ch_name ch)" "isValidChannelName (ch_name ch)" "length (ch_history ch) \<le> chatHistoryLimit"
    and "\<forall>n m. map_of (ch_members ch) n = Some m \<longrightarrow> member_ok c m" and "registered c i" and "subseq p memberPrefixes"
  shows "chan_ok c k (AddMember i nick p ch)"
  unfolding chan_ok_def using assms members_AddMember [of i nick p ch] by (auto simp: AddMember_def update_conv' member_ok_def)

lemma applyMembershipMode_cases:
  obtains "fst (applyMembershipMode change ch) = ch"
  | n m P where "map_of (ch_members ch) n = Some m"
      "fst (applyMembershipMode change ch) = ch\<lparr>ch_members := AList.update n (m\<lparr>m_Prefix := filter P memberPrefixes\<rparr>) (ch_members ch)\<rparr>"
proof (cases "prefixOf (Mode change)")
  case None
  then show ?thesis by (intro that(1)) (simp add: applyMembershipMode_def)
next
  case p: (Some p)
  show ?thesis
  proof (cases "Arg change = [] \<or> map_of (ch_members ch) (ToLower (Arg change)) = None")
    case True
    then show ?thesis using p by (intro that(1)) (auto simp: applyMembershipMode_def)
  next
    case False
    then obtain m where m: "map_of (ch_members ch) (ToLower (Arg change)) = Some m" by auto
    have a: "(Arg change = []) = False" using False by simp
    define P where "P = List.member (if Add change then filter (\<lambda>c. c \<noteq> p) (m_Prefix m) @ [p] else filter (\<lambda>c. c \<noteq> p) (m_Prefix m))"
    have "fst (applyMembershipMode change ch) = (if m_Prefix m = filter P memberPrefixes then ch
        else ch\<lparr>ch_members := AList.update (ToLower (Arg change)) (m\<lparr>m_Prefix := filter P memberPrefixes\<rparr>) (ch_members ch)\<rparr>)"
      unfolding applyMembershipMode_def p m option.case Let_def a if_False P_def by (simp only: if_distrib [of fst] fst_conv)
    then show ?thesis using that m by (cases "m_Prefix m = filter P memberPrefixes") (simp_all only: if_True if_False simp_thms)
  qed
qed

lemma chan_applyMembershipMode: "chan_ok c k ch \<Longrightarrow> chan_ok c k (fst (applyMembershipMode change ch))"
proof (rule applyMembershipMode_cases [of change ch])
  fix n m P
  assume ok: "chan_ok c k ch" and m: "map_of (ch_members ch) n = Some m"
    and e: "fst (applyMembershipMode change ch) = ch\<lparr>ch_members := AList.update n (m\<lparr>m_Prefix := filter P memberPrefixes\<rparr>) (ch_members ch)\<rparr>"
  have u: "AList.update l v al \<noteq> []" for l and v :: Membership and al by (cases al) auto
  have "member_ok c (m\<lparr>m_Prefix := filter P memberPrefixes\<rparr>)"
    using ok m subseq_filter_left [of P memberPrefixes] unfolding chan_ok_def member_ok_def by (simp del: filter.simps)
  with ok show "chan_ok c k (fst (applyMembershipMode change ch))"
    unfolding e chan_ok_def by (simp add: u update_conv' del: filter.simps)
qed simp

lemma chan_applyChannelChange: "chan_ok c k (fst st) \<Longrightarrow> chan_ok c k (fst (applyChannelChange change st))"
proof -
  assume a: "chan_ok c k (fst st)"
  obtain ch applied where st: "st = (ch, applied)" by (cases st)
  have "chan_ok c k (ch\<lparr>ch_modes := modes\<rparr>)" for modes using a by (simp add: st chan_ok_def)
  then show ?thesis using a chan_applyMembershipMode [of c k ch change]
    by (auto simp: applyChannelChange_def st split: prod.splits)
qed

lemma chan_applyChannelChanges: "chan_ok c k (fst st) \<Longrightarrow> chan_ok c k (fst (fold applyChannelChange changes st))"
  by (induction changes arbitrary: st) (simp_all add: chan_applyChannelChange)

lemma inv_removeMember:
  assumes "irc_inv c" and ch: "map_of (channels c) k = Some ch" and "RemoveMember nick ch = (ch', gone)"
  shows "irc_inv (let c' = updCh k (\<lambda>_. ch') c in if gone then c'\<lparr>channels := AList.delete k (channels c')\<rparr> else c')"
proof (cases gone)
  case True
  define c' where "c' = updCh k (\<lambda>_. ch') c"
  obtain X where c': "c' = c\<lparr>channels := X\<rparr>" unfolding c'_def using updCh_channels by blast
  have "irc_inv (c'\<lparr>channels := AList.delete k (channels c')\<rparr>)"
  proof (rule inv_channels [OF assms(1)])
    show "c'\<lparr>channels := AList.delete k (channels c')\<rparr> = c\<lparr>channels := AList.delete k (channels c')\<rparr>" unfolding c' by simp
    show "chan_ok c l x" if "map_of (AList.delete k (channels c')) l = Some x" for l x
      using that inv_channel [OF assms(1)] by (simp add: c'_def delete_conv' split: if_splits)
  qed
  with True show ?thesis by (simp add: c'_def Let_def)
next
  case False
  define ms where "ms = AList.delete (ToLower nick) (ch_members ch)"
  have "(ch\<lparr>ch_members := ms\<rparr>, ms = []) = (ch', gone)" using assms(3) by (simp only: RemoveMember_def Let_def ms_def)
  then have e: "ch' = ch\<lparr>ch_members := ms\<rparr>" "ms \<noteq> []" using False by simp_all
  have "map_of ms n = Some m \<longrightarrow> member_ok c m" for n m
    using inv_channel [OF assms(1) ch] by (simp add: ms_def delete_conv' chan_ok_def)
  then have "chan_ok c k ch'" using inv_channel [OF assms(1) ch] e(2) by (simp add: e(1) chan_ok_def)
  then show ?thesis using False inv_updCh [OF assms(1)] by simp
qed

lemma inv_dropMember:
  assumes "irc_inv c"
  shows "irc_inv (dropMember name nick c)"
proof (cases "Channels_Get c name")
  case None
  then show ?thesis using assms by (simp add: dropMember_def)
next
  case (Some ch)
  obtain ch' gone where r: "RemoveMember nick ch = (ch', gone)" by (rule prod.exhaust)
  have m: "map_of (channels c) (ToLower name) = Some ch" using Some by (simp add: Channels_Get_def)
  have "dropMember name nick c = (let c' = updCh (ToLower name) (\<lambda>_. ch') c in
      if gone then c'\<lparr>channels := AList.delete (ToLower name) (channels c')\<rparr> else c')"
    unfolding dropMember_def Some option.case r prod.case Channels_Remove_def ..
  with inv_removeMember [OF assms m r] show ?thesis by simp
qed

lemma inv_join:
  assumes "irc_inv c" and "registered c i" and "isValidChannelName name"
    and "ch = (case Channels_Get c name of Some ch \<Rightarrow> ch | None \<Rightarrow> newChannel name t)" and "subseq p memberPrefixes"
  shows "irc_inv (c\<lparr>channels := AList.update (ToLower name) (AddMember i nick p ch) (channels c)\<rparr>)"
proof (rule inv_channels [OF assms(1) refl])
  have ch: "ToLower name = ToLower (ch_name ch) \<and> isValidChannelName (ch_name ch) \<and> length (ch_history ch) \<le> chatHistoryLimit \<and>
      (\<forall>n m. map_of (ch_members ch) n = Some m \<longrightarrow> member_ok c m)"
  proof (cases "Channels_Get c name")
    case None
    then show ?thesis using assms(3,4) by (simp add: newChannel_def)
  next
    case (Some x)
    then have "chan_ok c (ToLower name) ch" using assms(1,4) by (simp add: irc_inv_def Channels_Get_def)
    then show ?thesis by (simp add: chan_ok_def)
  qed
  have ok: "chan_ok c (ToLower name) (AddMember i nick p ch)"
    by (rule chan_AddMember) (use ch assms(2,5) in auto)
  show "chan_ok c k x" if "map_of (AList.update (ToLower name) (AddMember i nick p ch) (channels c)) k = Some x" for k x
    using that ok inv_channel [OF assms(1)] by (auto simp: update_conv' split: if_splits)
qed


lemmas sess_defs = sess_ok_def login_ok_def bounds_ok_def capEnabled_def

lemma inv_effect: "effect i q c c' \<Longrightarrow> irc_inv c \<Longrightarrow> i < nextSid c \<Longrightarrow> irc_inv c' \<and> nextSid c' = nextSid c"
proof (induction rule: effect.induct)
  case (eff_register c reg)
  have r: "reg = AList.update (ToLower (s_nick (heap c i))) i (sessions c)"
    using eff_register(5) by (simp add: Registry_Add_def split: if_splits)
  define d where "d = updS i (\<lambda>s. s\<lparr>s_state := StateRegistered\<rparr>) c"
  have d: "irc_inv d" unfolding d_def by (rule inv_updS [OF eff_register(6)]) (use inv_session [OF eff_register(6), of i] in \<open>simp_all add: sess_defs\<close>)
  have e: "updS i (\<lambda>s. s\<lparr>s_state := StateRegistered\<rparr>) (c\<lparr>sessions := reg\<rparr>) = d\<lparr>sessions := reg\<rparr>" by (simp add: d_def updS_def)
  have s: "sess_ok (d\<lparr>sessions := reg\<rparr>) t = sess_ok d t" for t by (rule sess_ok_cong) simp_all
  have g: "registered (d\<lparr>sessions := reg\<rparr>) j = registered d j" for j by (simp add: registered_def)
  have "chan_ok (d\<lparr>sessions := reg\<rparr>) k ch = chan_ok d k ch" for k ch by (simp add: chan_ok_def member_ok_def g)
  moreover have "registered d i" using eff_register(7) by (simp add: registered_def d_def)
  moreover have "registered d j" if "map_of (sessions c) k = Some j" for j k
    using that d by (simp add: irc_inv_def d_def)
  ultimately have "irc_inv (d\<lparr>sessions := reg\<rparr>)" using d unfolding irc_inv_def s g by (simp add: r update_conv')
  then show ?case by (simp add: e d_def)
next
  case (eff_cap c caps)
  have "sess_ok c (fold setCap caps (heap c i)) \<and> s_state (fold setCap caps (heap c i)) = s_state (heap c i)"
    by (rule sess_setCaps [OF inv_session [OF eff_cap(3)] eff_cap(2)])
  then show ?case using inv_updS [OF eff_cap(3)] by simp
next
  case (eff_login c name a pass)
  have "sess_ok c ((heap c i)\<lparr>s_account := a_Name a\<rparr>)"
    using inv_session [OF eff_login(5), of i] eff_login(2-4) by (auto simp: sess_defs)
  then show ?case using inv_updS [OF eff_login(5)] by simp
next
  case (eff_oper c hash)
  have "sess_ok c ((heap c i)\<lparr>s_isOper := True, s_modes := ms\<rparr>)" for ms
    using inv_session [OF eff_oper(6), of i] by (simp add: sess_defs)
  then show ?case using inv_updS [OF eff_oper(6)] by simp
next
  case (eff_message c target j m at)
  let ?d = "updS i (Session_appendHistory (s_nick (heap c j)) at m) c"
  have d: "irc_inv ?d" by (rule inv_updS [OF eff_message(5)]) (simp_all add: inv_session [OF eff_message(5)] sess_appendHistory)
  have "irc_inv (updS j (Session_appendHistory (s_nick (heap c i)) at m) ?d)"
    by (rule inv_updS [OF d]) (simp_all only: inv_session [OF d] sess_appendHistory appendHistory_fields)
  then show ?case by simp
next
  case (eff_channel_message c target m at)
  have "irc_inv (updCh (ToLower target) (Channel_appendHistory at m) c)"
    by (rule inv_updCh [OF eff_channel_message(5)]) (simp add: chan_ok_def Channel_appendHistory_def)
  then show ?case by simp
next
  case (eff_join c name ch t key)
  have "registered c i" using eff_join(2,8) by (simp add: registered_def)
  moreover have "subseq (if Members ch = [] then ''@'' else []) memberPrefixes" by (simp add: memberPrefixes_def)
  ultimately show ?case using inv_join [OF eff_join(7) _ eff_join(3,4)] by simp
next
  case (eff_leave c name ch m target)
  then show ?case using inv_dropMember [of c name target]
    by (simp add: dropMember_def Channels_Remove_def Let_def split: option.split prod.split)
next
  case (eff_topic c name ch m t tx)
  have "irc_inv (updCh (ToLower name) (\<lambda>ch. ch\<lparr>ch_topic := tx, ch_topicSetBy := Session_mask (heap c i), ch_topicSetAt := t\<rparr>) c)"
    by (rule inv_updCh [OF eff_topic(6)]) (simp add: chan_ok_def)
  then show ?case by simp
next
  case (eff_channel_mode c name ch m changes)
  have "irc_inv (updCh (ToLower name) (\<lambda>ch. fst (fold applyChannelChange changes (ch, []))) c)"
    by (rule inv_updCh [OF eff_channel_mode(6)]) (simp add: chan_applyChannelChanges)
  then show ?case by simp
next
  case (eff_user_mode c target j changes)
  have "irc_inv (updS j (\<lambda>s. s\<lparr>s_modes := fst (Apply UserValidator (s_modes s) changes)\<rparr>) c)"
    by (rule inv_updS [OF eff_user_mode(5)]) (use inv_session [OF eff_user_mode(5), of j] in \<open>simp_all add: sess_defs\<close>)
  then show ?case by simp
next
  case (eff_cap_version v c)
  have "irc_inv (updS i (\<lambda>s. s\<lparr>s_capVersion := v, s_caps := AList.update CapCapNotify True (s_caps s)\<rparr>) c)"
    by (rule inv_updS [OF eff_cap_version(3)])
      (use inv_session [OF eff_cap_version(3), of i] in \<open>simp_all add: sess_defs update_conv' irc_cap_defs\<close>)
  then show ?case by simp
next
  case (eff_monitor c mon)
  have "length mon \<le> monitorLimit" using eff_monitor(3) inv_session [OF eff_monitor(4), of i] by (simp add: sess_defs)
  then have "irc_inv (updS i (\<lambda>s. s\<lparr>s_monitor := mon\<rparr>) c)"
    by (intro inv_updS [OF eff_monitor(4)]) (use inv_session [OF eff_monitor(4), of i] in \<open>simp_all add: sess_defs\<close>)
  then show ?case by simp
next
  case (eff_host c name a)
  have "irc_inv (updS i (\<lambda>s. s\<lparr>s_host := a_Host a\<rparr>) c)"
    by (rule inv_updS [OF eff_host(4)]) (use inv_session [OF eff_host(4), of i] in \<open>simp_all add: sess_defs\<close>)
  then show ?case by simp
qed (use inv_session [of _ i] in \<open>auto intro!: inv_updS simp: sess_defs\<close>)


lemma inv_effects: "effects i q c c' \<Longrightarrow> irc_inv c \<Longrightarrow> i < nextSid c \<Longrightarrow> irc_inv c' \<and> nextSid c' = nextSid c"
  unfolding effects_def by (induction rule: rtranclp_induct) (auto dest: inv_effect)

section \<open>Steps of the server\<close>

lemma core_responseMessage [simp]: "core (snd (responseMessage i msg srv)) = core srv"
  by (simp add: responseMessage_def timeNow_def)

lemma core_finishResponse [simp]: "core (snd (finishResponse i srv)) = core srv"
proof -
  have r: "core b = core a" if "responseMessage i m a = (x, b)" for m a x b using core_responseMessage [of i m a] that by simp
  show ?thesis
    unfolding finishResponse_def Let_def
    by (auto simp: randText_def split: list.split prod.split dest!: r)
qed

lemma core_sendPrepared [simp]: "core (sendPrepared i ms srv) = core srv"
  by (simp add: sendPrepared_def)

lemma permit_dispatchCommand: "effects i msg (core srv) (core (dispatchCommand i msg srv))"
proof (cases "responseLabel (heap srv i) msg")
  case None
  then show ?thesis by (simp add: dispatchCommand_def permit_dispatch)
next
  case (Some label)
  let ?b = "updS i (beginResponse label) srv"
  have "core ?b = core srv" by (simp add: beginResponse_def)
  moreover have "core (dispatchCommand i msg srv) = core (irc_dispatch i msg ?b)"
    using core_finishResponse [of i "irc_dispatch i msg ?b"] by (simp add: dispatchCommand_def Some split_beta)
  ultimately show ?thesis using permit_dispatch [of i msg ?b] by simp
qed

lemma permit_sessionLine:
  obtains "core (sessionLine i line srv) = core srv"
  | q where "Parse line = Inr q" "effects i q (core srv) (core (sessionLine i line srv))"
proof (cases "InputTooLong line")
  case False
  show ?thesis
  proof (cases "Parse line")
    case (Inl e)
    with False show ?thesis by (intro that(1)) (simp add: sessionLine_def)
  next
    case (Inr msg)
    let ?t = "x_clock (ext srv) (calls srv)"
    let ?b = "updS i (\<lambda>s. s\<lparr>s_idleAt := ?t\<rparr>) (srv\<lparr>calls := Suc (calls srv)\<rparr>)"
    have e: "effect i msg (core srv) (core ?b)" by (simp add: eff_idle)
    have "sessionLine i line srv = dispatchCommand i msg ?b" using False Inr by (simp add: sessionLine_def timeNow_def)
    then show ?thesis
      using effects_trans [OF effects_one [OF e] permit_dispatchCommand] Inr by (intro that(2)) simp_all
  qed
qed (use that(1) in \<open>simp add: sessionLine_def\<close>)

text \<open>The connections: those served are counted, within the limit, and the list of past users is bounded.\<close>

definition live_ok :: "Server \<Rightarrow> bool" where
  "live_ok srv \<longleftrightarrow> distinct (live srv) \<and> (\<forall>i \<in> set (live srv). i < nextSid srv) \<and>
     clientsCurrent srv = int (length (live srv)) \<and>
     (c_MaxClients (cfg srv) > 0 \<longrightarrow> clientsCurrent srv \<le> c_MaxClients (cfg srv)) \<and> length (whowas srv) \<le> 256"

lemma live_ok_core [simp]: "live_ok (core srv) = live_ok srv"
  by (simp add: live_ok_def)

lemma live_ok_cong:
  "live a = live b \<Longrightarrow> nextSid a = nextSid b \<Longrightarrow> clientsCurrent a = clientsCurrent b \<Longrightarrow> cfg a = cfg b \<Longrightarrow> whowas a = whowas b \<Longrightarrow>
   live_ok a = live_ok b"
  by (simp add: live_ok_def)

lemma dropMember_fields [simp]:
  "live (dropMember name nick c) = live c" "nextSid (dropMember name nick c) = nextSid c" "cfg (dropMember name nick c) = cfg c"
  "clientsCurrent (dropMember name nick c) = clientsCurrent c" "whowas (dropMember name nick c) = whowas c"
  by (simp_all add: dropMember_def Channels_Remove_def Let_def split: option.split prod.split)

lemma live_ok_effects: "effects i q c c' \<Longrightarrow> live_ok c \<Longrightarrow> live_ok c'"
proof -
  have e: "effect i q a b \<Longrightarrow> live_ok b = live_ok a" for a b by (induction rule: effect.induct) (simp_all add: live_ok_def)
  assume "effects i q c c'" and l: "live_ok c"
  from this(1) show ?thesis unfolding effects_def by (induction rule: rtranclp_induct) (use l e in auto)
qed

lemma inv_same_core: "core a = core b \<Longrightarrow> irc_inv b \<and> live_ok b \<Longrightarrow> irc_inv a \<and> live_ok a"
  by (metis irc_inv_core live_ok_core)

lemma inv_quitChannel:
  assumes "irc_inv srv"
  shows "irc_inv (quitChannel i key srv) \<and> live_ok (quitChannel i key srv) = live_ok srv"
proof (cases "map_of (channels srv) key")
  case (Some ch)
  show ?thesis
  proof (cases "HasMember ch (s_nick (heap srv i))")
    case True
    obtain ch' gone where r: "RemoveMember (s_nick (heap srv i)) ch = (ch', gone)" by (rule prod.exhaust)
    let ?b = "Channel_Broadcast ch (message (Some (Session_Prefix (heap srv i))) QUIT [''Connection closed'']) (Some i) srv"
    have k: "ToLower (ch_name ch) = key" using inv_channel [OF assms Some] by (simp add: chan_ok_def)
    have b: "irc_inv ?b" "map_of (channels ?b) key = Some ch" "live_ok ?b = live_ok srv"
      using assms Some irc_inv_core [of ?b] live_ok_core [of ?b] core_eq_fields(4) [OF core_Broadcast] by simp_all
    have q: "quitChannel i key srv =
        (let c' = updCh key (\<lambda>_. ch') ?b in if gone then c'\<lparr>channels := AList.delete key (channels c')\<rparr> else c')"
      unfolding quitChannel_def Some option.case Let_def using True by (simp add: r Channels_Remove_def k)
    show ?thesis using inv_removeMember [OF b(1,2) r] live_ok_cong [of "quitChannel i key srv" ?b] b(3) unfolding q by (simp add: Let_def)
  qed (use assms Some in \<open>simp add: quitChannel_def\<close>)
qed (use assms in \<open>simp add: quitChannel_def\<close>)

lemma inv_quitChannels:
  "irc_inv srv \<Longrightarrow> irc_inv (fold (quitChannel i) ks srv) \<and> live_ok (fold (quitChannel i) ks srv) = live_ok srv"
  using inv_quitChannel by (induction ks arbitrary: srv) auto

lemma inv_fields:
  assumes "irc_inv c" and "cfg d = cfg c" "ext d = ext c" "accounts d = accounts c" "heap d = heap c" "nextSid d = nextSid c"
    "channels d = channels c" and "\<And>k j. map_of (sessions d) k = Some j \<Longrightarrow> map_of (sessions c) k = Some j"
  shows "irc_inv d"
proof -
  have s: "sess_ok d t = sess_ok c t" for t by (rule sess_ok_cong) (simp_all add: assms)
  have g: "registered d j = registered c j" for j by (simp add: registered_def assms)
  have "chan_ok d k ch = chan_ok c k ch" for k ch by (simp add: chan_ok_def member_ok_def g)
  with assms(1,8) show ?thesis unfolding irc_inv_def s g by (simp add: assms(2-7)) blast
qed

lemma inv_removeSession:
  assumes "irc_inv srv" and "live_ok srv"
  shows "irc_inv (removeSession i srv) \<and> live_ok (removeSession i srv)"
proof (cases "s_nick (heap srv i) = []")
  case True
  then show ?thesis using assms by (simp add: removeSession_def)
next
  case False
  let ?s = "heap srv i"
  define es where "es = whowas srv @ [\<lparr>w_nick = s_nick ?s, w_user = s_user ?s, w_host = s_host ?s, w_realname = s_realname ?s,
      w_quitAt = x_clock (ext srv) (calls srv)\<rparr>]"
  define a where "a = (srv\<lparr>calls := Suc (calls srv)\<rparr>)\<lparr>whowas := (if length es > 256 then tl es else es)\<rparr>"
  define b where "b = fold (quitChannel i) (map fst (channels a)) a"
  define d where "d = b\<lparr>sessions := Registry_Remove (sessions b) (s_nick ?s)\<rparr>"
  have a: "irc_inv a" by (rule inv_fields [OF assms(1)]) (simp_all add: a_def)
  have la: "live_ok a" using assms(2) by (auto simp: live_ok_def a_def es_def)
  have b: "irc_inv b" "live_ok b" using inv_quitChannels [OF a] la by (simp_all add: b_def)
  have d: "irc_inv d" by (rule inv_fields [OF b(1)]) (auto simp: d_def Registry_Remove_def delete_conv' split: if_splits)
  have ld: "live_ok d" using b(2) live_ok_cong [of d b] by (simp add: d_def)
  have "removeSession i srv = notifyMonitorOffline (s_nick ?s) d"
    using False by (simp add: removeSession_def timeNow_def es_def a_def b_def d_def Let_def)
  then show ?thesis using inv_same_core [OF core_notifyMonitor(2)] d ld by simp
qed


lemma inv_disconnect:
  assumes "irc_inv srv" and "live_ok srv" and "i \<in> set (live srv)"
  shows "irc_inv (disconnect i srv) \<and> live_ok (disconnect i srv)"
proof -
  define a where "a = srv\<lparr>clientsCurrent := clientsCurrent srv - 1, live := remove1 i (live srv)\<rparr>"
  have 1: "irc_inv a" by (rule inv_fields [OF assms(1)]) (simp_all add: a_def)
  have "length (remove1 i (live srv)) = length (live srv) - 1" using assms(3) by (simp add: length_remove1)
  moreover have "0 < length (live srv)" using assms(3) by auto
  ultimately have 2: "live_ok a" using assms(2) by (auto simp: live_ok_def a_def of_nat_diff Suc_le_eq)
  have "core (disconnect i srv) = core (removeSession i a)" by (simp add: disconnect_def a_def)
  then show ?thesis using inv_same_core inv_removeSession [OF 1 2] by blast
qed

lemma inv_acceptConn:
  assumes "irc_inv srv" and "live_ok srv"
  shows "irc_inv (acceptConn host secure name srv) \<and> live_ok (acceptConn host secure name srv)"
proof (cases "c_MaxClients (cfg srv) > 0 \<and> clientsCurrent srv + 1 > c_MaxClients (cfg srv)")
  case True
  then show ?thesis using assms by (simp add: acceptConn_def)
next
  case False
  define s where "s = heap (acceptConn host secure name srv) (nextSid srv)"
  let ?c = "acceptConn host secure name srv"
  have c: "cfg ?c = cfg srv" "ext ?c = ext srv" "accounts ?c = accounts srv" "sessions ?c = sessions srv" "channels ?c = channels srv"
    "nextSid ?c = Suc (nextSid srv)" "live ?c = nextSid srv # live srv" "clientsCurrent ?c = clientsCurrent srv + 1" "whowas ?c = whowas srv"
    "heap ?c = (heap srv)(nextSid srv := s)"
    using False by (simp_all add: acceptConn_def timeNow_def Let_def s_def)
  have "s_isOper s = False" "s_account s = []" "s_caps s = []" "s_monitor s = []" "s_saslBuffer s = []" "s_history s = []"
    using False by (auto simp: s_def acceptConn_def timeNow_def Let_def newSession0_def)
  then have new: "sess_ok srv s" by (simp add: sess_defs)
  have ok: "sess_ok ?c t = sess_ok srv t" for t by (rule sess_ok_cong) (simp_all add: c)
  have g: "registered srv j \<Longrightarrow> registered ?c j" for j by (auto simp: registered_def c)
  have "chan_ok srv k ch \<Longrightarrow> chan_ok ?c k ch" for k ch by (erule chan_ok_mono) (rule g)
  then have "irc_inv ?c" using assms(1) new g unfolding irc_inv_def ok by (simp add: c)
  moreover have "live_ok ?c" using assms(2) False by (auto simp: live_ok_def c)
  ultimately show ?thesis by simp
qed

lemma inv_step:
  assumes "irc_inv srv \<and> live_ok srv" and "enabled ev srv"
  shows "irc_inv (step ev srv) \<and> live_ok (step ev srv)"
proof (cases ev)
  case (Accept host secure name)
  then show ?thesis using assms inv_acceptConn by simp
next
  case (Line i line)
  then have i: "i < nextSid (core srv)" using assms by (auto simp: live_ok_def)
  show ?thesis
  proof (rule permit_sessionLine [of i line srv])
    show ?thesis if "core (sessionLine i line srv) = core srv" using that assms(1) inv_same_core Line by (metis step.simps(2))
    show ?thesis if "effects i q (core srv) (core (sessionLine i line srv))" for q
      using inv_effects [OF that _ i] live_ok_effects [OF that] assms(1) Line by simp
  qed
next
  case (Disconnect i)
  then show ?thesis using assms inv_disconnect by simp
next
  case (Write i)
  then have "core (step ev srv) = core srv" by simp
  then show ?thesis using assms(1) inv_same_core by blast
next
  case (Announce msg)
  then have "core (step ev srv) = core srv" by (simp add: Server_Broadcast_def)
  then show ?thesis using assms(1) inv_same_core by blast
qed

text \<open>The server as a machine: any number of connections, whose lines arrive in any order.\<close>

interpretation irc_sys: state_machine "\<lambda>s. s = irc_New conf x"
    "\<lambda>s ev (out :: unit) s'. enabled ev s \<and> s' = step ev s" for conf x .

lemma inv_New: "irc_inv (irc_New conf x) \<and> live_ok (irc_New conf x)"
  by (simp add: irc_New_def Let_def irc_inv_def sess_defs newSession0_def live_ok_def split: prod.split)

lemma inv_reachable: "irc_sys.reachable conf x srv \<Longrightarrow> irc_inv srv \<and> live_ok srv"
proof (rule irc_sys.reachable_invariant [of conf x "\<lambda>s. irc_inv s \<and> live_ok s"])
  show "irc_inv s \<and> live_ok s" if "s = irc_New conf x" for s using that inv_New by simp
  show "irc_inv s' \<and> live_ok s'" if "irc_inv s \<and> live_ok s" "enabled ev s \<and> s' = step ev s" for s ev s'
    using that inv_step by blast
qed

end
