(* ===== verification/IrcGuarantees.thy ===== *)
theory IrcGuarantees
  imports IrcInvariant
begin

text \<open>
  What the IRC server guarantees: who may become operator, log in to an account, act on a channel or on other
  users, who receives a channel message, and what the queue of a connection and a labelled response contain.
\<close>

section \<open>Library lemmas\<close>

subsection \<open>What a line leaves alone\<close>

lemma effects_induct [consumes 1, case_names init effect]:
  assumes "effects i q c c'" and "P c" and "\<And>c c'. P c \<Longrightarrow> effect i q c c' \<Longrightarrow> P c'"
  shows "P c'"
  using assms(1) unfolding effects_def by (induction rule: rtranclp_induct) (use assms(2,3) in blast)+

lemma static_effect: "effect i q c c' \<Longrightarrow> cfg c' = cfg c \<and> ext c' = ext c \<and> accounts c' = accounts c"
  by (induction rule: effect.induct) (simp_all add: dropMember_def Channels_Remove_def Let_def split: option.split prod.split)

lemma static_effects: "effects i q c c' \<Longrightarrow> cfg c' = cfg c \<and> ext c' = ext c \<and> accounts c' = accounts c"
  by (induction rule: effects_induct) (use static_effect in simp_all)

lemma quitChannel_static:
  "cfg (quitChannel i k srv) = cfg srv \<and> ext (quitChannel i k srv) = ext srv \<and> accounts (quitChannel i k srv) = accounts srv \<and>
   sessions (quitChannel i k srv) = sessions srv \<and> strip (heap (quitChannel i k srv) j) = strip (heap srv j)"
proof (cases "map_of (channels srv) k")
  case (Some ch)
  note b = core_eq_fields [OF core_Broadcast] core_eq_strip [OF core_Broadcast]
  show ?thesis
    by (cases "RemoveMember (s_nick (heap srv i)) ch") (simp add: quitChannel_def Some b Channels_Remove_def Let_def)
qed (simp add: quitChannel_def)

lemma quitChannels_static:
  "cfg (fold (quitChannel i) ks srv) = cfg srv \<and> ext (fold (quitChannel i) ks srv) = ext srv \<and>
   accounts (fold (quitChannel i) ks srv) = accounts srv \<and> strip (heap (fold (quitChannel i) ks srv) j) = strip (heap srv j)"
  by (induction ks arbitrary: srv) (simp_all add: quitChannel_static)

lemma removeSession_static:
  "cfg (removeSession i srv) = cfg srv \<and> ext (removeSession i srv) = ext srv \<and> accounts (removeSession i srv) = accounts srv \<and>
   strip (heap (removeSession i srv) j) = strip (heap srv j)"
proof (cases "s_nick (heap srv i) = []")
  case False
  note m = core_eq_fields [OF core_notifyMonitor(2)] core_eq_strip [OF core_notifyMonitor(2)]
  show ?thesis using False by (simp add: removeSession_def timeNow_def Let_def m quitChannels_static)
qed (simp add: removeSession_def)

lemma acceptConn_static:
  "cfg (acceptConn h sec n srv) = cfg srv \<and> ext (acceptConn h sec n srv) = ext srv \<and> accounts (acceptConn h sec n srv) = accounts srv"
  by (simp add: acceptConn_def timeNow_def Let_def)

lemma acceptConn_heap:
  "j \<noteq> nextSid srv \<Longrightarrow> heap (acceptConn h sec n srv) j = heap srv j"
  "heap (acceptConn h sec n srv) (nextSid srv) = heap srv (nextSid srv) \<or>
     \<not> s_isOper (heap (acceptConn h sec n srv) (nextSid srv)) \<and> s_account (heap (acceptConn h sec n srv) (nextSid srv)) = []"
  by (simp_all add: acceptConn_def timeNow_def newSession0_def Let_def)

lemma strip_eqD: "strip s = strip t \<Longrightarrow> s_isOper s = s_isOper t \<and> s_account s = s_account t"
  by (metis strip_fields(5,19))

lemma step_other:
  assumes "\<And>i line. ev \<noteq> Line i line" and "\<And>h sec n. ev \<noteq> Accept h sec n"
  shows "cfg (step ev srv) = cfg srv \<and> ext (step ev srv) = ext srv \<and> accounts (step ev srv) = accounts srv \<and>
    strip (heap (step ev srv) j) = strip (heap srv j)"
proof (cases ev)
  case (Disconnect i)
  then show ?thesis by (simp add: disconnect_def removeSession_static)
next
  case (Announce msg)
  have "core (step ev srv) = core srv" by (simp add: Announce Server_Broadcast_def)
  then show ?thesis using core_eq_fields core_eq_strip by metis
qed (use assms in simp_all)

lemma step_static: "cfg (step ev srv) = cfg srv \<and> ext (step ev srv) = ext srv \<and> accounts (step ev srv) = accounts srv"
proof (cases ev)
  case (Line i line)
  show ?thesis
  proof (rule permit_sessionLine [of i line srv])
    show ?thesis if "core (sessionLine i line srv) = core srv" using core_eq_fields [OF that] Line by simp
    show ?thesis if "effects i q (core srv) (core (sessionLine i line srv))" for q using static_effects [OF that] Line by simp
  qed
qed (use acceptConn_static step_other [of ev srv] in \<open>simp_all del: step.simps add: step.simps(1)\<close>)

lemma run_static:
  "irc_sys.run s tr srv \<Longrightarrow> cfg srv = cfg s \<and> ext srv = ext s \<and> accounts srv = accounts s"
  by (induction rule: irc_sys.run.induct) (simp_all add: step_static)


subsection \<open>Operators and accounts\<close>

definition showsOper :: "IrcConfig \<Rightarrow> Ext \<Rightarrow> Message \<Rightarrow> bool" where
  "showsOper conf x q \<longleftrightarrow> verb q = OPER \<and> 2 \<le> length (Params q) \<and>
     (\<exists>hash. map_of (c_Opers conf) (Params q ! 0) = Some hash \<and> x_bcrypt x hash (Params q ! 1))"

lemma oper_effect:
  "effect i q c c' \<Longrightarrow> s_isOper (heap c' j) \<Longrightarrow> s_isOper (heap c j) \<or> j = i \<and> showsOper (cfg c) (ext c) q"
proof (induction rule: effect.induct)
  case (eff_cap c caps)
  have "s_isOper (fold setCap caps s) = s_isOper s" for s by (induction caps arbitrary: s) simp_all
  with eff_cap show ?case by (simp split: if_splits)
qed (auto simp: showsOper_def split: if_splits)

lemma oper_line:
  assumes "s_isOper (heap (sessionLine i line srv) j)" and "\<not> s_isOper (heap srv j)"
  shows "j = i \<and> (\<exists>q. Parse line = Inr q \<and> showsOper (cfg srv) (ext srv) q)"
proof (rule permit_sessionLine [of i line srv])
  show ?thesis if "core (sessionLine i line srv) = core srv" using core_eq_session(15) [OF that] assms by simp
  fix q
  assume p: "Parse line = Inr q" and e: "effects i q (core srv) (core (sessionLine i line srv))"
  have "cfg c = cfg srv \<and> ext c = ext srv \<and> (s_isOper (heap c j) \<longrightarrow> s_isOper (heap srv j) \<or> j = i \<and> showsOper (cfg srv) (ext srv) q)"
    if "effects i q (core srv) c" for c
    using that by (induction rule: effects_induct) (use oper_effect static_effect in \<open>fastforce+\<close>)
  from this [OF e] assms p show ?thesis by auto
qed

lemma oper_step:
  assumes "s_isOper (heap (step ev srv) j)" and "\<not> s_isOper (heap srv j)"
  shows "\<exists>line q. ev = Line j line \<and> Parse line = Inr q \<and> showsOper (cfg srv) (ext srv) q"
proof (cases ev)
  case (Line i line)
  then show ?thesis using oper_line [of i line srv j] assms by auto
next
  case (Accept h sec n)
  then show ?thesis using acceptConn_heap(1) [of j srv h sec n] acceptConn_heap(2) [of h sec n srv] assms by (cases "j = nextSid srv") auto
qed (use step_other [of ev srv j] strip_eqD assms in blast)+

text \<open>The payload a session has sent once a chunk is added to its buffer.\<close>

definition payload :: "Session \<Rightarrow> Message \<Rightarrow> string" where
  "payload s q = s_saslBuffer s @ (if hd (Params q) = ''+'' then [] else hd (Params q))"

definition showsAccount :: "Server \<Rightarrow> Session \<Rightarrow> Message \<Rightarrow> string \<Rightarrow> bool" where
  "showsAccount srv s q account \<longleftrightarrow> verb q = AUTHENTICATE \<and> s_saslActive s \<and> capEnabled s CapSASL \<and>
     (\<exists>authc pass a. plainFields (payload s q) = Some (authc, pass) \<and> map_of (accounts srv) (ToLower authc) = Some a \<and>
        x_bcrypt (ext srv) (a_PasswordHash a) pass \<and> account = a_Name a)"

lemma account_effect: "effect i q c c' \<Longrightarrow> verb q \<noteq> AUTHENTICATE \<Longrightarrow> s_account (heap c' j) = s_account (heap c j)"
proof (induction rule: effect.induct)
  case (eff_cap c caps)
  have "s_account (fold setCap caps s) = s_account s" for s by (induction caps arbitrary: s) simp_all
  then show ?case by simp
qed simp_all

lemma account_effects: "effects i q c c' \<Longrightarrow> verb q \<noteq> AUTHENTICATE \<Longrightarrow> s_account (heap c' j) = s_account (heap c j)"
  by (induction rule: effects_induct) (use account_effect in auto)

lemma account_core: "core srv = c \<Longrightarrow> s_account (heap srv j) = s_account (heap c j)"
  by (metis core_fields(12) strip_fields(5))

lemma account_loginAs: "s_account (heap (loginAs i a srv) j) = (if j = i then a_Name a else s_account (heap srv j))"
proof -
  have "core (loginAs i a srv) \<in> {updS i (\<lambda>s. s\<lparr>s_account := a_Name a\<rparr>) (core srv),
      updS i (\<lambda>s. s\<lparr>s_host := a_Host a\<rparr>) (updS i (\<lambda>s. s\<lparr>s_account := a_Name a\<rparr>) (core srv))}"
    by (simp add: loginAs_def Let_def)
  then obtain c where c: "core (loginAs i a srv) = c" and "c \<in> {updS i (\<lambda>s. s\<lparr>s_account := a_Name a\<rparr>) (core srv),
      updS i (\<lambda>s. s\<lparr>s_host := a_Host a\<rparr>) (updS i (\<lambda>s. s\<lparr>s_account := a_Name a\<rparr>) (core srv))}" by blast
  from this(2) have "s_account (heap c j) = (if j = i then a_Name a else s_account (heap srv j))" by auto
  with account_core [OF c] show ?thesis by simp
qed

lemma account_saslFinish:
  assumes "s_account (heap (saslFinish i srv) j) \<noteq> s_account (heap srv j)"
  shows "j = i \<and> (\<exists>authc pass a. plainFields (s_saslBuffer (heap srv i)) = Some (authc, pass) \<and>
    map_of (accounts srv) (ToLower authc) = Some a \<and> x_bcrypt (ext srv) (a_PasswordHash a) pass \<and>
    s_account (heap (saslFinish i srv) j) = a_Name a)"
proof -
  define a where "a = updS i (\<lambda>s. s\<lparr>s_saslActive := False, s_saslBuffer := []\<rparr>) srv"
  have same: "s_account (heap a k) = s_account (heap srv k)" for k by (simp add: a_def)
  show ?thesis
  proof (cases "plainFields (s_saslBuffer (heap srv i))")
    case None
    then have "saslFinish i srv = SendNumeric i ERR_SASLFAIL [''SASL authentication failed''] a" by (simp add: saslFinish_def a_def Let_def)
    with assms same show ?thesis by simp
  next
    case (Some ap)
    obtain authc pass where ap: "ap = (authc, pass)" by (cases ap)
    define hash where "hash = (case map_of (accounts a) (ToLower authc) of None \<Rightarrow> dummyPasswordHash a | Some x \<Rightarrow> a_PasswordHash x)"
    define b where "b = snd (checkPassword i hash pass a)"
    have cp: "checkPassword i hash pass a = (x_bcrypt (ext a) hash pass, b)" and cb: "core b = core a" by (simp_all add: b_def prod_eq_iff)
    have [simp]: "s_account (heap b k) = s_account (heap a k)" for k using account_core [OF cb, of k] by simp
    have fin: "saslFinish i srv =
        (case map_of (accounts a) (ToLower authc) of
           None \<Rightarrow> SendNumeric i ERR_SASLFAIL [''SASL authentication failed''] b
         | Some account \<Rightarrow> if \<not> x_bcrypt (ext a) hash pass then SendNumeric i ERR_SASLFAIL [''SASL authentication failed''] b
                           else loginAs i account b)"
      unfolding saslFinish_def Let_def Some ap option.case prod.case a_def [symmetric] hash_def [symmetric] cp ..
    have h: "x_bcrypt (ext a) hash pass" "map_of (accounts a) (ToLower authc) \<noteq> None"
      using assms same unfolding fin by (auto split: option.splits if_splits)
    then obtain account where acc: "map_of (accounts a) (ToLower authc) = Some account" by blast
    with fin h(1) have "s_account (heap (saslFinish i srv) j) = (if j = i then a_Name account else s_account (heap srv j))"
      by (simp add: account_loginAs same)
    with assms h(1) acc Some ap show ?thesis by (auto simp: hash_def a_def split: if_splits)
  qed
qed

lemma account_handleAuthenticate:
  assumes "s_account (heap (handleAuthenticate i q srv) j) \<noteq> s_account (heap srv j)" and "verb q = AUTHENTICATE"
  shows "j = i \<and> showsAccount srv (heap srv i) q (s_account (heap (handleAuthenticate i q srv) j))"
proof -
  define a where "a = (if hd (Params q) \<noteq> ''+'' then updS i (\<lambda>s. s\<lparr>s_saslBuffer := s_saslBuffer s @ hd (Params q)\<rparr>) srv else srv)"
  have a: "s_account (heap a j) = s_account (heap srv j)" "s_saslBuffer (heap a i) = payload (heap srv i) q" "accounts a = accounts srv" "ext a = ext srv"
    by (simp_all add: a_def payload_def)
  have "s_account (heap (saslFailure i n tx srv) j) = s_account (heap srv j)" for n tx by (simp add: saslFailure_def)
  moreover have "s_account (heap (saslStart i c srv) j) = s_account (heap srv j)" for c
    by (simp add: saslStart_def saslFailure_def Sendf_def)
  ultimately have fin: "s_saslActive (heap srv i)" "capEnabled (heap srv i) CapSASL" "handleAuthenticate i q srv = saslFinish i a"
    using assms(1) a(1) unfolding handleAuthenticate_def Let_def a_def [symmetric] by (auto split: if_splits)
  have "s_account (heap (saslFinish i a) j) \<noteq> s_account (heap a j)" using assms(1) fin(3) a(1) by simp
  from account_saslFinish [OF this] show ?thesis using fin assms(2) by (auto simp: showsAccount_def a)
qed

lemma account_dispatch:
  assumes "s_account (heap (irc_dispatch i q srv) j) \<noteq> s_account (heap srv j)"
  shows "j = i \<and> showsAccount srv (heap srv i) q (s_account (heap (irc_dispatch i q srv) j))"
proof (cases "verb q = AUTHENTICATE")
  case True
  then have "irc_dispatch i q srv = handleAuthenticate i q srv" by (simp add: irc_dispatch_def verb_def irc_cmd_defs)
  with account_handleAuthenticate [OF _ True] assms show ?thesis by simp
next
  case False
  then show ?thesis using account_effects [OF permit_dispatch False, of i srv j] assms by simp
qed

lemma account_line:
  assumes "s_account (heap (sessionLine i line srv) j) \<noteq> s_account (heap srv j)"
  shows "j = i \<and> (\<exists>q. Parse line = Inr q \<and> showsAccount srv (heap srv i) q (s_account (heap (sessionLine i line srv) j)))"
proof -
  have "\<exists>q. \<not> InputTooLong line \<and> Parse line = Inr q" using assms by (cases "InputTooLong line"; cases "Parse line") (simp_all add: sessionLine_def)
  then obtain q where q: "\<not> InputTooLong line" "Parse line = Inr q" by blast
  define a where "a = updS i (\<lambda>s. s\<lparr>s_idleAt := x_clock (ext srv) (calls srv)\<rparr>) (srv\<lparr>calls := Suc (calls srv)\<rparr>)"
  define b where "b = (case responseLabel (heap a i) q of None \<Rightarrow> a | Some label \<Rightarrow> updS i (beginResponse label) a)"
  have d: "core (dispatchCommand i q a) = core (irc_dispatch i q b)"
  proof (cases "responseLabel (heap a i) q")
    case (Some label)
    then show ?thesis using core_finishResponse [of i "irc_dispatch i q b"] by (simp add: dispatchCommand_def b_def split_beta)
  qed (simp add: dispatchCommand_def b_def)
  have e: "s_account (heap b k) = s_account (heap srv k)" "s_saslBuffer (heap b k) = s_saslBuffer (heap srv k)"
    "s_saslActive (heap b k) = s_saslActive (heap srv k)" "s_caps (heap b k) = s_caps (heap srv k)" "accounts b = accounts srv" "ext b = ext srv" for k
    by (simp_all add: b_def a_def beginResponse_def split: option.split)
  have l: "s_account (heap (sessionLine i line srv) k) = s_account (heap (irc_dispatch i q b) k)" for k
    using q core_eq_session(5) [OF d] by (simp add: sessionLine_def timeNow_def a_def)
  have "showsAccount b (heap b i) q x = showsAccount srv (heap srv i) q x" for x
    by (simp add: showsAccount_def payload_def capEnabled_def e)
  with account_dispatch [of i q b j] assms q(2) show ?thesis by (auto simp: l e)
qed


subsection \<open>Channels\<close>

text \<open>What a session without privileges on a channel cannot change there: another member, the modes, a protected
  topic. The second part carries the lack of privileges through the commands that act on channels.\<close>

definition guarded :: "sid \<Rightarrow> Message \<Rightarrow> string \<Rightarrow> string \<Rightarrow> Membership \<Rightarrow> Channel \<Rightarrow> string \<Rightarrow> Server \<Rightarrow> bool" where
  "guarded i q k n m ch nick c \<longleftrightarrow>
     (\<exists>ch'. map_of (channels c) k = Some ch' \<and> map_of (ch_members ch') n = Some m \<and> ch_modes ch' = ch_modes ch \<and>
        (mode_Has (ch_modes ch) (CHR ''t'') \<longrightarrow> ch_topic ch' = ch_topic ch) \<and>
        (verb q \<in> {JOIN, PART, KICK, TOPIC, MODE} \<longrightarrow>
           s_nick (heap c i) = nick \<and> \<not> s_isOper (heap c i) \<and>
           (\<forall>p. map_of (ch_members ch') (ToLower nick) = Some p \<longrightarrow> \<not> isOperator p)))"

lemma guarded_updS:
  assumes "guarded i q k n m ch nick c"
    and "verb q \<in> {JOIN, PART, KICK, TOPIC, MODE} \<Longrightarrow> s_nick (f (heap c j)) = s_nick (heap c j) \<and> s_isOper (f (heap c j)) = s_isOper (heap c j)"
  shows "guarded i q k n m ch nick (updS j f c)"
  using assms unfolding guarded_def by (cases "j = i") auto

lemma channels_dropMember:
  assumes "map_of (channels c) k = Some ch"
  shows "map_of (channels (dropMember name nick c)) k =
    (if k = ToLower name then (let ms = AList.delete (ToLower nick) (ch_members ch) in if ms = [] then None else Some (ch\<lparr>ch_members := ms\<rparr>))
     else Some ch)"
proof (cases "Channels_Get c name")
  case None
  with assms have "k \<noteq> ToLower name" by (auto simp: Channels_Get_def)
  with None assms show ?thesis by (simp add: dropMember_def)
next
  case (Some x)
  with assms have "k = ToLower name \<Longrightarrow> x = ch" by (simp add: Channels_Get_def)
  with Some assms show ?thesis
    by (auto simp: dropMember_def RemoveMember_def Channels_Remove_def Let_def delete_conv')
qed

lemma guarded_effect:
  assumes "effect i q c c'" and "guarded i q k n m ch nick c" and "n \<noteq> ToLower nick"
  shows "guarded i q k n m ch nick c'"
  using assms
proof (induction rule: effect.induct)
  case (eff_register c reg)
  then have "verb q \<notin> {JOIN, PART, KICK, TOPIC, MODE}" by (auto simp: irc_cmd_defs)
  with eff_register show ?case by (simp add: guarded_def)
next
  case (eff_channel_message c target x at)
  then have "verb q \<notin> {JOIN, PART, KICK, TOPIC, MODE}" by (auto simp: irc_cmd_defs)
  with eff_channel_message show ?case by (auto simp: guarded_def Channel_appendHistory_def)
next
  case (eff_message c target j x at)
  show ?case by (intro guarded_updS eff_message) (simp_all add: Session_appendHistory_def Let_def)
next
  case (eff_join c name chn t key)
  then obtain ch' where ch': "map_of (channels c) k = Some ch'" "map_of (ch_members ch') n = Some m" "ch_modes ch' = ch_modes ch"
      "mode_Has (ch_modes ch) (CHR ''t'') \<longrightarrow> ch_topic ch' = ch_topic ch" "s_nick (heap c i) = nick" "\<not> s_isOper (heap c i)"
      "\<forall>p. map_of (ch_members ch') (ToLower nick) = Some p \<longrightarrow> \<not> isOperator p"
    unfolding guarded_def by auto
  show ?case
  proof (cases "k = ToLower name")
    case True
    then have e: "chn = ch'" using eff_join(4) ch'(1) by (simp add: Channels_Get_def)
    have "Members chn \<noteq> []" using ch'(2) e by (auto simp: Members_def)
    then show ?thesis
      using ch' eff_join.prems(2) True e
      by (auto simp: guarded_def AddMember_def update_conv' isOperator_def ContainsAny_def)
  next
    case False
    then show ?thesis using ch' unfolding guarded_def by (auto simp: update_conv')
  qed
next
  case (eff_leave c name chn p target)
  then have v: "verb q \<in> {JOIN, PART, KICK, TOPIC, MODE}" by auto
  with eff_leave obtain ch' where ch': "map_of (channels c) k = Some ch'" "map_of (ch_members ch') n = Some m" "ch_modes ch' = ch_modes ch"
      "mode_Has (ch_modes ch) (CHR ''t'') \<longrightarrow> ch_topic ch' = ch_topic ch" "s_nick (heap c i) = nick" "\<not> s_isOper (heap c i)"
      "\<forall>p. map_of (ch_members ch') (ToLower nick) = Some p \<longrightarrow> \<not> isOperator p"
    unfolding guarded_def by auto
  show ?case
  proof (cases "k = ToLower name")
    case True
    then have "chn = ch'" using eff_leave(3) ch'(1) by (simp add: Channels_Get_def)
    then have t: "target = nick" using eff_leave(4,5) ch'(5,7) by (auto simp: GetMembership_def)
    let ?ms = "AList.delete (ToLower nick) (ch_members ch')"
    have ms: "map_of ?ms n = Some m" "map_of ?ms (ToLower nick) = None" using ch'(2) eff_leave.prems(2) by (auto simp: delete_conv')
    then have "?ms \<noteq> []" by (metis map_of.simps(1) option.distinct(1))
    then have "map_of (channels (dropMember name target c)) k = Some (ch'\<lparr>ch_members := ?ms\<rparr>)"
      using channels_dropMember [OF ch'(1), of name target] by (simp add: True t Let_def)
    then show ?thesis using ch' ms unfolding guarded_def by simp
  next
    case False
    then have "map_of (channels (dropMember name target c)) k = Some ch'" using channels_dropMember [OF ch'(1), of name target] by simp
    then show ?thesis using ch' unfolding guarded_def by simp
  qed
next
  case (eff_topic c name chn p t tx)
  then show ?case unfolding guarded_def by (auto simp: Channels_Get_def GetMembership_def)
next
  case (eff_channel_mode c name chn p changes)
  then show ?case unfolding guarded_def by (auto simp: Channels_Get_def GetMembership_def)
next
  case (eff_cap c caps)
  then have "verb q \<notin> {JOIN, PART, KICK, TOPIC, MODE}" by (auto simp: irc_cmd_defs)
  with eff_cap show ?case by (intro guarded_updS) auto
qed (auto intro!: guarded_updS simp: irc_cmd_defs)

subsection \<open>Before registration\<close>

definition powerless :: "sid \<Rightarrow> Message \<Rightarrow> Server \<Rightarrow> Server \<Rightarrow> bool" where
  "powerless i q c0 c \<longleftrightarrow> channels c = channels c0 \<and> (\<forall>j. j \<noteq> i \<longrightarrow> heap c j = heap c0 j) \<and>
     (\<forall>k j. map_of (sessions c0) k = Some j \<longrightarrow> map_of (sessions c) k = Some j) \<and> s_isOper (heap c i) = s_isOper (heap c0 i) \<and>
     (verb q \<notin> {NICK, USER, CAP} \<longrightarrow> s_state (heap c i) \<noteq> StateRegistered)"

lemma powerless_effect: "effect i q c c' \<Longrightarrow> powerless i q c0 c \<Longrightarrow> powerless i q c0 c'"
proof (induction rule: effect.induct)
  case (eff_register c reg)
  then show ?case by (auto simp: powerless_def Registry_Add_def update_conv' split: if_splits)
next
  case (eff_cap c caps)
  have "s_isOper (fold setCap caps s) = s_isOper s \<and> s_state (fold setCap caps s) = s_state s" for s by (induction caps arbitrary: s) simp_all
  with eff_cap show ?case by (simp add: powerless_def)
qed (auto simp: powerless_def irc_cmd_defs)


subsection \<open>Delivery\<close>

text \<open>What \<open>Send\<close> does to the heap: the message reaches one session, with other tags at most.\<close>

definition sameText :: "Message \<Rightarrow> Message \<Rightarrow> bool" where
  "sameText m m' \<longleftrightarrow> msg_Prefix m = msg_Prefix m' \<and> Command m = Command m' \<and> Params m = Params m'"

definition received :: "Message \<Rightarrow> Session \<Rightarrow> Session \<Rightarrow> bool" where
  "received msg s s' \<longleftrightarrow> (\<exists>out. sameText out msg \<and> s' = deliver out s \<and> list_all (\<lambda>(tag, v). capEnabled s (tagCap tag)) (msg_Tags out))"

lemma heap_timeNow: "heap (snd (timeNow srv)) = heap srv" and heap_randText: "heap (snd (randText srv)) = heap srv"
  by (simp_all add: timeNow_def randText_def)

lemma prepare_received:
  assumes "prepare j msg srv = (out, srv')"
  shows "heap srv' = heap srv \<and> sameText out msg \<and>
    list_all (\<lambda>(tag, v). capEnabled (heap srv j) (tagCap tag)) (msg_Tags out)"
  using assms
  by (auto simp: prepare_def Let_def addTime_def timeNow_def sameText_def visibleTags_def list_all_iff split: if_splits prod.splits)

lemma Send_heap:
  assumes "Command msg \<noteq> TAGMSG"
  shows "received msg (heap srv j) (heap (Send j msg srv) j)" and "k \<noteq> j \<Longrightarrow> heap (Send j msg srv) k = heap srv k"
proof -
  obtain out srv' where p: "prepare j msg srv = (out, srv')" by (rule prod.exhaust)
  note r = prepare_received [OF p]
  show "received msg (heap srv j) (heap (Send j msg srv) j)" using assms p r by (auto simp: Send_def received_def)
  show "k \<noteq> j \<Longrightarrow> heap (Send j msg srv) k = heap srv k" using assms p r by (simp add: Send_def)
qed

lemma Broadcast_heap:
  assumes "Command msg \<noteq> TAGMSG" and "distinct (map m_Session ms)"
  shows "let srv' = fold (\<lambda>m srv. if Some (m_Session m) = ex then srv else Send (m_Session m) msg srv) ms srv in
    if j \<in> m_Session ` set ms \<and> Some j \<noteq> ex then received msg (heap srv j) (heap srv' j) else heap srv' j = heap srv j"
  using assms(2)
proof (induction ms arbitrary: srv)
  case (Cons m ms)
  let ?srv = "if Some (m_Session m) = ex then srv else Send (m_Session m) msg srv"
  have "heap ?srv j = heap srv j" if "j \<noteq> m_Session m \<or> Some j = ex" using that Send_heap(2) [OF assms(1)] by auto
  moreover have "received msg (heap srv j) (heap ?srv j)" if "j = m_Session m" "Some j \<noteq> ex" using that Send_heap(1) [OF assms(1)] by auto
  ultimately show ?case using Cons.IH [of ?srv] Cons.prems by (cases "j = m_Session m") (auto simp: Let_def)
qed simp

lemma privmsg_channel:
  assumes "s_state (heap srv i) = StateRegistered" and "ToUpper (Command q) \<in> {PRIVMSG, NOTICE}"
    and "2 \<le> length (Params q)" and "isChannelTarget (Params q ! 0)" and "refuseChannel srv i (Params q ! 0) = None"
    and "Channels_Get srv (Params q ! 0) = Some ch"
  shows "\<exists>out now b. msg_Prefix out = Some (Session_Prefix (heap srv i)) \<and> Command out = ToUpper (Command q) \<and> Params out = take 2 (Params q) \<and>
    heap b = heap srv \<and> channels b = channels srv \<and>
    irc_dispatch i q srv = echo i out (Channel_Broadcast ch out (Some i) (updCh (ToLower (Params q ! 0)) (Channel_appendHistory now out) b))"
proof -
  define b where "b = srv\<lparr>calls := Suc (Suc (calls srv))\<rparr>"
  define notice where "notice = (ToUpper (Command q) = NOTICE)"
  have d: "irc_dispatch i q srv = handlePrivmsg i q notice srv" and n: "(if notice then NOTICE else PRIVMSG) = ToUpper (Command q)"
    using assms(1,2) by (auto simp: irc_dispatch_def dispatchRegistered_def notice_def irc_cmd_defs)
  have b: "heap b = heap srv" "channels b = channels srv" by (simp_all add: b_def)
  have r: "refuseChannel b i t = refuseChannel srv i t" "Channels_Get b t = Channels_Get srv t" for t
    by (simp_all only: refuseChannel_def Channels_Get_def b)
  have p: "take 2 (Params q) = [Params q ! 0, Params q ! 1]" using assms(3) by (cases "Params q"; cases "tl (Params q)") auto
  define tags where "tags = relayTags (heap b i) (x_random (ext srv) (Suc (calls srv))) (serverTime b (x_clock (ext srv) (calls srv)))
      (if capEnabled (heap b i) CapMessageTags then msg_Tags q else [])"
  define out where "out = (message (Some (Session_Prefix (heap srv i))) (ToUpper (Command q)) [Params q ! 0, Params q ! 1])\<lparr>msg_Tags := tags\<rparr>"
  have "irc_dispatch i q srv = relayToChannel i (Params q ! 0) (Channel_appendHistory (x_clock (ext srv) (calls srv)) out) out b"
    using assms(3,4) by (simp add: d handlePrivmsg_def timeNow_def randText_def Let_def n out_def tags_def b b_def)
  also have "\<dots> = echo i out (Channel_Broadcast ch out (Some i)
      (updCh (ToLower (Params q ! 0)) (Channel_appendHistory (x_clock (ext srv) (calls srv)) out) b))"
    using assms(5,6) by (simp add: relayToChannel_def r)
  finally have "irc_dispatch i q srv = \<dots>" .
  moreover have "msg_Prefix out = Some (Session_Prefix (heap srv i))" "Command out = ToUpper (Command q)" "Params out = take 2 (Params q)"
    by (simp_all add: out_def message_def p)
  ultimately show ?thesis using b by blast
qed

subsection \<open>The queue of a connection\<close>

text \<open>What happens to a connection: lines are sent, the writer takes an item, \<open>flush\<close> waits, the connection is closed.\<close>

datatype conn_event = ELine string | EWriter | EFlush | EClose

fun connStep :: "conn_event \<Rightarrow> Conn \<Rightarrow> Conn" where
  "connStep (ELine line) c = sendLine line c"
| "connStep EWriter c = writerStep c"
| "connStep EFlush c = flush c"
| "connStep EClose c = conn_Close c"

definition linesOf :: "conn_event list \<Rightarrow> string list" where
  "linesOf evs = concat (map (\<lambda>e. case e of ELine l \<Rightarrow> [l] | _ \<Rightarrow> []) evs)"

definition queued :: "Conn \<Rightarrow> string list" where
  "queued c = filter (\<lambda>l. l \<noteq> []) (map ob_line (writeQueue c))"

definition conn_inv :: "string list \<Rightarrow> Conn \<Rightarrow> bool" where
  "conn_inv sent c \<longleftrightarrow> asyncWrite c \<and> writeBytes c = int (length (concat (map ob_line (writeQueue c)))) \<and> writeBytes c \<le> maxQueuedOutput \<and>
     prefix (written c) sent \<and> (\<not> conn_closed c \<longrightarrow> \<not> writerDone c \<and> written c @ queued c = sent)"

lemma conn_inv_mono: "conn_inv sent c \<Longrightarrow> conn_closed c \<Longrightarrow> conn_inv (sent @ ls) c"
  by (auto simp: conn_inv_def)

lemma conn_enqueue:
  assumes "conn_inv sent c"
  shows "conn_inv (sent @ (if ob_line item = [] then [] else [ob_line item])) (enqueue item c)"
  using assms by (auto simp: enqueue_def conn_inv_def queued_def)

lemma conn_writer:
  assumes "conn_inv sent c"
  shows "conn_inv sent (writerStep c)"
proof (cases "writeQueue c")
  case (Cons item q)
  then show ?thesis using assms by (auto simp: writerStep_def conn_inv_def queued_def Let_def)
qed (use assms in \<open>simp add: writerStep_def\<close>)

lemma conn_flush: "conn_inv sent c \<Longrightarrow> conn_inv sent (flush c)"
proof -
  assume c: "conn_inv sent c"
  have "conn_inv sent ((writerStep ^^ n) d)" if "conn_inv sent d" for n d using that by (induction n) (simp_all add: conn_writer)
  then show ?thesis using c conn_enqueue [OF c, of "\<lparr>ob_line = [], ob_done = True\<rparr>"] by (simp add: flush_def Let_def)
qed

lemma conn_step:
  assumes "conn_inv sent c" and "\<forall>l \<in> set (linesOf [e]). l \<noteq> []"
  shows "conn_inv (sent @ linesOf [e]) (connStep e c)"
proof (cases e)
  case (ELine line)
  have "asyncWrite c" using assms(1) by (simp add: conn_inv_def)
  then show ?thesis using conn_enqueue [OF assms(1), of "\<lparr>ob_line = line, ob_done = False\<rparr>"] assms(2) ELine by (simp add: linesOf_def sendLine_def)
next
  case EClose
  then show ?thesis using assms(1) by (auto simp: linesOf_def conn_Close_def conn_inv_def)
qed (use assms(1) conn_writer conn_flush in \<open>simp_all add: linesOf_def\<close>)


lemma conn_steps:
  assumes "conn_inv sent c" and "\<forall>l \<in> set (linesOf evs). l \<noteq> []"
  shows "conn_inv (sent @ linesOf evs) (fold connStep evs c)"
  using assms
proof (induction evs arbitrary: sent c)
  case (Cons e evs)
  have l: "linesOf (e # evs) = linesOf [e] @ linesOf evs" by (simp add: linesOf_def)
  have "conn_inv (sent @ linesOf [e]) (connStep e c)" by (rule conn_step [OF Cons.prems(1)]) (use Cons.prems(2) l in auto)
  from Cons.IH [OF this] show ?case using Cons.prems(2) by (simp add: l)
qed (simp add: linesOf_def)

lemma writer_drains:
  assumes "\<not> conn_closed c" and "\<not> writerDone c" and "length (writeQueue c) \<le> n"
  shows "written ((writerStep ^^ n) c) = written c @ queued c"
  using assms
proof (induction n arbitrary: c)
  case (Suc n)
  show ?case
  proof (cases "writeQueue c")
    case Nil
    then have "writerStep c = c" by (simp add: writerStep_def)
    then have "(writerStep ^^ m) c = c" for m by (induction m) simp_all
    with Nil show ?thesis by (simp add: queued_def del: funpow.simps)
  next
    case (Cons item q)
    define d where "d = writerStep c"
    have "\<not> conn_closed d" "\<not> writerDone d" "length (writeQueue d) \<le> n" "written d @ queued d = written c @ queued c"
      using Suc.prems Cons by (simp_all add: d_def writerStep_def queued_def Let_def)
    with Suc.IH [of d] show ?thesis by (simp add: funpow_Suc_right d_def del: funpow.simps)
  qed
qed (simp add: queued_def)

lemma flush_drains:
  assumes "conn_inv sent c" and "\<not> conn_closed c"
  shows "written (flush c) = sent"
proof -
  have o: "\<not> writeBytes c > maxQueuedOutput" "asyncWrite c" "\<not> writerDone c" "written c @ queued c = sent"
    using assms by (simp_all add: conn_inv_def)
  let ?d = "enqueue \<lparr>ob_line = [], ob_done = True\<rparr> c"
  have "\<not> conn_closed ?d" "\<not> writerDone ?d" "written ?d @ queued ?d = sent"
    using o assms(2) by (simp_all add: enqueue_def queued_def)
  with writer_drains [of ?d "length (writeQueue ?d)"] show ?thesis using o(2) by (simp add: flush_def Let_def)
qed

subsection \<open>Masks\<close>

text \<open>What a mask matches: a star any text, a question mark any character.\<close>

inductive glob :: "string \<Rightarrow> string \<Rightarrow> bool" where
  glob_end: "glob [] []"
| glob_skip: "glob p s \<Longrightarrow> glob (CHR ''*'' # p) s"
| glob_take: "glob (CHR ''*'' # p) s \<Longrightarrow> glob (CHR ''*'' # p) (c # s)"
| glob_one: "glob p s \<Longrightarrow> glob (CHR ''?'' # p) (c # s)"
| glob_char: "c \<noteq> CHR ''*'' \<Longrightarrow> c \<noteq> CHR ''?'' \<Longrightarrow> glob p s \<Longrightarrow> glob (c # p) (c # s)"

inductive_simps glob_simps: "glob [] s" "glob (c # p) []" "glob (c # p) (d # s)"

lemma glob_star: "glob (CHR ''*'' # p) s \<longleftrightarrow> (\<exists>n \<le> length s. glob p (drop n s))"
proof (induction s)
  case (Cons d s)
  have "(\<exists>n \<le> length (d # s). glob p (drop n (d # s))) \<longleftrightarrow> glob p (d # s) \<or> (\<exists>n \<le> length s. glob p (drop n s))"
  proof
    assume "\<exists>n \<le> length (d # s). glob p (drop n (d # s))"
    then obtain n where "n \<le> length (d # s)" "glob p (drop n (d # s))" by blast
    then show "glob p (d # s) \<or> (\<exists>n \<le> length s. glob p (drop n s))" by (cases n) auto
  next
    assume "glob p (d # s) \<or> (\<exists>n \<le> length s. glob p (drop n s))"
    then show "\<exists>n \<le> length (d # s). glob p (drop n (d # s))"
    proof
      assume "\<exists>n \<le> length s. glob p (drop n s)"
      then obtain n where "n \<le> length s" "glob p (drop n s)" by blast
      then show ?thesis by (intro exI [of _ "Suc n"]) simp
    qed (intro exI [of _ 0], simp)
  qed
  with Cons show ?case by (simp add: glob_simps)
qed (simp add: glob_simps)

lemma glob_empty: "glob p [] \<longleftrightarrow> list_all (\<lambda>c. c = CHR ''*'') p"
  by (induction p) (auto simp: glob_simps)

lemma glob_star_nonempty: "\<not> glob ps [] \<Longrightarrow> glob (CHR ''*'' # ps) s \<longleftrightarrow> (\<exists>n < length s. glob ps (drop n s))"
proof -
  assume e: "\<not> glob ps []"
  have "n < length s" if "n \<le> length s" "glob ps (drop n s)" for n using that e by (cases "n = length s") auto
  then show ?thesis unfolding glob_star by (meson less_imp_le)
qed

lemma globMatch_star: "ps \<noteq> [] \<Longrightarrow> globMatch (CHR ''*'' # ps) s \<longleftrightarrow> (\<exists>n < length s. globMatch ps (drop n s))"
  by (simp add: list_ex_iff Bex_def)

lemma no_trailing_stars: "\<not> suffix ''**'' (CHR ''*'' # ps) \<Longrightarrow> ps \<noteq> [] \<Longrightarrow> \<not> glob ps []"
proof
  assume s: "\<not> suffix ''**'' (CHR ''*'' # ps)" "ps \<noteq> []" and "glob ps []"
  then have "list_all (\<lambda>c. c = CHR ''*'') ps" by (simp add: glob_empty)
  then have "ps = replicate (length ps) (CHR ''*'')" by (induction ps) auto
  moreover obtain n where "length ps = Suc n" using s(2) by (cases ps) auto
  ultimately have "CHR ''*'' # ps = replicate n (CHR ''*'') @ ''**''" by (simp add: replicate_app_Cons_same)
  with s(1) show False by (simp add: suffix_def)
qed

lemma glob_only_star: "glob ''*'' s" "globMatch ''*'' s"
  by (induction s) (simp_all add: glob_simps)

lemma globMatch_other:
  "p \<noteq> CHR ''*'' \<Longrightarrow> globMatch (p # ps) [] = False \<and> glob (p # ps) [] = False"
  "p \<noteq> CHR ''*'' \<Longrightarrow> globMatch (p # ps) (c # s) = ((p = CHR ''?'' \<or> p = c) \<and> globMatch ps s)"
  "p \<noteq> CHR ''*'' \<Longrightarrow> glob (p # ps) (c # s) = ((p = CHR ''?'' \<or> p = c) \<and> glob ps s)"
  by (auto simp: glob_simps)

lemma globMatch_glob: "\<not> suffix ''**'' p \<Longrightarrow> globMatch p s \<longleftrightarrow> glob p s"
proof (induction p arbitrary: s)
  case (Cons p ps)
  have ps: "\<not> suffix ''**'' ps" by (rule contrapos_nn [OF Cons.prems]) (rule suffix_ConsI)
  note IH = Cons.IH [OF ps]
  consider "p = CHR ''*''" "ps = []" | "p = CHR ''*''" "ps \<noteq> []" | "p \<noteq> CHR ''*''" by blast
  then show ?case
  proof cases
    case 1
    then show ?thesis using glob_only_star by blast
  next
    case 2
    have "\<not> glob ps []" by (rule no_trailing_stars [OF _ 2(2)]) (use Cons.prems 2(1) in blast)
    from glob_star_nonempty [OF this] show ?thesis unfolding 2(1) globMatch_star [OF 2(2)] IH by blast
  next
    case 3
    show ?thesis by (cases s) (simp_all only: globMatch_other [OF 3] IH)
  qed
qed (simp add: glob_simps)


subsection \<open>Runs on concrete servers\<close>

fun irc_run :: "event list \<Rightarrow> Server \<Rightarrow> Server option" where
  "irc_run [] srv = Some srv"
| "irc_run (ev # evs) srv = (if enabled ev srv then irc_run evs (step ev srv) else None)"

lemma irc_run_run: "irc_run evs s = Some srv \<Longrightarrow> irc_sys.run s (map (\<lambda>ev. (ev, ())) evs) srv"
  by (induction evs s rule: irc_run.induct) (auto intro: irc_sys.run.intros split: if_splits)

text \<open>A password check by equality, a server with one operator and one account, and a channel with three members, the
  first of them its operator.\<close>

definition demoExt :: Ext where
  "demoExt = \<lparr>x_bcrypt = (\<lambda>h p. h = p), x_cost = (\<lambda>h. Some 10), x_generate = (\<lambda>p c. []), x_format = (\<lambda>l t. []),
     x_parse = (\<lambda>l v. None), x_clock = (\<lambda>n. int n), x_random = (\<lambda>n. [])\<rparr>"

definition demoConfig :: IrcConfig where
  "demoConfig = \<lparr>c_Name = ''h'', c_Network = ''n'', c_Listen = ''l'', c_TLSListen = [], c_TLSConfig = False, c_MOTD = [], c_MaxClients = 4,
     c_Password = [], c_Opers = [(''r'', ''p'')], c_Accounts = [(''a'', \<lparr>a_Name = ''a'', a_PasswordHash = ''p'', a_Host = []\<rparr>)],
     c_STS = None, c_PingInterval = 1, c_PingTimeout = 1\<rparr>"

definition demoChannel :: Channel where
  "demoChannel = fold (\<lambda>(i, nick, p). AddMember i nick p) [(0, ''a'', ''@''), (1, ''b'', []), (2, ''c'', [])] (newChannel ''#x'' 0)"

definition demoServer :: Server where
  "demoServer = (irc_New demoConfig demoExt)
     \<lparr>heap := (\<lambda>i. (newSession0 [] 0 0)\<lparr>s_nick := (if i = 0 then ''a'' else if i = 1 then ''b'' else ''c''), s_user := ''u'',
         s_state := StateRegistered\<rparr>),
      sessions := [(''a'', 0), (''b'', 1), (''c'', 2)], channels := [(''#x'', demoChannel)], nextSid := 3\<rparr>"

lemma demo_channel [simp]: "map_of (channels demoServer) ''#x'' = Some demoChannel" "Channels_Get demoServer ''#x'' = Some demoChannel"
  by code_simp+

section \<open>Properties\<close>

text \<open>C6: In every state the server reaches, logins are to configured accounts over TLS, the SASL capability is enabled
  over TLS only, registered nicknames and channel members are registered sessions, member prefixes are in order, channels
  have members and valid names, all histories, lists and buffers are within their limits, and the number of connections
  is the one counted and within the configured limit.\<close>

theorem irc_server_invariant:
  assumes "irc_sys.reachable conf x srv"
  shows "irc_inv srv \<and> live_ok srv"
  by (rule inv_reachable [OF assms])

theorem irc_server_invariant_witness:
  "\<exists>srv. irc_sys.reachable demoConfig demoExt srv \<and> channels srv = [] \<and> live srv = [0] \<and> irc_inv srv \<and> live_ok srv"
proof -
  have "case irc_run [Accept [] True []] (irc_New demoConfig demoExt) of None \<Rightarrow> False | Some s \<Rightarrow> channels s = [] \<and> live s = [0]"
    by code_simp
  then obtain srv where r: "irc_run [Accept [] True []] (irc_New demoConfig demoExt) = Some srv" "channels srv = []" "live srv = [0]"
    by (auto split: option.splits)
  then have "irc_sys.reachable demoConfig demoExt srv" using irc_run_run unfolding irc_sys.reachable_def by blast
  with irc_server_invariant [of demoConfig demoExt srv] r show ?thesis by blast
qed

text \<open>C4: A session is an operator only after it has itself sent an OPER with the name of a configured operator and a
  password that matches the configured hash, in any run of the server from its start.\<close>

theorem irc_oper_password:
  assumes "irc_sys.run (irc_New conf x) tr srv" and "s_isOper (heap srv i)"
  shows "\<exists>line q hash. (Line i line, ()) \<in> set tr \<and> Parse line = Inr q \<and> ToUpper (Command q) = OPER \<and> 2 \<le> length (Params q) \<and>
    map_of (c_Opers conf) (Params q ! 0) = Some hash \<and> x_bcrypt x hash (Params q ! 1)"
proof -
  have n: "cfg (irc_New conf x) = setDefaults conf" "ext (irc_New conf x) = x" "\<not> s_isOper (heap (irc_New conf x) i)"
    by (simp_all add: irc_New_def Let_def newSession0_def split: prod.split)
  have "s_isOper (heap srv i) \<longrightarrow> s_isOper (heap s i) \<or>
      (\<exists>line q. (Line i line, ()) \<in> set tr \<and> Parse line = Inr q \<and> showsOper (cfg s) (ext s) q)" if "irc_sys.run s tr srv" for s
    using that
  proof (induction rule: irc_sys.run.induct)
    case (run_Cons s ev out s' tr srv)
    then show ?case using oper_step [of ev s i] step_static [of ev s] by auto
  qed simp
  from this [OF assms(1)] assms(2) n show ?thesis by (auto simp: showsOper_def verb_def setDefaults_def Let_def)
qed

theorem irc_oper_password_witness:
  "\<exists>srv tr. irc_sys.run (irc_New demoConfig demoExt) tr srv \<and> s_isOper (heap srv 0) \<and> (\<exists>line. (Line 0 line, ()) \<in> set tr)"
proof -
  let ?evs = "[Accept [] False [], Line 0 ''NICK a'', Line 0 ''USER u 0 0 r'', Line 0 ''OPER r p'']"
  have "case irc_run ?evs (irc_New demoConfig demoExt) of None \<Rightarrow> False | Some s \<Rightarrow> s_isOper (heap s 0)" by code_simp
  then obtain srv where r: "irc_run ?evs (irc_New demoConfig demoExt) = Some srv" "s_isOper (heap srv 0)" by (auto split: option.splits)
  note run = irc_run_run [OF r(1)]
  from irc_oper_password [OF run r(2)] run r(2) show ?thesis by blast
qed

text \<open>C5: A session gets an account only by its own AUTHENTICATE command, over TLS, when the payload it has sent names a
  configured account and a password that matches the hash of that account.\<close>

theorem irc_account_login:
  assumes "irc_sys.reachable conf x srv" and "enabled ev srv"
    and "s_account (heap (step ev srv) j) \<noteq> s_account (heap srv j)" and "s_account (heap (step ev srv) j) \<noteq> []"
  shows "\<exists>line q authc pass a. ev = Line j line \<and> Parse line = Inr q \<and> ToUpper (Command q) = AUTHENTICATE \<and> s_secure (heap srv j) \<and>
    plainFields (payload (heap srv j) q) = Some (authc, pass) \<and> map_of (accounts srv) (ToLower authc) = Some a \<and>
    x_bcrypt (ext srv) (a_PasswordHash a) pass \<and> s_account (heap (step ev srv) j) = a_Name a"
proof -
  have "\<exists>line q. ev = Line j line \<and> Parse line = Inr q \<and> showsAccount srv (heap srv j) q (s_account (heap (step ev srv) j))"
  proof (cases ev)
    case (Line i line)
    then show ?thesis using account_line [of i line srv j] assms(3) by auto
  next
    case (Accept h sec n)
    then show ?thesis using acceptConn_heap(1) [of j srv h sec n] acceptConn_heap(2) [of h sec n srv] assms(3,4) by (cases "j = nextSid srv") auto
  qed (use step_other [of ev srv j] strip_eqD assms(3) in blast)+
  moreover have "capEnabled (heap srv j) CapSASL \<longrightarrow> s_secure (heap srv j)"
    using inv_reachable [OF assms(1)] by (simp add: irc_inv_def sess_ok_def)
  ultimately show ?thesis by (auto simp: showsAccount_def verb_def)
qed

theorem irc_account_login_witness:
  "\<exists>srv. irc_sys.reachable demoConfig demoExt srv \<and> s_account (heap srv 0) = [] \<and>
     s_account (heap (step (Line 0 ''AUTHENTICATE AGEAcA=='') srv) 0) = ''a'' \<and> s_secure (heap srv 0)"
proof -
  let ?evs = "[Accept [] True [], Line 0 ''CAP REQ sasl'', Line 0 ''AUTHENTICATE PLAIN'']"
  let ?ev = "Line 0 ''AUTHENTICATE AGEAcA==''"
  have "case irc_run ?evs (irc_New demoConfig demoExt) of None \<Rightarrow> False
    | Some s \<Rightarrow> s_account (heap s 0) = [] \<and> enabled ?ev s \<and> s_account (heap (step ?ev s) 0) = ''a''" by code_simp
  then obtain srv where r: "irc_run ?evs (irc_New demoConfig demoExt) = Some srv" "s_account (heap srv 0) = []" "enabled ?ev srv"
      "s_account (heap (step ?ev srv) 0) = ''a''" by (auto split: option.splits simp del: step.simps enabled.simps)
  have "irc_sys.reachable demoConfig demoExt srv" using irc_run_run [OF r(1)] unfolding irc_sys.reachable_def by blast
  with irc_account_login [OF this r(3), of 0] r(2,4) show ?thesis by (simp del: step.simps enabled.simps) blast
qed







text \<open>C23: The queue of a connection: its size is the one counted and within the limit, lines are written in the order
  they were sent, none is lost as long as the connection is open, and a flush of an open connection writes all of them.\<close>

theorem irc_conn_queue:
  assumes "\<forall>line \<in> set (linesOf evs). line \<noteq> []"
  shows "let c = fold connStep evs (newConn\<lparr>asyncWrite := True\<rparr>) in
    writeBytes c = int (length (concat (map ob_line (writeQueue c)))) \<and> writeBytes c \<le> maxQueuedOutput \<and>
    prefix (written c) (linesOf evs) \<and>
    (\<not> conn_closed c \<longrightarrow> written c @ queued c = linesOf evs \<and> written (flush c) = linesOf evs)"
proof -
  have "conn_inv [] (newConn\<lparr>asyncWrite := True\<rparr>)" by (simp add: conn_inv_def newConn_def queued_def maxQueuedOutput_def)
  from conn_steps [OF this assms] show ?thesis using flush_drains by (simp add: conn_inv_def Let_def)
qed

theorem irc_conn_queue_witness:
  "written (flush (fold connStep [ELine ''a'', ELine ''b'', EWriter, ELine ''c''] (newConn\<lparr>asyncWrite := True\<rparr>))) = [''a'', ''b'', ''c'']"
proof -
  let ?evs = "[ELine ''a'', ELine ''b'', EWriter, ELine ''c'']"
  have "\<not> conn_closed (fold connStep ?evs (newConn\<lparr>asyncWrite := True\<rparr>))" "linesOf ?evs = [''a'', ''b'', ''c'']" by code_simp+
  with irc_conn_queue [of ?evs] show ?thesis by (simp add: Let_def del: fold.simps connStep.simps)
qed



text \<open>C40: A NICK of a registered session changes the nickname in the session only: the registry keeps the old name, the
  channels keep the membership under it, and nobody is told.\<close>

theorem irc_nick_of_registered:
  assumes "s_state (heap srv i) = StateRegistered" and "ToUpper (Command q) = NICK" and "Params q = n # rest"
    and "isValidNick n" and "Registry_Get (sessions srv) n = None"
  shows "irc_dispatch i q srv = srv\<lparr>heap := (heap srv)(i := (heap srv i)\<lparr>s_nick := n\<rparr>)\<rparr>"
  using assms by (simp add: irc_dispatch_def handleNick_def tryRegister_def nickTaken_def updS_def irc_cmd_defs)

theorem irc_nick_of_registered_witness:
  "let srv = irc_dispatch 0 \<lparr>msg_Tags = [], msg_Prefix = None, Command = ''NICK'', Params = [''z'']\<rparr> demoServer in
   s_nick (heap srv 0) = ''z'' \<and> channels srv = channels demoServer \<and> sessions srv = sessions demoServer"
proof -
  let ?q = "\<lparr>msg_Tags = [], msg_Prefix = None, Command = ''NICK'', Params = [''z'']\<rparr>"
  have "s_state (heap demoServer 0) = StateRegistered" "ToUpper (Command ?q) = NICK" "isValidNick ''z''" "Registry_Get (sessions demoServer) ''z'' = None"
    by code_simp+
  with irc_nick_of_registered [of demoServer 0 ?q "''z''" "[]"] show ?thesis by simp
qed

end
