(* ===== verification/IrcSasl.thy ===== *)
theory IrcSasl
  imports GoText
begin

text \<open>
  File \<open>irc/client/sasl/mechanism.go\<close>: the SASL mechanisms of the client. The hash, HMAC and PBKDF2 are parameters, and so are
  the random bytes of a nonce. Byte slices are strings here, as everywhere in the model of the IRC packages.
\<close>

unbundle bit_operations_syntax

section \<open>Definitions\<close>

text \<open>\<open>StdEncoding.DecodeString\<close>: unlike the strict decoder it ignores the bits behind the last byte.\<close>

fun b64_quanta_lax :: "string \<Rightarrow> string option" where
  "b64_quanta_lax [] = Some []"
| "b64_quanta_lax (p # q # u # v # r) =
     (case (b64val p, b64val q) of
        (Some a, Some b) \<Rightarrow>
          if u = CHR ''='' \<and> v = CHR ''='' \<and> r = [] then Some [char_of ((a * 64 + b) div 16)]
          else (case b64val u of
             None \<Rightarrow> None
           | Some c \<Rightarrow>
               if v = CHR ''='' \<and> r = []
               then let n = a * 4096 + b * 64 + c in Some [char_of (n div 1024), char_of (n div 4 mod 256)]
               else (case b64val v of
                  None \<Rightarrow> None
                | Some d \<Rightarrow> (case b64_quanta_lax r of None \<Rightarrow> None | Some s \<Rightarrow> Some (b64_three a b c d @ s))))
      | _ \<Rightarrow> None)"
| "b64_quanta_lax _ = None"

definition b64_DecodeString :: "string \<Rightarrow> string option" where
  "b64_DecodeString s = b64_quanta_lax (filter (\<lambda>c. c \<noteq> CR \<and> c \<noteq> LF) s)"

record Plain =
  pl_Username :: string
  pl_Password :: string
  pl_AuthzID :: string

definition Plain_Next :: "Plain \<Rightarrow> string \<times> bool" where
  "Plain_Next p = (pl_AuthzID p @ NUL # pl_Username p @ NUL # pl_Password p, True)"

record External =
  ex_AuthzID :: string

definition External_Next :: "External \<Rightarrow> string \<times> bool" where
  "External_Next e = (ex_AuthzID e, True)"

text \<open>The hash of a SCRAM mechanism: HMAC of a key and a message, the hash, and PBKDF2 of a password, a salt, an iteration
  count and a key length.\<close>

record Crypto =
  cr_hmac :: "string \<Rightarrow> string \<Rightarrow> string"
  cr_hash :: "string \<Rightarrow> string"
  cr_pbkdf2 :: "string \<Rightarrow> string \<Rightarrow> int \<Rightarrow> int \<Rightarrow> string"

datatype scramState = scramStateInit | scramStateServerFirst | scramStateDone

record SCRAM =
  sc_username :: string
  sc_password :: string
  sc_hashNew :: Crypto
  sc_hashName :: string
  sc_keyLen :: int
  sc_state :: scramState
  sc_clientNonce :: string
  sc_clientFirst :: string
  sc_serverSig :: string

definition NewScramSHA256 :: "Crypto \<Rightarrow> string \<Rightarrow> string \<Rightarrow> SCRAM" where
  "NewScramSHA256 sha256 username password =
     \<lparr>sc_username = username, sc_password = password, sc_hashNew = sha256, sc_hashName = ''SCRAM-SHA-256'', sc_keyLen = 32,
      sc_state = scramStateInit, sc_clientNonce = [], sc_clientFirst = [], sc_serverSig = []\<rparr>"

definition NewScramSHA512 :: "Crypto \<Rightarrow> string \<Rightarrow> string \<Rightarrow> SCRAM" where
  "NewScramSHA512 sha512 username password =
     \<lparr>sc_username = username, sc_password = password, sc_hashNew = sha512, sc_hashName = ''SCRAM-SHA-512'', sc_keyLen = 64,
      sc_state = scramStateInit, sc_clientNonce = [], sc_clientFirst = [], sc_serverSig = []\<rparr>"

definition SCRAM_Reset :: "SCRAM \<Rightarrow> SCRAM" where
  "SCRAM_Reset s = s\<lparr>sc_state := scramStateInit, sc_clientNonce := [], sc_clientFirst := [], sc_serverSig := []\<rparr>"

text \<open>The replacer of the user name.\<close>

definition scramName :: "string \<Rightarrow> string" where
  "scramName s = concat (map (\<lambda>c. if c = CHR ''='' then ''=3D'' else if c = CHR '','' then ''=2C'' else [c]) s)"

definition parseCSV :: "string \<Rightarrow> string list" where
  "parseCSV s = Split s (CHR '','')"

text \<open>The fields of the server-first-message: nonce, salt and iteration count; a later field replaces an earlier one.\<close>

definition scramField :: "string \<Rightarrow> string \<times> string \<times> string \<Rightarrow> string \<times> string \<times> string" where
  "scramField p f =
     (case f of (r, s, i) \<Rightarrow>
        if HasPrefix p ''r='' then (drop 2 p, s, i)
        else if HasPrefix p ''s='' then (r, drop 2 p, i)
        else if HasPrefix p ''i='' then (r, s, drop 2 p) else f)"

definition xor_char :: "char \<Rightarrow> char \<Rightarrow> char" where
  "xor_char a b = char_of ((of_char a :: nat) XOR of_char b)"

text \<open>\<open>None\<close> is the index out of range when the second slice is shorter.\<close>

definition xorBytes :: "string \<Rightarrow> string \<Rightarrow> string option" where
  "xorBytes a b = (if length b < length a then None else Some (map2 xor_char a b))"

text \<open>The first message: \<open>nonceBuf\<close> are the random bytes.\<close>

definition scramFirst :: "string \<Rightarrow> SCRAM \<Rightarrow> SCRAM \<times> (string \<times> bool) result" where
  "scramFirst nonceBuf s =
     (let nonce = b64_EncodeToString nonceBuf;
          first = ''n='' @ scramName (sc_username s) @ '',r='' @ nonce
      in (s\<lparr>sc_clientNonce := nonce, sc_clientFirst := first, sc_state := scramStateServerFirst\<rparr>, Inr (''n,,'' @ first, False)))"

text \<open>The final message, with the proof of the client; the signature of the server is kept for the last step.\<close>

definition scramProof :: "string \<Rightarrow> string \<Rightarrow> string \<Rightarrow> int \<Rightarrow> SCRAM \<Rightarrow> SCRAM \<times> (string \<times> bool) result" where
  "scramProof sfm serverNonce salt iterations s =
     (let K = sc_hashNew s;
          saltedPassword = cr_pbkdf2 K (sc_password s) salt iterations (sc_keyLen s);
          clientKey = cr_hmac K saltedPassword ''Client Key'';
          storedKey = cr_hash K clientKey;
          cfmwoProof = ''c='' @ b64_EncodeToString ''n,,'' @ '',r='' @ serverNonce;
          authMsg = sc_clientFirst s @ '','' @ sfm @ '','' @ cfmwoProof;
          clientSignature = cr_hmac K storedKey authMsg
      in case xorBytes clientKey clientSignature of
           None \<Rightarrow> (s, Inl (Panic ''index out of range''))
         | Some clientProof \<Rightarrow>
             (let serverKey = cr_hmac K saltedPassword ''Server Key''
              in (s\<lparr>sc_serverSig := cr_hmac K serverKey authMsg, sc_state := scramStateDone\<rparr>,
                  Inr (cfmwoProof @ '',p='' @ b64_EncodeToString clientProof, False))))"

definition scramServerFirst :: "string \<Rightarrow> SCRAM \<Rightarrow> SCRAM \<times> (string \<times> bool) result" where
  "scramServerFirst sfm s =
     (case fold scramField (parseCSV sfm) ([], [], []) of (serverNonce, saltB64, iterStr) \<Rightarrow>
        if serverNonce = [] \<or> saltB64 = [] \<or> iterStr = []
        then (s, Inl (Errorf (''sasl: malformed server-first-message: '' @ quote sfm)))
        else if \<not> HasPrefix serverNonce (sc_clientNonce s)
        then (s, Inl (Errorf ''sasl: server nonce does not start with client nonce''))
        else case b64_DecodeString saltB64 of
               None \<Rightarrow> (s, Inl (Wrapped ''sasl: invalid salt'' (Errorf ''illegal base64 data'')))
             | Some salt \<Rightarrow>
                 (case ParseInt64 iterStr of
                    None \<Rightarrow> (s, Inl (Errorf (''sasl: invalid iteration count: '' @ quote iterStr)))
                  | Some iterations \<Rightarrow>
                      if iterations \<le> 0 then (s, Inl (Errorf (''sasl: invalid iteration count: '' @ quote iterStr)))
                      else scramProof sfm serverNonce salt iterations s))"

definition scramServerFinal :: "string \<Rightarrow> SCRAM \<Rightarrow> (string \<times> bool) result" where
  "scramServerFinal sv s =
     (if \<not> HasPrefix sv ''v='' then Inl (Errorf (''sasl: unexpected server-final: '' @ quote sv))
      else case b64_DecodeString (drop 2 sv) of
             None \<Rightarrow> Inl (Wrapped ''sasl: invalid server signature'' (Errorf ''illegal base64 data''))
           | Some sig \<Rightarrow>
               if sig \<noteq> sc_serverSig s then Inl (Errorf ''sasl: server signature mismatch'') else Inr ([], True))"

definition SCRAM_Next :: "string \<Rightarrow> string \<Rightarrow> SCRAM \<Rightarrow> SCRAM \<times> (string \<times> bool) result" where
  "SCRAM_Next nonceBuf challenge s =
     (case sc_state s of
        scramStateInit \<Rightarrow> scramFirst nonceBuf s
      | scramStateServerFirst \<Rightarrow> scramServerFirst challenge s
      | scramStateDone \<Rightarrow> (s, scramServerFinal challenge s))"

section \<open>Library lemmas\<close>

lemma b64_lax_strict: "b64_quanta s = Some t \<Longrightarrow> b64_quanta_lax s = Some t"
proof (induction s arbitrary: t rule: b64_quanta.induct)
  case (2 p q u v r)
  then show ?case
    by (auto simp: b64_last1_def b64_last2_def Let_def split: option.splits if_splits)
qed simp_all

lemma b64_DecodeString_Encode [simp]: "b64_DecodeString (b64_EncodeToString s) = Some s"
  using b64_Decode_Encode [of s] b64_lax_strict by (simp only: b64_DecodeStrict_def b64_DecodeString_def)

lemma b64_no_comma: "CHR '','' \<notin> set (b64_EncodeToString s)"
proof
  assume "CHR '','' \<in> set (b64_EncodeToString s)"
  then have "CHR '','' \<in> insert (CHR ''='') (b64char ` {..<64})" using b64_alphabet by blast
  then obtain n where n: "n < 64" "b64char n = CHR '',''" by auto
  have "b64val (CHR '','') = None" by (simp add: b64val_def)
  with b64_index [OF n(1)] n(2) show False by simp
qed

lemma b64_Encode_empty [simp]: "b64_EncodeToString s = [] \<longleftrightarrow> s = []"
  by (cases s rule: b64_EncodeToString.cases) (simp_all add: Let_def)

lemma xor_char_twice [simp]: "xor_char (xor_char a b) b = a"
proof -
  have t: "take_bit 8 (of_char c :: nat) = of_char c" for c by (simp add: take_bit_eq_mod)
  have "take_bit 8 ((of_char a :: nat) XOR of_char b) = of_char a XOR of_char b" by (simp only: take_bit_xor t)
  then have "((of_char a :: nat) XOR of_char b) mod 256 = of_char a XOR of_char b" by (simp add: take_bit_eq_mod)
  then show ?thesis by (simp add: xor_char_def of_char_of xor.assoc)
qed

lemma xorBytes_twice: "length a = length b \<Longrightarrow> xorBytes a b = Some c \<Longrightarrow> xorBytes c b = Some a"
  by (auto simp: xorBytes_def intro: nth_equalityI)


lemma length_xorBytes: "xorBytes a b = Some c \<Longrightarrow> length c = length a"
  by (auto simp: xorBytes_def split: if_splits)

text \<open>The message of a server: its nonce, salt and iteration count.\<close>

definition serverFirst :: "string \<Rightarrow> string \<Rightarrow> int \<Rightarrow> string" where
  "serverFirst nonce salt iterations = Join [''r='' @ nonce, ''s='' @ b64_EncodeToString salt, ''i='' @ show_int iterations] '',''"

lemma serverFirst_fields:
  assumes "CHR '','' \<notin> set nonce"
  shows "fold scramField (parseCSV (serverFirst nonce salt iterations)) ([], [], []) = (nonce, b64_EncodeToString salt, show_int iterations)"
proof -
  let ?ws = "[''r='' @ nonce, ''s='' @ b64_EncodeToString salt, ''i='' @ show_int iterations]"
  have "\<forall>w \<in> set ?ws. CHR '','' \<notin> set w"
    using assms b64_no_comma show_int_chars [of "CHR '',''" iterations] by (auto simp: isDigitB_def)
  then have "parseCSV (serverFirst nonce salt iterations) = ?ws" unfolding parseCSV_def serverFirst_def by (intro Split_Join) simp_all
  then show ?thesis by (simp add: scramField_def HasPrefix_def)
qed

lemma show_int_not_Nil [simp]: "show_int n \<noteq> []"
  by (simp add: show_int_def)

lemma scramServerFirst_ok:
  assumes "CHR '','' \<notin> set nonce" and "nonce \<noteq> []" and "HasPrefix nonce (sc_clientNonce s)" and "salt \<noteq> []" and "0 < iterations" and "int64 iterations"
  shows "scramServerFirst (serverFirst nonce salt iterations) s = scramProof (serverFirst nonce salt iterations) nonce salt iterations s"
  using assms by (simp add: scramServerFirst_def serverFirst_fields)

text \<open>What RFC 5802 asks of the proof: with the signature of the client it gives the client key.\<close>

lemma scramProof_ok:
  fixes s :: SCRAM and salt nonce sfm :: string and iterations :: int
  assumes "\<And>k m. length (cr_hmac (sc_hashNew s) k m) = n"
  defines "K \<equiv> sc_hashNew s"
  defines "salted \<equiv> cr_pbkdf2 K (sc_password s) salt iterations (sc_keyLen s)"
  defines "auth \<equiv> sc_clientFirst s @ '','' @ sfm @ '',c=biws,r='' @ nonce"
  shows "\<exists>proof s'. scramProof sfm nonce salt iterations s = (s', Inr (''c=biws,r='' @ nonce @ '',p='' @ b64_EncodeToString proof, False)) \<and>
    sc_state s' = scramStateDone \<and>
    xorBytes proof (cr_hmac K (cr_hash K (cr_hmac K salted ''Client Key'')) auth) = Some (cr_hmac K salted ''Client Key'') \<and>
    sc_serverSig s' = cr_hmac K (cr_hmac K salted ''Server Key'') auth"
proof -
  define key where "key = cr_hmac K salted ''Client Key''"
  define sig where "sig = cr_hmac K (cr_hash K key) auth"
  have c: "''c='' @ b64_EncodeToString ''n,,'' @ '',r='' @ nonce = ''c=biws,r='' @ nonce" by (simp add: b64char_def char_of_def bit_Suc_0_iff)
  have a: "sc_clientFirst s @ '','' @ sfm @ '','' @ ''c=biws,r='' @ nonce = auth" by (simp add: auth_def)
  have l: "length key = length sig" using assms(1) by (simp add: key_def sig_def K_def)
  then obtain p where p: "xorBytes key sig = Some p" by (simp add: xorBytes_def)
  have "scramProof sfm nonce salt iterations s =
      (s\<lparr>sc_serverSig := cr_hmac K (cr_hmac K salted ''Server Key'') auth, sc_state := scramStateDone\<rparr>,
       Inr ((''c=biws,r='' @ nonce) @ '',p='' @ b64_EncodeToString p, False))"
    unfolding scramProof_def Let_def c a K_def [symmetric] salted_def [symmetric] key_def [symmetric] sig_def [symmetric] p option.case ..
  then show ?thesis using xorBytes_twice [OF l p] unfolding key_def sig_def by auto
qed

section \<open>Properties\<close>

text \<open>C16: With a server that knows the password, salt and iteration count, the SCRAM exchange of the client succeeds and
  authenticates both sides: the proof in its final message combines with the client signature to the client key, as the
  server checks it, and the client accepts the server's final message if and only if it carries the server signature.\<close>

theorem irc_scram_exchange:
  fixes user pass :: string
  assumes "\<And>k m. length (cr_hmac K k m) = n" and "salt \<noteq> []" and "0 < iterations" and "int64 iterations"
    and "CHR '','' \<notin> set serverPart" and "length nonceBuf = 18"
  defines "nonce \<equiv> b64_EncodeToString nonceBuf @ serverPart"
  defines "sfm \<equiv> serverFirst nonce salt iterations"
  defines "auth \<equiv> ''n='' @ scramName user @ '',r='' @ b64_EncodeToString nonceBuf @ '','' @ sfm @ '',c=biws,r='' @ nonce"
  defines "salted \<equiv> cr_pbkdf2 K pass salt iterations 32"
  shows "\<exists>s1 s2 proof. SCRAM_Next nonceBuf [] (NewScramSHA256 K user pass) =
      (s1, Inr (''n,,n='' @ scramName user @ '',r='' @ b64_EncodeToString nonceBuf, False)) \<and>
    SCRAM_Next buf2 sfm s1 = (s2, Inr (''c=biws,r='' @ nonce @ '',p='' @ b64_EncodeToString proof, False)) \<and>
    xorBytes proof (cr_hmac K (cr_hash K (cr_hmac K salted ''Client Key'')) auth) = Some (cr_hmac K salted ''Client Key'') \<and>
    (\<forall>sig. SCRAM_Next buf3 (''v='' @ b64_EncodeToString sig) s2 =
       (s2, if sig = cr_hmac K (cr_hmac K salted ''Server Key'') auth then Inr ([], True) else Inl (Errorf ''sasl: server signature mismatch'')))"
proof -
  define s0 where "s0 = NewScramSHA256 K user pass"
  define s1 where "s1 = fst (scramFirst nonceBuf s0)"
  have s0: "sc_state s0 = scramStateInit" "sc_username s0 = user" "sc_password s0 = pass" "sc_hashNew s0 = K" "sc_keyLen s0 = 32"
    by (simp_all add: s0_def NewScramSHA256_def)
  have s1: "sc_state s1 = scramStateServerFirst" "sc_password s1 = pass" "sc_hashNew s1 = K" "sc_keyLen s1 = 32"
    "sc_clientNonce s1 = b64_EncodeToString nonceBuf" "sc_clientFirst s1 = ''n='' @ scramName user @ '',r='' @ b64_EncodeToString nonceBuf"
    by (simp_all add: s1_def scramFirst_def Let_def s0)
  have n: "CHR '','' \<notin> set nonce" "nonce \<noteq> []" "HasPrefix nonce (sc_clientNonce s1)"
    using assms(5,6) b64_no_comma [of nonceBuf] by (auto simp: nonce_def s1 HasPrefix_def)
  have hm: "length (cr_hmac (sc_hashNew s1) k m) = n" for k m using assms(1) by (simp add: s1)
  obtain p s2 where f: "scramProof sfm nonce salt iterations s1 = (s2, Inr (''c=biws,r='' @ nonce @ '',p='' @ b64_EncodeToString p, False))"
      "sc_state s2 = scramStateDone" "xorBytes p (cr_hmac K (cr_hash K (cr_hmac K salted ''Client Key'')) auth) = Some (cr_hmac K salted ''Client Key'')"
      "sc_serverSig s2 = cr_hmac K (cr_hmac K salted ''Server Key'') auth"
    using scramProof_ok [OF hm, of sfm nonce salt iterations] by (auto simp: s1 auth_def salted_def)
  have "SCRAM_Next nonceBuf [] s0 = (s1, Inr (''n,,n='' @ scramName user @ '',r='' @ b64_EncodeToString nonceBuf, False))"
    by (simp add: SCRAM_Next_def s0 s1_def scramFirst_def Let_def)
  moreover have "SCRAM_Next buf2 sfm s1 = (s2, Inr (''c=biws,r='' @ nonce @ '',p='' @ b64_EncodeToString p, False))"
    using scramServerFirst_ok [OF n assms(2-4)] f(1) by (simp add: SCRAM_Next_def s1(1) sfm_def)
  moreover have "SCRAM_Next buf3 (''v='' @ b64_EncodeToString sig) s2 =
       (s2, if sig = cr_hmac K (cr_hmac K salted ''Server Key'') auth then Inr ([], True) else Inl (Errorf ''sasl: server signature mismatch''))" for sig
    by (simp add: SCRAM_Next_def f(2,4) scramServerFinal_def HasPrefix_def)
  ultimately show ?thesis using f(3) unfolding s0_def by blast
qed

definition demoCrypto :: Crypto where
  "demoCrypto = \<lparr>cr_hmac = (\<lambda>k m. ''x''), cr_hash = (\<lambda>m. m), cr_pbkdf2 = (\<lambda>p s i n. p)\<rparr>"

definition demoNonce :: string where
  "demoNonce = ''012345678901234567''"

theorem irc_scram_exchange_witness:
  "\<exists>s1 s2 final. SCRAM_Next demoNonce [] (NewScramSHA256 demoCrypto ''u'' ''p'') =
      (s1, Inr (''n,,n='' @ scramName ''u'' @ '',r='' @ b64_EncodeToString demoNonce, False)) \<and>
    SCRAM_Next [] (serverFirst (b64_EncodeToString demoNonce @ ''s'') ''salt'' 4096) s1 = (s2, Inr (final, False)) \<and>
    SCRAM_Next [] (''v='' @ b64_EncodeToString ''x'') s2 = (s2, Inr ([], True))"
proof -
  have h: "length (cr_hmac demoCrypto k m) = 1" "cr_hmac demoCrypto k m = ''x''" for k m by (simp_all add: demoCrypto_def)
  have "int64 4096" by (simp add: int64_def)
  moreover have "length demoNonce = 18" by (simp add: demoNonce_def)
  moreover have "CHR '','' \<notin> set ''s''" "''salt'' \<noteq> []" "(0 :: int) < 4096" by simp_all
  ultimately obtain s1 s2 final where
    a: "SCRAM_Next demoNonce [] (NewScramSHA256 demoCrypto ''u'' ''p'') =
      (s1, Inr (''n,,n='' @ scramName ''u'' @ '',r='' @ b64_EncodeToString demoNonce, False))"
    and b: "SCRAM_Next [] (serverFirst (b64_EncodeToString demoNonce @ ''s'') ''salt'' 4096) s1 = (s2, Inr (final, False))"
    and c: "\<And>sig. SCRAM_Next [] (''v='' @ b64_EncodeToString sig) s2 =
       (s2, if sig = ''x'' then Inr ([], True) else Inl (Errorf ''sasl: server signature mismatch''))"
    using irc_scram_exchange [OF h(1), of "''salt''" 4096 "''s''" demoNonce "''u''" "''p''" "[]" "[]"] unfolding h(2) by blast
  from c [of "''x''"] a b show ?thesis by (simp only: refl if_True) blast
qed

end
