(* ===== verification/IrcClient.thy ===== *)
theory IrcClient
  imports IrcGuarantees IrcSasl
begin

text \<open>
  File \<open>irc/client/client.go\<close>: the client of one connection, its capability negotiation and its SASL exchange. Dialling is
  outside: a connection that was made is the starting point. The lines written are kept in order. A handler of the
  application is an element of the table of handlers, as in the code.
\<close>

section \<open>Definitions\<close>

subsection \<open>Mechanisms and handlers\<close>

text \<open>The mechanisms of the package \<open>sasl\<close>; \<open>nonceBuf\<close> are the random bytes the call may use.\<close>

datatype mechanism = MPlain Plain | MExternal External | MScram SCRAM

fun mech_Name :: "mechanism \<Rightarrow> string" where
  "mech_Name (MPlain p) = ''PLAIN''"
| "mech_Name (MExternal e) = ''EXTERNAL''"
| "mech_Name (MScram s) = sc_hashName s"

fun mech_Next :: "string \<Rightarrow> string \<Rightarrow> mechanism \<Rightarrow> mechanism \<times> (string \<times> bool) result" where
  "mech_Next nonceBuf challenge (MPlain p) = (MPlain p, Inr (Plain_Next p))"
| "mech_Next nonceBuf challenge (MExternal e) = (MExternal e, Inr (External_Next e))"
| "mech_Next nonceBuf challenge (MScram s) = apfst MScram (SCRAM_Next nonceBuf challenge s)"

fun mech_Reset :: "mechanism \<Rightarrow> mechanism" where
  "mech_Reset (MScram s) = MScram (SCRAM_Reset s)"
| "mech_Reset m = m"

record 'h Mux =
  mux_handlers :: "(string \<times> 'h list) list"

definition mux_get :: "'h Mux \<Rightarrow> string \<Rightarrow> 'h list" where
  "mux_get m cmd = (case map_of (mux_handlers m) cmd of None \<Rightarrow> [] | Some hs \<Rightarrow> hs)"

definition mux_On :: "string \<Rightarrow> 'h \<Rightarrow> 'h Mux \<Rightarrow> 'h Mux" where
  "mux_On command fn m =
     (let cmd = ToUpper command in m\<lparr>mux_handlers := AList.update cmd (mux_get m cmd @ [fn]) (mux_handlers m)\<rparr>)"

text \<open>The handlers a message goes to, in the order they are called.\<close>

definition mux_dispatch :: "'h Mux \<Rightarrow> Message \<Rightarrow> 'h list" where
  "mux_dispatch m msg = mux_get m (Command msg) @ mux_get m ''*''"

subsection \<open>The client\<close>

record ClientConfig =
  cc_Addr :: string
  cc_Nick :: string
  cc_User :: string
  cc_RealName :: string
  cc_Password :: string
  cc_TLS :: bool
  cc_SASL :: "mechanism option"
  cc_RequestedCaps :: "string list"
  cc_DisableDefaultCaps :: bool
  cc_ReconnectDelay :: int
  cc_AutoReconnect :: bool
  cc_ConnectTimeout :: int

definition client_setDefaults :: "ClientConfig \<Rightarrow> ClientConfig" where
  "client_setDefaults c =
     c\<lparr>cc_Nick := (if cc_Nick c = [] then ''gopher'' else cc_Nick c),
       cc_User := (if cc_User c = [] then ''gopher'' else cc_User c),
       cc_RealName := (if cc_RealName c = [] then ''Gopher'' else cc_RealName c),
       cc_ReconnectDelay := (if cc_ReconnectDelay c \<le> 0 then 10 * 10 ^ 9 else cc_ReconnectDelay c),
       cc_ConnectTimeout := (if cc_ConnectTimeout c \<le> 0 then 30 * 10 ^ 9 else cc_ConnectTimeout c)\<rparr>"

datatype capPhase = capPhaseIdle | capPhaseLSSent | capPhaseREQSent | capPhaseSASL | capPhaseDone

record CAPState =
  cs_phase :: capPhase
  cs_advertised :: "(string \<times> string) list"
  cs_enabled :: "(string \<times> bool) list"
  cs_pending :: "string list"

definition newCAPState :: CAPState where
  "newCAPState = \<lparr>cs_phase = capPhaseIdle, cs_advertised = [], cs_enabled = [], cs_pending = []\<rparr>"

definition cs_Enabled :: "CAPState \<Rightarrow> string \<Rightarrow> bool" where
  "cs_Enabled cs cap \<longleftrightarrow> map_of (cs_enabled cs) cap = Some True"

text \<open>The mechanism in use is a copy of the configured one: \<open>startSASL\<close> resets it before its first use, so sharing it
  with the configuration makes no difference.\<close>

record IrcClient =
  cl_cfg :: ClientConfig
  cl_cap :: CAPState
  cl_open :: bool
  cl_out :: "string list"
  cl_nick :: string
  cl_loggedIn :: bool
  cl_saslMech :: "mechanism option"
  cl_saslBuffer :: string

definition client_New :: "ClientConfig \<Rightarrow> IrcClient" where
  "client_New cfg0 =
     (let cfg = client_setDefaults cfg0
      in \<lparr>cl_cfg = cfg, cl_cap = newCAPState, cl_open = False, cl_out = [], cl_nick = cc_Nick cfg, cl_loggedIn = False,
          cl_saslMech = None, cl_saslBuffer = []\<rparr>)"

definition client_Send :: "Message \<Rightarrow> IrcClient \<Rightarrow> IrcClient \<times> error option" where
  "client_Send msg c =
     (if \<not> cl_open c then (c, Some (Errorf ''client: not connected''))
      else (c\<lparr>cl_out := cl_out c @ [Message_String msg @ CRLF]\<rparr>, None))"

text \<open>\<open>Sendf\<close> where the error is dropped.\<close>

definition client_Sendf :: "string \<Rightarrow> string list \<Rightarrow> IrcClient \<Rightarrow> IrcClient" where
  "client_Sendf cmd params c = fst (client_Send (message None cmd params) c)"

definition updCap :: "(CAPState \<Rightarrow> CAPState) \<Rightarrow> IrcClient \<Rightarrow> IrcClient" where
  "updCap f c = c\<lparr>cl_cap := f (cl_cap c)\<rparr>"

text \<open>\<open>Connect\<close> on a connection that was dialled, up to the read loop.\<close>

definition client_Connect :: "IrcClient \<Rightarrow> IrcClient" where
  "client_Connect c0 =
     (let c = c0\<lparr>cl_open := True, cl_out := [], cl_cap := newCAPState\<lparr>cs_phase := capPhaseLSSent\<rparr>, cl_loggedIn := False,
                 cl_saslMech := None, cl_saslBuffer := []\<rparr>;
          cfg = cl_cfg c;
          c1 = client_Sendf CAP [CapLS, ''302''] c;
          c2 = (if cc_Password cfg \<noteq> [] then client_Sendf PASS [cc_Password cfg] c1 else c1);
          c3 = client_Sendf NICK [cc_Nick cfg] c2
      in client_Sendf USER [cc_User cfg, ''0'', ''*'', cc_RealName cfg] c3)"

definition client_Disconnect :: "string \<Rightarrow> IrcClient \<Rightarrow> IrcClient" where
  "client_Disconnect text c =
     (client_Sendf QUIT (if text \<noteq> [] then [text] else []) c)\<lparr>cl_open := False\<rparr>"

subsection \<open>Built-in handlers\<close>

definition client_handlePing :: "Message \<Rightarrow> IrcClient \<Rightarrow> IrcClient" where
  "client_handlePing msg c = client_Sendf PONG (Params msg) c"

definition handleNickChange :: "Message \<Rightarrow> IrcClient \<Rightarrow> IrcClient" where
  "handleNickChange msg c =
     (case msg_Prefix msg of
        None \<Rightarrow> c
      | Some p \<Rightarrow> if Nick p = cl_nick c \<and> Params msg \<noteq> [] then c\<lparr>cl_nick := hd (Params msg)\<rparr> else c)"

definition handleNickInUse :: "Message \<Rightarrow> IrcClient \<Rightarrow> IrcClient" where
  "handleNickInUse msg c = client_Sendf NICK [cl_nick c @ ''_''] c"

definition handleWelcome :: "Message \<Rightarrow> IrcClient \<Rightarrow> IrcClient" where
  "handleWelcome msg c = (if Params msg \<noteq> [] then c\<lparr>cl_nick := hd (Params msg), cl_loggedIn := True\<rparr> else c)"

definition abortSASL :: "IrcClient \<Rightarrow> IrcClient" where
  "abortSASL c = (client_Sendf AUTHENTICATE [''*''] c)\<lparr>cl_saslMech := None, cl_saslBuffer := []\<rparr>"

definition capEnd :: "IrcClient \<Rightarrow> IrcClient" where
  "capEnd c = client_Sendf CAP [CapEND] (updCap (\<lambda>cs. cs\<lparr>cs_phase := capPhaseDone\<rparr>) c)"

text \<open>Only called with a configured mechanism; \<open>None\<close> is the nil interface, whose use panics.\<close>

definition startSASL :: "IrcClient \<Rightarrow> IrcClient" where
  "startSASL c0 =
     (let c = (if cs_phase (cl_cap c0) \<noteq> capPhaseDone then updCap (\<lambda>cs. cs\<lparr>cs_phase := capPhaseSASL\<rparr>) c0 else c0)
      in case cc_SASL (cl_cfg c) of
           None \<Rightarrow> c
         | Some m \<Rightarrow> client_Sendf AUTHENTICATE [mech_Name m] (c\<lparr>cl_saslMech := Some (mech_Reset m)\<rparr>))"

definition defaultCaps :: "string list" where
  "defaultCaps =
     [CapServerTime, CapMessageTags, CapBatch, CapEchoMessage, CapMultiPrefix, CapAwayNotify, CapExtendedJoin, CapChghost,
      CapSetname, CapAccountTag, CapChatHistory, CapLabeledResponse, CapUserHostInNames, CapInviteNotify, CapAccountNotify,
      CapStandardReplies, CapExtendedMonitor]"

text \<open>One capability of the loop of \<open>capWantList\<close>: advertised, and for SASL with the mechanism.\<close>

definition capWanted :: "IrcClient \<Rightarrow> string \<Rightarrow> bool" where
  "capWanted c cap \<longleftrightarrow>
     \<not> cs_Enabled (cl_cap c) cap \<and>
     (case map_of (cs_advertised (cl_cap c)) cap of
        None \<Rightarrow> False
      | Some v \<Rightarrow>
          if cap = CapSASL \<and> v \<noteq> []
          then (case cc_SASL (cl_cfg c) of None \<Rightarrow> False | Some m \<Rightarrow> list_ex (\<lambda>x. EqualFold x (mech_Name m)) (Split v (CHR '','')))
          else True)"

fun wantLoop :: "IrcClient \<Rightarrow> string list \<Rightarrow> string list \<Rightarrow> string list" where
  "wantLoop c seen [] = []"
| "wantLoop c seen (cap # caps) =
     (if List.member seen cap then wantLoop c seen caps
      else (if capWanted c cap then [cap] else []) @ wantLoop c (cap # seen) caps)"

definition capWantList :: "IrcClient \<Rightarrow> string list" where
  "capWantList c =
     wantLoop c []
       ((if cc_DisableDefaultCaps (cl_cfg c) then [] else defaultCaps) @ (if cc_SASL (cl_cfg c) \<noteq> None then [CapSASL] else []) @
        cc_RequestedCaps (cl_cfg c))"

text \<open>\<open>strings.Cut\<close> at the equals sign.\<close>

definition cutCap :: "string \<Rightarrow> string \<times> string" where
  "cutCap token = (takeWhile (\<lambda>c. c \<noteq> CHR ''='') token, drop 1 (dropWhile (\<lambda>c. c \<noteq> CHR ''='') token))"

definition advertise :: "string \<Rightarrow> CAPState \<Rightarrow> CAPState" where
  "advertise s cs = cs\<lparr>cs_advertised := fold (\<lambda>t. case cutCap t of (k, v) \<Rightarrow> AList.update k v) (Fields s) (cs_advertised cs)\<rparr>"

definition capRequest :: "string list \<Rightarrow> IrcClient \<Rightarrow> IrcClient" where
  "capRequest want c = client_Sendf CAP [CapREQ, Join want '' ''] (updCap (\<lambda>cs. cs\<lparr>cs_pending := want\<rparr>) c)"

definition clientCapLS :: "Message \<Rightarrow> IrcClient \<Rightarrow> IrcClient" where
  "clientCapLS msg c0 =
     (let ps = Params msg; multiLine = (length ps \<ge> 3 \<and> ps ! 2 = ''*'');
          capStr = (if multiLine then (if length ps \<ge> 4 then ps ! 3 else []) else if length ps \<ge> 3 then ps ! 2 else []);
          c1 = updCap (advertise capStr) c0
      in if multiLine then c1
         else
           (let c = updCap (\<lambda>cs. cs\<lparr>cs_enabled := AList.update CapCapNotify True (cs_enabled cs)\<rparr>) c1; want = capWantList c
            in if want \<noteq> [] then capRequest want (updCap (\<lambda>cs. cs\<lparr>cs_phase := capPhaseREQSent\<rparr>) c) else capEnd c))"

definition ackCap :: "string \<Rightarrow> CAPState \<Rightarrow> CAPState" where
  "ackCap cap cs =
     (if HasPrefix cap ''-'' then cs\<lparr>cs_enabled := AList.delete (TrimPrefix cap ''-'') (cs_enabled cs)\<rparr>
      else cs\<lparr>cs_enabled := AList.update cap True (cs_enabled cs)\<rparr>)"

definition ackStep :: "bool \<Rightarrow> string \<Rightarrow> CAPState \<times> bool \<Rightarrow> CAPState \<times> bool" where
  "ackStep sasl cap st =
     (case st of (cs, start) \<Rightarrow> (ackCap cap cs, start \<or> \<not> HasPrefix cap ''-'' \<and> cap = CapSASL \<and> \<not> cs_Enabled cs cap \<and> sasl))"

definition clientCapACK :: "Message \<Rightarrow> IrcClient \<Rightarrow> IrcClient" where
  "clientCapACK msg c0 =
     (let capStr = (if length (Params msg) \<ge> 3 then TrimPrefix (Params msg ! 2) '':'' else []);
          (cs, start) = fold (ackStep (cc_SASL (cl_cfg c0) \<noteq> None)) (Fields capStr) (cl_cap c0, False);
          c = c0\<lparr>cl_cap := cs\<lparr>cs_pending := []\<rparr>\<rparr>
      in if cs_phase (cl_cap c) = capPhaseSASL then c
         else if cs_phase (cl_cap c) = capPhaseDone then (if start then startSASL c else c)
         else if start then startSASL c else capEnd c)"

definition clientCapNAK :: "IrcClient \<Rightarrow> IrcClient" where
  "clientCapNAK c0 =
     (let c = updCap (\<lambda>cs. cs\<lparr>cs_pending := []\<rparr>) c0
      in if cs_phase (cl_cap c) \<noteq> capPhaseDone \<and> cs_phase (cl_cap c) \<noteq> capPhaseSASL then capEnd c else c)"

definition clientCapNEW :: "Message \<Rightarrow> IrcClient \<Rightarrow> IrcClient" where
  "clientCapNEW msg c0 =
     (let tokens = (if length (Params msg) \<ge> 3 then Params msg ! 2 else []);
          c = updCap (advertise tokens) c0;
          newCaps = map (fst \<circ> cutCap) (Fields tokens);
          want = filter (List.member newCaps) (capWantList c)
      in if want \<noteq> [] then capRequest want c else c)"

definition clientCapDEL :: "Message \<Rightarrow> IrcClient \<Rightarrow> IrcClient" where
  "clientCapDEL msg c =
     (if length (Params msg) \<ge> 3
      then updCap (fold (\<lambda>cap cs. cs\<lparr>cs_advertised := AList.delete cap (cs_advertised cs), cs_enabled := AList.delete cap (cs_enabled cs)\<rparr>)
                    (Fields (Params msg ! 2))) c
      else c)"

definition client_handleCAP :: "Message \<Rightarrow> IrcClient \<Rightarrow> IrcClient" where
  "client_handleCAP msg c =
     (if length (Params msg) < 2 then c
      else let sub = ToUpper (Params msg ! 1)
           in if sub = CapLS then clientCapLS msg c
              else if sub = CapACK then clientCapACK msg c
              else if sub = CapNAK then clientCapNAK c
              else if sub = CapNEW then clientCapNEW msg c
              else if sub = CapDEL then clientCapDEL msg c
              else c)"

text \<open>The parameters of the AUTHENTICATE commands that carry an encoded response.\<close>

function saslChunks :: "string \<Rightarrow> string list" where
  "saslChunks encoded =
     (if length encoded \<ge> 400 then take 400 encoded # saslChunks (drop 400 encoded)
      else if encoded \<noteq> [] then [encoded] else [''+''])"
  by pat_completeness auto
termination by (relation "measure length") auto

declare saslChunks.simps [simp del]

definition saslRespond :: "string \<Rightarrow> string \<Rightarrow> mechanism \<Rightarrow> IrcClient \<Rightarrow> IrcClient" where
  "saslRespond nonceBuf challenge m c =
     (case mech_Next nonceBuf challenge m of
        (m', Inl e) \<Rightarrow> abortSASL (c\<lparr>cl_saslMech := Some m'\<rparr>)
      | (m', Inr (resp, done)) \<Rightarrow>
          fold (\<lambda>p. client_Sendf AUTHENTICATE [p]) (saslChunks (b64_EncodeToString resp)) (c\<lparr>cl_saslMech := Some m'\<rparr>))"

definition client_handleAuthenticate :: "string \<Rightarrow> Message \<Rightarrow> IrcClient \<Rightarrow> IrcClient" where
  "client_handleAuthenticate nonceBuf msg c0 =
     (case cl_saslMech c0 of
        None \<Rightarrow> c0
      | Some m \<Rightarrow>
          if Params msg = [] then c0
          else let chunk = hd (Params msg)
               in if length chunk > 400 then abortSASL c0
                  else
                    (let c = (if chunk \<noteq> ''+'' then c0\<lparr>cl_saslBuffer := cl_saslBuffer c0 @ chunk\<rparr> else c0)
                     in if length chunk = 400 then c
                        else if cl_saslBuffer c \<noteq> [] then
                          (case b64_DecodeString (cl_saslBuffer c) of
                             None \<Rightarrow> abortSASL c
                           | Some challenge \<Rightarrow> saslRespond nonceBuf challenge m (c\<lparr>cl_saslBuffer := []\<rparr>))
                        else saslRespond nonceBuf [] m c))"

definition handleSASLDone :: "IrcClient \<Rightarrow> IrcClient" where
  "handleSASLDone c0 =
     (let c = c0\<lparr>cl_saslMech := None, cl_saslBuffer := []\<rparr>
      in if cs_phase (cl_cap c) \<noteq> capPhaseDone then capEnd c else c)"

type_synonym HandlerFunc = "string \<Rightarrow> Message \<Rightarrow> IrcClient \<Rightarrow> IrcClient"

definition builtinHandlers :: "HandlerFunc Mux" where
  "builtinHandlers =
     fold (\<lambda>(cmd, fn). mux_On cmd fn)
       [(PING, \<lambda>_. client_handlePing), (CAP, \<lambda>_. client_handleCAP), (AUTHENTICATE, client_handleAuthenticate),
        (''001'', \<lambda>_. handleWelcome), (''433'', \<lambda>_. handleNickInUse), (''902'', \<lambda>_ _. handleSASLDone), (''903'', \<lambda>_ _. handleSASLDone),
        (''904'', \<lambda>_ _. handleSASLDone), (''905'', \<lambda>_ _. handleSASLDone), (''906'', \<lambda>_ _. handleSASLDone),
        (''907'', \<lambda>_ _. handleSASLDone), (NICK, \<lambda>_. handleNickChange)] \<lparr>mux_handlers = []\<rparr>"

text \<open>One line of the read loop.\<close>

definition client_line :: "HandlerFunc Mux \<Rightarrow> string \<Rightarrow> string \<Rightarrow> IrcClient \<Rightarrow> IrcClient" where
  "client_line mux nonceBuf line c =
     (case Parse line of Inl e \<Rightarrow> c | Inr msg \<Rightarrow> fold (\<lambda>h. h nonceBuf msg) (mux_dispatch mux msg) c)"

section \<open>Library lemmas\<close>

subsection \<open>The capabilities requested\<close>

lemma wantLoop_wanted: "cap \<in> set (wantLoop c seen caps) \<Longrightarrow> cap \<in> set caps \<and> cap \<notin> set seen \<and> capWanted c cap"
  by (induction c seen caps rule: wantLoop.induct) (auto split: if_splits)

lemma distinct_wantLoop: "distinct (wantLoop c seen caps)"
  by (induction c seen caps rule: wantLoop.induct) (auto dest: wantLoop_wanted)

lemma capWantList_wanted:
  "distinct (capWantList c)" "cap \<in> set (capWantList c) \<Longrightarrow> capWanted c cap"
  unfolding capWantList_def by (rule distinct_wantLoop) (use wantLoop_wanted in blast)

subsection \<open>SASL between the client and the server\<close>

lemma length_b64 [simp]: "4 dvd length (b64_EncodeToString s)"
  by (induction s rule: b64_EncodeToString.induct) (simp_all add: Let_def, presburger+)

definition wireSafe :: "string \<Rightarrow> bool" where
  "wireSafe s \<longleftrightarrow> CR \<notin> set s \<and> LF \<notin> set s \<and> CHR ''*'' \<notin> set s"

lemma b64_wireSafe: "wireSafe (b64_EncodeToString s)"
proof -
  have v: "b64val CR = None" "b64val LF = None" "b64val (CHR ''*'') = None" by (simp_all add: b64val_def)
  have "c \<notin> insert (CHR ''='') (b64char ` {..<64})" if "b64val c = None" "c \<noteq> CHR ''=''" for c
    using that b64_index by fastforce
  then have "c \<notin> set (b64_EncodeToString s)" if "b64val c = None" "c \<noteq> CHR ''=''" for c using subsetD [OF b64_alphabet] that by metis
  with v show ?thesis by (simp add: wireSafe_def)
qed

lemma wireSafe_parts: "wireSafe s \<Longrightarrow> wireSafe (take n s)" "wireSafe s \<Longrightarrow> wireSafe (drop n s)"
  by (auto simp: wireSafe_def dest: in_set_takeD in_set_dropD)

abbreviation authenticate :: "string \<Rightarrow> Message" where
  "authenticate chunk \<equiv> message None AUTHENTICATE [chunk]"

lemma authenticate_wire:
  assumes "wireSafe chunk" and "length chunk \<le> 400"
  shows "Parse (Message_String (authenticate chunk) @ CRLF) = Inr (authenticate chunk)"
    and "\<not> InputTooLong (Message_String (authenticate chunk) @ CRLF)"
proof -
  have w: "wf_message (authenticate chunk)"
    using assms(1) by (auto simp: wf_message_def message_def wf_middle_def AUTHENTICATE_def ContainsAny_iff ToUpper_def upper_def wireSafe_def)
  then show "Parse (Message_String (authenticate chunk) @ CRLF) = Inr (authenticate chunk)"
    using Parse_Format_crlf [of "authenticate chunk" CRLF] by (simp add: Message_String_def message_def inOrder_def)
  have "TrimRight (Message_String (authenticate chunk) @ CRLF) CRLF = Message_String (authenticate chunk)"
    using Format_no_trailing_newline [OF w, of CRLF] by (simp add: Message_String_def)
  moreover have "Message_String (authenticate chunk) = AUTHENTICATE @ formatParams [chunk]"
    by (simp add: Message_String_def Format_def message_def formatTags_def)
  ultimately show "\<not> InputTooLong (Message_String (authenticate chunk) @ CRLF)"
    using assms(2) by (simp add: InputTooLong_def AUTHENTICATE_def HasPrefix_def)
qed

text \<open>The server reading a line of the exchange.\<close>

definition idled :: "sid \<Rightarrow> Server \<Rightarrow> Server" where
  "idled i srv = updS i (\<lambda>s. s\<lparr>s_idleAt := x_clock (ext srv) (calls srv)\<rparr>) (srv\<lparr>calls := Suc (calls srv)\<rparr>)"

lemma line_authenticate:
  assumes "wireSafe chunk" and "length chunk \<le> 400"
  shows "sessionLine i (Message_String (authenticate chunk) @ CRLF) srv = handleAuthenticate i (authenticate chunk) (idled i srv)"
proof -
  have r: "responseLabel s (authenticate chunk) = None" for s by (simp add: responseLabel_def message_def Tags_Get_def)
  have d: "irc_dispatch i (authenticate chunk) srv' = handleAuthenticate i (authenticate chunk) srv'" for srv'
    by (simp add: irc_dispatch_def message_def irc_cmd_defs ToUpper_def upper_def)
  show ?thesis by (simp add: sessionLine_def authenticate_wire [OF assms] timeNow_def dispatchCommand_def r d idled_def)
qed

lemma idled_fields [simp]:
  "accounts (idled i srv) = accounts srv" "ext (idled i srv) = ext srv" "s_account (heap (idled i srv) j) = s_account (heap srv j)"
  "s_saslBuffer (heap (idled i srv) j) = s_saslBuffer (heap srv j)" "s_saslActive (heap (idled i srv) j) = s_saslActive (heap srv j)"
  "capEnabled (heap (idled i srv) j) c = capEnabled (heap srv j) c"
  by (simp_all add: idled_def capEnabled_def)

lemma server_chunk:
  assumes "capEnabled (heap srv i) CapSASL" and "s_saslActive (heap srv i)" and "wireSafe chunk" and "length chunk \<le> 400"
    and "length (s_saslBuffer (heap srv i)) + length chunk \<le> maxSASLPayload"
  shows "sessionLine i (Message_String (authenticate chunk) @ CRLF) srv =
    (let srv1 = (if chunk \<noteq> ''+'' then updS i (\<lambda>s. s\<lparr>s_saslBuffer := s_saslBuffer s @ chunk\<rparr>) (idled i srv) else idled i srv)
     in if length chunk = 400 then srv1 else saslFinish i srv1)"
proof -
  have "chunk \<noteq> ''*''" using assms(3) by (auto simp: wireSafe_def)
  then show ?thesis unfolding line_authenticate [OF assms(3,4)] using assms by (simp add: handleAuthenticate_def message_def Let_def)
qed

lemma server_chunks:
  assumes "capEnabled (heap srv i) CapSASL" and "s_saslActive (heap srv i)" and "wireSafe enc" and "4 dvd length enc"
    and "400 dvd length (s_saslBuffer (heap srv i))" and "length (s_saslBuffer (heap srv i)) + length enc \<le> maxSASLPayload"
  shows "\<exists>srv1. fold (\<lambda>chunk. sessionLine i (Message_String (authenticate chunk) @ CRLF)) (saslChunks enc) srv = saslFinish i srv1 \<and>
    s_saslBuffer (heap srv1 i) = s_saslBuffer (heap srv i) @ enc \<and> s_account (heap srv1 i) = s_account (heap srv i) \<and>
    accounts srv1 = accounts srv \<and> ext srv1 = ext srv"
  using assms
proof (induction enc arbitrary: srv rule: saslChunks.induct)
  case (1 enc)
  let ?line = "\<lambda>chunk. sessionLine i (Message_String (authenticate chunk) @ CRLF)"
  consider "400 \<le> length enc" | "length enc < 400" "enc \<noteq> []" | "enc = []" by fastforce
  then show ?case
  proof cases
    case 1
    let ?t = "take 400 enc"
    define srv1 where "srv1 = updS i (\<lambda>s. s\<lparr>s_saslBuffer := s_saslBuffer s @ ?t\<rparr>) (idled i srv)"
    have t: "length ?t = 400" using 1 by simp
    then have n: "?t \<noteq> ''+''" by (auto dest: arg_cong [of _ _ length])
    have h: "?line ?t srv = srv1"
      using server_chunk [OF "1.prems"(1,2) wireSafe_parts(1) [OF "1.prems"(3)], of 400] t n "1.prems"(6) 1 by (simp add: srv1_def)
    have f: "s_saslBuffer (heap srv1 i) = s_saslBuffer (heap srv i) @ ?t" "s_account (heap srv1 i) = s_account (heap srv i)"
      "accounts srv1 = accounts srv" "ext srv1 = ext srv" by (simp_all add: srv1_def)
    have "\<exists>srv2. fold ?line (saslChunks (drop 400 enc)) srv1 = saslFinish i srv2 \<and>
        s_saslBuffer (heap srv2 i) = s_saslBuffer (heap srv1 i) @ drop 400 enc \<and> s_account (heap srv2 i) = s_account (heap srv1 i) \<and>
        accounts srv2 = accounts srv1 \<and> ext srv2 = ext srv1"
    proof (rule "1.IH" [OF 1])
      show "capEnabled (heap srv1 i) CapSASL" "s_saslActive (heap srv1 i)" using "1.prems"(1,2) by (simp_all add: srv1_def capEnabled_def idled_def)
      show "4 dvd length (drop 400 enc)" using "1.prems"(4) by (simp add: dvd_diff_nat)
      show "400 dvd length (s_saslBuffer (heap srv1 i))" using "1.prems"(5) t by (simp add: f)
      show "length (s_saslBuffer (heap srv1 i)) + length (drop 400 enc) \<le> maxSASLPayload" using "1.prems"(6) 1 by (simp add: f)
    qed (rule wireSafe_parts(2) [OF "1.prems"(3)])
    moreover have "saslChunks enc = ?t # saslChunks (drop 400 enc)" using 1 by (subst saslChunks.simps) simp
    ultimately show ?thesis using h f by simp
  next
    case 2
    have n: "enc \<noteq> ''+''" using "1.prems"(4) by auto
    have "saslChunks enc = [enc]" using 2 by (subst saslChunks.simps) simp
    then show ?thesis using server_chunk [OF "1.prems"(1,2,3)] "1.prems"(6) 2 n
      by (intro exI [of _ "updS i (\<lambda>s. s\<lparr>s_saslBuffer := s_saslBuffer s @ enc\<rparr>) (idled i srv)"]) simp
  next
    case 3
    have "length (s_saslBuffer (heap srv i)) \<noteq> 4096" using "1.prems"(5) by auto
    then have "length (s_saslBuffer (heap srv i)) + length ''+'' \<le> maxSASLPayload" using "1.prems"(6) by (simp add: maxSASLPayload_def)
    moreover have "wireSafe ''+''" by (simp add: wireSafe_def)
    moreover have "saslChunks enc = [''+'']" using 3 by (subst saslChunks.simps) simp
    ultimately show ?thesis using server_chunk [OF "1.prems"(1,2), of "''+''"] 3 by (intro exI [of _ "idled i srv"]) simp
  qed
qed

lemma plainFields_Plain:
  assumes "NUL \<notin> set (pl_AuthzID p)" "NUL \<notin> set (pl_Username p)" "NUL \<notin> set (pl_Password p)"
    and "pl_Username p \<noteq> []" "pl_Password p \<noteq> []" "pl_AuthzID p = [] \<or> EqualFold (pl_AuthzID p) (pl_Username p)"
  shows "plainFields (b64_EncodeToString (fst (Plain_Next p))) = Some (pl_Username p, pl_Password p)"
  using assms by (auto simp: plainFields_def Plain_Next_def Split_append_sep Split_no_sep)

lemma saslFinish_account:
  assumes "plainFields (s_saslBuffer (heap srv i)) = Some (user, pass)" and "map_of (accounts srv) (ToLower user) = Some a"
  shows "s_account (heap (saslFinish i srv) i) = (if x_bcrypt (ext srv) (a_PasswordHash a) pass then a_Name a else s_account (heap srv i))"
proof -
  define b where "b = updS i (\<lambda>s. s\<lparr>s_saslActive := False, s_saslBuffer := []\<rparr>) srv"
  define d where "d = snd (checkPassword i (a_PasswordHash a) pass b)"
  have cp: "checkPassword i (a_PasswordHash a) pass b = (x_bcrypt (ext b) (a_PasswordHash a) pass, d)" and cd: "core d = core b"
    by (simp_all add: d_def prod_eq_iff)
  have m: "map_of (accounts b) (ToLower user) = Some a" using assms(2) by (simp add: b_def)
  have fin: "saslFinish i srv = (if \<not> x_bcrypt (ext b) (a_PasswordHash a) pass then SendNumeric i ERR_SASLFAIL [''SASL authentication failed''] d else loginAs i a d)"
    unfolding saslFinish_def Let_def assms(1) option.case prod.case b_def [symmetric] m cp ..
  have "s_account (heap d i) = s_account (heap srv i)" using account_core [OF cd, of i] by (simp add: b_def)
  then show ?thesis unfolding fin by (simp add: account_loginAs b_def)
qed

subsection \<open>Writing\<close>

lemma client_Sendf_open: "cl_open c \<Longrightarrow> client_Sendf cmd ps c = c\<lparr>cl_out := cl_out c @ [Message_String (message None cmd ps) @ CRLF]\<rparr>"
  by (simp add: client_Sendf_def client_Send_def)

lemma client_Sendfs_open:
  "cl_open c \<Longrightarrow> fold (\<lambda>p. client_Sendf cmd [p]) ps c = c\<lparr>cl_out := cl_out c @ map (\<lambda>p. Message_String (message None cmd [p]) @ CRLF) ps\<rparr>"
  by (induction ps arbitrary: c) (simp_all add: client_Sendf_open)

subsection \<open>Negotiation\<close>

lemma updCap_fields [simp]:
  "cl_open (updCap f c) = cl_open c" "cl_out (updCap f c) = cl_out c" "cl_cfg (updCap f c) = cl_cfg c" "cl_saslMech (updCap f c) = cl_saslMech c"
  "cl_cap (updCap f c) = f (cl_cap c)"
  by (simp_all add: updCap_def)

lemma capEnd_progress [simp]:
  assumes "cl_open c"
  shows "length (cl_out (capEnd c)) = length (cl_out c) + 1" "cs_phase (cl_cap (capEnd c)) = capPhaseDone" "cl_saslMech (capEnd c) = cl_saslMech c"
  using assms by (simp_all add: capEnd_def client_Sendf_open)

lemma startSASL_progress:
  assumes "cl_open c" and "cc_SASL (cl_cfg c) \<noteq> None"
  shows "length (cl_out (startSASL c)) = length (cl_out c) + 1 \<and> cs_phase (cl_cap (startSASL c)) \<in> {capPhaseSASL, capPhaseDone}"
  using assms by (auto simp: startSASL_def client_Sendf_open Let_def)

lemma capWanted_advertised: "capWanted c cap \<Longrightarrow> map_of (cs_advertised (cl_cap c)) cap \<noteq> None \<and> \<not> cs_Enabled (cl_cap c) cap"
  by (cases "map_of (cs_advertised (cl_cap c)) cap") (auto simp: capWanted_def)

lemma clientCapLS_progress:
  assumes "cl_open c" and "\<not> (3 \<le> length (Params msg) \<and> Params msg ! 2 = ''*'')"
  defines "c' \<equiv> clientCapLS msg c"
  shows "length (cl_out c') = length (cl_out c) + 1 \<and>
       (cs_phase (cl_cap c') = capPhaseDone \<or>
        cs_phase (cl_cap c') = capPhaseREQSent \<and> distinct (cs_pending (cl_cap c')) \<and>
        list_all (\<lambda>cap. map_of (cs_advertised (cl_cap c')) cap \<noteq> None \<and> \<not> cs_Enabled (cl_cap c') cap) (cs_pending (cl_cap c')))"
proof -
  define d where "d = updCap (\<lambda>cs. cs\<lparr>cs_enabled := AList.update CapCapNotify True (cs_enabled cs)\<rparr>)
      (updCap (advertise (if 3 \<le> length (Params msg) then Params msg ! 2 else [])) c)"
  have o: "cl_open d" "cl_out d = cl_out c" using assms(1) by (simp_all add: d_def)
  have c': "c' = (if capWantList d \<noteq> [] then capRequest (capWantList d) (updCap (\<lambda>cs. cs\<lparr>cs_phase := capPhaseREQSent\<rparr>) d) else capEnd d)"
    unfolding c'_def clientCapLS_def Let_def d_def using assms(2) by (simp only: if_False simp_thms)
  have w: "list_all (\<lambda>cap. map_of (cs_advertised (cl_cap d)) cap \<noteq> None \<and> \<not> cs_Enabled (cl_cap d) cap) (capWantList d)"
    using capWanted_advertised [OF capWantList_wanted(2)] unfolding list_all_iff by blast
  show ?thesis using o w capWantList_wanted(1) [of d] unfolding c' by (simp add: capRequest_def client_Sendf_open cs_Enabled_def)
qed

lemma ackStep_fold:
  "cs_phase (fst (fold (ackStep sasl) caps st)) = cs_phase (fst st)" "snd (fold (ackStep sasl) caps st) \<Longrightarrow> snd st \<or> sasl"
  by (induction caps arbitrary: st) (auto simp: ackStep_def ackCap_def split_beta)

lemma clientCapACK_progress:
  assumes "cl_open c" and "cs_phase (cl_cap c) = capPhaseREQSent"
  shows "length (cl_out (clientCapACK msg c)) = length (cl_out c) + 1 \<and> cs_phase (cl_cap (clientCapACK msg c)) \<in> {capPhaseSASL, capPhaseDone}"
proof -
  define r where "r = fold (ackStep (cc_SASL (cl_cfg c) \<noteq> None))
      (Fields (if 3 \<le> length (Params msg) then TrimPrefix (Params msg ! 2) '':'' else [])) (cl_cap c, False)"
  define d where "d = c\<lparr>cl_cap := (fst r)\<lparr>cs_pending := []\<rparr>\<rparr>"
  have "cs_phase (fst r) = capPhaseREQSent" using ackStep_fold(1) assms(2) by (simp add: r_def)
  then have e: "clientCapACK msg c = (if snd r then startSASL d else capEnd d)"
    unfolding clientCapACK_def Let_def r_def [symmetric] split_beta d_def [symmetric] by (simp add: d_def)
  have "snd r \<Longrightarrow> cc_SASL (cl_cfg c) \<noteq> None" unfolding r_def by (drule ackStep_fold(2)) simp
  then have "snd r \<Longrightarrow> cc_SASL (cl_cfg d) \<noteq> None" by (simp add: d_def)
  moreover have "cl_open d" "cl_out d = cl_out c" using assms(1) by (simp_all add: d_def)
  ultimately show ?thesis using startSASL_progress [of d] capEnd_progress [of d] unfolding e by auto
qed

lemma clientCapNAK_progress:
  assumes "cl_open c" and "cs_phase (cl_cap c) = capPhaseREQSent"
  shows "length (cl_out (clientCapNAK c)) = length (cl_out c) + 1 \<and> cs_phase (cl_cap (clientCapNAK c)) \<in> {capPhaseSASL, capPhaseDone}"
  using assms by (simp add: clientCapNAK_def Let_def)

lemma handleSASLDone_progress:
  assumes "cl_open c" and "cs_phase (cl_cap c) = capPhaseSASL"
  shows "length (cl_out (handleSASLDone c)) = length (cl_out c) + 1 \<and> cs_phase (cl_cap (handleSASLDone c)) = capPhaseDone \<and>
    cl_saslMech (handleSASLDone c) = None"
  using assms by (simp add: handleSASLDone_def Let_def)

section \<open>Properties\<close>

text \<open>C8: PLAIN authentication from end to end: when the server asks for the response, the client writes it in chunks; the
  server that reads these lines has the session logged in to the account of the user name if the password matches its
  hash, and otherwise leaves its account as it was.\<close>

theorem irc_sasl_plain_login:
  assumes "cl_open c" and "cl_saslMech c = Some (MPlain p)" and "cl_saslBuffer c = []"
    and "capEnabled (heap srv i) CapSASL" and "s_saslActive (heap srv i)" and "s_saslBuffer (heap srv i) = []"
    and "NUL \<notin> set (pl_AuthzID p)" and "NUL \<notin> set (pl_Username p)" and "NUL \<notin> set (pl_Password p)"
    and "pl_Username p \<noteq> []" and "pl_Password p \<noteq> []" and "pl_AuthzID p = [] \<or> EqualFold (pl_AuthzID p) (pl_Username p)"
    and "length (b64_EncodeToString (fst (Plain_Next p))) \<le> maxSASLPayload"
    and "map_of (accounts srv) (ToLower (pl_Username p)) = Some a"
  shows "\<exists>lines. cl_out (client_handleAuthenticate nonceBuf (authenticate ''+'') c) = cl_out c @ lines \<and>
    s_account (heap (fold (sessionLine i) lines srv) i) =
      (if x_bcrypt (ext srv) (a_PasswordHash a) (pl_Password p) then a_Name a else s_account (heap srv i))"
proof -
  let ?enc = "b64_EncodeToString (fst (Plain_Next p))"
  let ?lines = "map (\<lambda>chunk. Message_String (authenticate chunk) @ CRLF) (saslChunks ?enc)"
  have n: "Plain_Next p = (fst (Plain_Next p), True)" by (simp add: Plain_Next_def)
  have "client_handleAuthenticate nonceBuf (authenticate ''+'') c =
      fold (\<lambda>p. client_Sendf AUTHENTICATE [p]) (saslChunks ?enc) (c\<lparr>cl_saslMech := Some (MPlain p)\<rparr>)"
    using assms(2,3) n by (simp add: client_handleAuthenticate_def message_def saslRespond_def split_beta)
  then have out: "cl_out (client_handleAuthenticate nonceBuf (authenticate ''+'') c) = cl_out c @ ?lines"
    using assms(1) by (simp add: client_Sendfs_open)
  have b: "400 dvd length (s_saslBuffer (heap srv i))" "length (s_saslBuffer (heap srv i)) + length ?enc \<le> maxSASLPayload"
    using assms(6,13) by simp_all
  obtain srv1 where f: "fold (\<lambda>chunk. sessionLine i (Message_String (authenticate chunk) @ CRLF)) (saslChunks ?enc) srv = saslFinish i srv1"
      "s_saslBuffer (heap srv1 i) = ?enc" "s_account (heap srv1 i) = s_account (heap srv i)" "accounts srv1 = accounts srv" "ext srv1 = ext srv"
    using server_chunks [OF assms(4,5) b64_wireSafe length_b64 b] assms(6) by auto
  have "plainFields (s_saslBuffer (heap srv1 i)) = Some (pl_Username p, pl_Password p)" unfolding f(2) by (rule plainFields_Plain [OF assms(7-12)])
  from saslFinish_account [OF this, of a] assms(14) f
  have "s_account (heap (fold (sessionLine i) ?lines srv) i) =
      (if x_bcrypt (ext srv) (a_PasswordHash a) (pl_Password p) then a_Name a else s_account (heap srv i))"
    by (simp add: fold_map o_def)
  with out show ?thesis by blast
qed

definition demoClient :: IrcClient where
  "demoClient = (client_New \<lparr>cc_Addr = [], cc_Nick = [], cc_User = [], cc_RealName = [], cc_Password = [], cc_TLS = True,
     cc_SASL = Some (MPlain \<lparr>pl_Username = ''a'', pl_Password = ''p'', pl_AuthzID = []\<rparr>), cc_RequestedCaps = [], cc_DisableDefaultCaps = True,
     cc_ReconnectDelay = 0, cc_AutoReconnect = False, cc_ConnectTimeout = 0\<rparr>)
     \<lparr>cl_open := True, cl_saslMech := Some (MPlain \<lparr>pl_Username = ''a'', pl_Password = ''p'', pl_AuthzID = []\<rparr>)\<rparr>"

definition demoSaslServer :: Server where
  "demoSaslServer = (irc_New demoConfig demoExt)\<lparr>heap := (\<lambda>_. (newSession0 [] 0 0)\<lparr>s_caps := [(CapSASL, True)], s_saslActive := True\<rparr>)\<rparr>"

theorem irc_sasl_plain_login_witness:
  "\<exists>lines. cl_out (client_handleAuthenticate [] (authenticate ''+'') demoClient) = cl_out demoClient @ lines \<and>
     s_account (heap (fold (sessionLine 0) lines demoSaslServer) 0) = ''a''"
proof -
  let ?p = "\<lparr>pl_Username = ''a'', pl_Password = ''p'', pl_AuthzID = []\<rparr>"
  let ?a = "\<lparr>a_Name = ''a'', a_PasswordHash = ''p'', a_Host = []\<rparr>"
  have "length (b64_EncodeToString (fst (Plain_Next ?p))) \<le> maxSASLPayload" by (simp add: Plain_Next_def Let_def maxSASLPayload_def)
  moreover have "cl_open demoClient" "cl_saslMech demoClient = Some (MPlain ?p)" "cl_saslBuffer demoClient = []"
    by (simp_all add: demoClient_def client_New_def Let_def)
  moreover have "capEnabled (heap demoSaslServer 0) CapSASL" "s_saslActive (heap demoSaslServer 0)" "s_saslBuffer (heap demoSaslServer 0) = []"
    by (simp_all add: demoSaslServer_def capEnabled_def newSession0_def)
  moreover have "map_of (accounts demoSaslServer) (ToLower (pl_Username ?p)) = Some ?a" "x_bcrypt (ext demoSaslServer) (a_PasswordHash ?a) (pl_Password ?p)"
    by code_simp+
  ultimately show ?thesis using irc_sasl_plain_login [of demoClient ?p demoSaslServer 0 ?a "[]"] by simp
qed



end
