(* ===== verification/Spec2Isabelle.thy ===== *)
theory Spec2Isabelle
  imports Bencode Bitfield Peer Piece Metainfo IrcMessage IrcMode IrcHistory SftpOsfs SftpClient FtpClient IrcClient
begin

text \<open>
  A verification development for go-protocols: four Go modules under \<open>src/\<close> that implement BitTorrent
  (\<open>torrent\<close>), IRC (\<open>irc\<close>), SFTP (\<open>sftp\<close>) and FTP (\<open>ftp\<close>), each with its wire format and, where the module has
  them, its server and its client. The theories follow the packages; each opens with the correspondence
  between its definitions and the code.

  \<^bold>\<open>How Go is represented.\<close> \<open>Go_Prelude\<close> holds the types and the part of the standard library that all modules use:
  strings and byte slices as lists, \<open>int\<close> as \<^typ>\<open>int\<close> with the wrap-around written out where an outside party chooses the
  operands, fixed-width integers as words, \<open>error\<close> values (panics among them) as a datatype and fallible
  functions as sums, maps as association lists whose order stands for the order of iteration. It also declares the
  shared interfaces: \<open>prefix_codec\<close> (an encoder whose decoder stops where the encoding stops, with the lemmas on streams
  of values), \<open>state_machine\<close> (runs, reachability, invariants) and the field codecs. \<open>GoOs\<close> adds \<open>path/filepath\<close> and the
  operating system as a record of functions on a state of its own; \<open>GoText\<close> adds base64, \<open>Sscan\<close> and \<open>%q\<close>.
  Code that is not in the repository (operating system, network, TLS, clocks, random numbers, hashes,
  bcrypt, the HTTP client) is an argument of the definitions that use it.

  \<^bold>\<open>torrent.\<close> \<open>Bencode\<close> is the decoder and encoder, with round trip, canonical re-encoding and totality; \<open>Bitfield\<close> the piece
  set; \<open>Peer\<close> the handshake and the framed messages, with two peers run against each other and streams read back;
  \<open>Piece\<close> the assembly of a piece from blocks in any order; \<open>Metainfo\<close> the metainfo file and the tracker, on top of
  \<open>Bencode\<close>.

  \<^bold>\<open>irc.\<close> \<open>IrcMessage\<close> is the parser and formatter; \<open>IrcMode\<close> mode strings and mode sets (locale \<open>mode_validator\<close>);
  \<open>IrcHistory\<close> the ring buffer as a refinement of a list, the store and the selection of history; \<open>IrcNames\<close> the names.
  The server is a state whose operations map it to its successor: \<open>IrcServer\<close> has sessions with their output
  queues, registries and channels (\<open>irc/server/server.go\<close>), \<open>IrcHandlers\<close> one definition per handler (\<open>handlers.go\<close>), and
  \<open>IrcDispatch\<close> the dispatcher and the steps of connections, which may interleave in any order (interpretation
  \<open>irc_sys\<close> of \<open>state_machine\<close>). \<open>IrcEffects\<close> lists what a session may change and when, \<open>IrcPermitted\<close> shows that every command is a
  sequence of such effects, \<open>IrcInvariant\<close> that they keep the invariant, and \<open>IrcGuarantees\<close> states what follows:
  who becomes operator, who is logged in, who may act on a channel, who receives a message. \<open>IrcSasl\<close> is the SASL mechanisms and
  \<open>IrcClient\<close> the client (\<open>irc/client\<close>): capability negotiation, SASL and the built-in handlers; it is put together with the
  server through the lines that both format and parse.

  \<^bold>\<open>sftp.\<close> \<open>SftpWire\<close> is packets and attributes; \<open>SftpServer\<close> the loop of \<open>Serve\<close> over a backend (locale \<open>sftp_backend\<close>); \<open>SftpOsfs\<close>
  the backend on the operating system with its confinement to a root; \<open>SftpClient\<close> the pending table, the calls, and
  the client run against the server: reading a directory or a file over the wire gives what the backend has.

  \<^bold>\<open>ftp.\<close> \<open>FtpProto\<close> is commands, replies and addresses; \<open>FtpFs\<close> the authenticators and the filesystem; \<open>FtpSession\<close> the
  session of the server (interpretation \<open>ftp_sys\<close>), with login, confinement and replies; \<open>FtpClient\<close> the client, the package
  \<open>ftps\<close>, and the client run against the server.

  \<^bold>\<open>Bounds and fuel.\<close> Only the bencode decoder spends fuel; \<open>2 * length r + 1\<close> units are shown to be enough for every
  input, so \<open>bencode_Decode\<close> is total. All other loops are structural recursions or have a measure on the input
  that is left. Wrap-around is kept where it matters: the lengths and offsets of the wire formats, request
  identifiers, port numbers and sizes.

  \<^bold>\<open>Not modelled.\<close> Concurrency inside one operation: mutexes are left out, and the steps of the servers are the handling of one
  line or packet, in any order between connections. Deadlines and write errors of connections that are open,
  listeners, TLS and \<open>DefaultTLSConfig\<close> are outside, as is the connection cap of the FTP server. \<open>irc/bouncer/bouncer.go\<close> and
  \<open>irc/client/dcc\<close>, \<open>irc/client/xdcc\<close> are not modelled: their work is done by goroutines that share state with the connections they
  copy from, and XDCC parses with regular expressions and floating-point sizes; the history store of the bouncer and the IRC client
  it runs are modelled. The configuration packages decode TOML with a third-party library and the programs under
  \<open>cmd\<close> only wire packages together.
\<close>

end
